(* ===== verification/Prelude.thy ===== *)
theory Prelude
  imports Main "HOL-Library.Word"
begin

text \<open>
  Shared vocabulary of the development: the types the contract's data is built from
  (account ids and strings as \<open>char list\<close>, bytes as \<open>8 word\<close>), the panics a
  call of the contract can end with, the part of the NEAR host context the contract
  reads (\<open>env::predecessor_account_id\<close>, \<open>env::attached_deposit\<close>), the
  collection \<open>registry_simps\<close> that the component theories fill with the
  characteristic equations of their operations, and generic lemmas on partial maps
  shared by the component proofs.
\<close>

section \<open>Types of the model\<close>

text \<open>
  \<open>AccountId\<close> and \<open>String\<close> of the source are byte strings; Isabelle's \<open>char\<close>
  is a byte, so a \<open>string\<close> is the UTF-8 byte sequence of the Rust value.
\<close>

type_synonym account_id = string

type_synonym byte = "8 word"

type_synonym bytes = "byte list"

text \<open>
  A panic ends a call of the contract. The constructors are the panics of the
  source and of the code \<open>#[near_bindgen]\<close> generates around it:
  \<^item> \<open>AlreadyInitialized\<close>: \<open>#[init]\<close> method called when contract state exists;
  \<^item> \<open>NotInitialized\<close>: \<open>PanicOnDefault\<close>, a method called before \<open>new\<close>;
  \<^item> \<open>Unauthorized\<close>: the \<open>assert_eq!\<close> of \<open>mint_nft\<close>;
  \<^item> \<open>MetadataUninitialized\<close>: the \<open>unwrap()\<close> of \<open>nft_metadata\<close> on an empty
    \<open>LazyOption\<close>;
  \<^item> \<open>DepositNotAccepted m\<close>: a non-payable mutating method \<open>m\<close> called with a deposit;
  \<^item> the panics of the \<open>near_sdk\<close> collections: \<open>InconsistentState\<close> (an entry
    the collection's bookkeeping promises is missing or malformed),
    \<open>IndexOutOfBounds\<close>, \<open>KeySerialization\<close>, \<open>ValueSerialization\<close>,
    \<open>ValueDeserialization\<close> (Borsh failed on a key or value), and
    \<open>StateDeserialization\<close> (the stored contract struct does not decode);
  \<^item> \<open>ArgsDeserialization\<close>: the wrapper's \<open>serde_json\<close> read of the call's JSON
    arguments failed; \<open>MethodNotFound\<close>: the receipt names a method the contract
    does not export (a host error, which fails the receipt as a panic does).
\<close>

datatype panic =
    AlreadyInitialized
  | NotInitialized
  | Unauthorized
  | MetadataUninitialized
  | DepositNotAccepted string
  | InconsistentState
  | IndexOutOfBounds
  | KeySerialization
  | ValueSerialization
  | ValueDeserialization
  | StateDeserialization
  | ArgsDeserialization
  | MethodNotFound

text \<open>
  The host context of one call: who called (\<open>env::predecessor_account_id()\<close>) and the
  attached deposit in yoctoNEAR (\<open>env::attached_deposit()\<close>, a \<open>u128\<close>).
\<close>

record vm_context =
  predecessor_account_id :: account_id
  attached_deposit :: "128 word"

named_theorems registry_simps "characteristic equations of the contract's operations"

section \<open>Lemmas on partial maps\<close>

lemma ran_map_upd_subset: "ran (m(k \<mapsto> v)) \<subseteq> insert v (ran m)"
  by (auto simp: ran_def)

lemma finite_dom_map_upd [intro]: "finite (dom m) \<Longrightarrow> finite (dom (m(k \<mapsto> v)))"
  by simp

end
