(* ===== verification/Registry.thy ===== *)
theory Registry
  imports Prelude
begin

text \<open>
  The contract of \<open>src/src/lib.rs\<close> at the level of its Rust methods: the data types
  \<open>Token\<close>, \<open>TokenMetadata\<close>, \<open>NFTContractMetadata\<close> and \<open>Contract\<close>, and the
  methods \<open>new\<close>, \<open>mint_nft\<close>, \<open>nft_token\<close> and \<open>nft_metadata\<close>. The two
  persistent collections are seen through their abstract content: the
  \<open>UnorderedMap<String, Token>\<close> as a partial map, the
  \<open>LazyOption<NFTContractMetadata>\<close> as an option. A method that changes state
  returns the new contract and the log lines it emits; a panic is an \<open>Inl\<close>.
\<close>

section \<open>Data\<close>

text \<open>\<open>struct TokenMetadata\<close> (lines 29--33): every field optional.\<close>

record token_metadata =
  title :: "string option"
  description :: "string option"
  media :: "string option"

text \<open>
  \<open>struct Token\<close> (lines 22--25). Its fields \<open>owner_id\<close> and \<open>metadata\<close> share their
  names with fields of \<open>Contract\<close>; they are prefixed with \<open>token_\<close> here.
\<close>

record token =
  token_owner_id :: account_id
  token_metadata :: token_metadata

text \<open>\<open>struct NFTContractMetadata\<close> (lines 37--41).\<close>

record nft_contract_metadata =
  spec :: string
  name :: string
  symbol :: string

text \<open>
  \<open>struct Contract\<close> (lines 8--12): the owner recorded at initialisation, the token
  map and the lazily stored collection metadata.
\<close>

record contract =
  owner_id :: account_id
  tokens_by_id :: "string \<rightharpoonup> token"
  metadata :: "nft_contract_metadata option"

section \<open>Methods\<close>

text \<open>The schema tag written by \<open>new\<close> (line 48).\<close>

definition nft_spec :: string where
  "nft_spec = ''nft-1.0.0''"

text \<open>\<open>Contract::new\<close> (lines 46--58): a fresh \<open>UnorderedMap\<close> and a \<open>LazyOption\<close>
  created with \<open>Some(&metadata)\<close>.\<close>

definition new :: "account_id \<Rightarrow> string \<Rightarrow> string \<Rightarrow> contract" where
  "new owner name' symbol' =
     (let md = \<lparr>spec = nft_spec, name = name', symbol = symbol'\<rparr>
      in \<lparr>owner_id = owner, tokens_by_id = Map.empty, metadata = Some md\<rparr>)"

text \<open>The only account \<open>mint_nft\<close> accepts (the literal of line 63).\<close>

definition minter_account :: account_id where
  "minter_account = ''gelezako.testnet''"

text \<open>The audit line of line 71, \<open>format!("Token {} minted for {}", token_id, caller)\<close>.\<close>

definition mint_log :: "string \<Rightarrow> account_id \<Rightarrow> string" where
  "mint_log token_id caller = ''Token '' @ token_id @ '' minted for '' @ caller"

text \<open>
  \<open>Contract::mint_nft\<close> (lines 60--72): read the caller, panic unless it is the
  literal account, insert (or overwrite) the token, then log.
\<close>

definition mint_nft ::
  "vm_context \<Rightarrow> string \<Rightarrow> token_metadata \<Rightarrow> contract \<Rightarrow> panic + (contract \<times> string list)" where
  "mint_nft ctx token_id md c =
     (let caller = predecessor_account_id ctx
      in if caller \<noteq> minter_account then Inl Unauthorized
         else
           let token = \<lparr>token_owner_id = caller, token_metadata = md\<rparr>;
               c' = c\<lparr>tokens_by_id := (tokens_by_id c)(token_id \<mapsto> token)\<rparr>
           in Inr (c', [mint_log token_id caller]))"

text \<open>\<open>Contract::nft_token\<close> (lines 75--77): \<open>UnorderedMap::get\<close>.\<close>

definition nft_token :: "string \<Rightarrow> contract \<Rightarrow> token option" where
  "nft_token token_id c = tokens_by_id c token_id"

text \<open>\<open>Contract::nft_metadata\<close> (lines 80--82): \<open>self.metadata.get().unwrap()\<close>.\<close>

definition nft_metadata :: "contract \<Rightarrow> panic + nft_contract_metadata" where
  "nft_metadata c = (case metadata c of None \<Rightarrow> Inl MetadataUninitialized | Some m \<Rightarrow> Inr m)"

text \<open>
  The well-formedness of a contract value as the methods leave it: the collection
  metadata is stored and carries the schema tag, every stored token is owned by the
  minting account, and the token map is finite (an \<open>UnorderedMap\<close> holds finitely
  many entries).
\<close>

definition registry_inv :: "contract \<Rightarrow> bool" where
  "registry_inv c \<longleftrightarrow>
     (\<exists>m. metadata c = Some m \<and> spec m = nft_spec) \<and>
     (\<forall>t\<in>ran (tokens_by_id c). token_owner_id t = minter_account) \<and>
     finite (dom (tokens_by_id c))"

section \<open>Behaviour of each method\<close>

subsection \<open>mint_nft, branch by branch\<close>

lemma mint_nft_unauthorized [registry_simps]:
  "predecessor_account_id ctx \<noteq> minter_account \<Longrightarrow> mint_nft ctx t md c = Inl Unauthorized"
  by (simp add: mint_nft_def)

lemma mint_nft_authorized [registry_simps]:
  "predecessor_account_id ctx = minter_account \<Longrightarrow>
   mint_nft ctx t md c =
     Inr (c\<lparr>tokens_by_id := (tokens_by_id c)(t \<mapsto> \<lparr>token_owner_id = minter_account, token_metadata = md\<rparr>)\<rparr>,
          [mint_log t minter_account])"
  by (simp add: mint_nft_def)

lemma mint_nft_Inr_iff:
  "mint_nft ctx t md c = Inr (c', logs) \<longleftrightarrow>
     predecessor_account_id ctx = minter_account \<and>
     c' = c\<lparr>tokens_by_id := (tokens_by_id c)(t \<mapsto> \<lparr>token_owner_id = minter_account, token_metadata = md\<rparr>)\<rparr> \<and>
     logs = [mint_log t minter_account]"
  by (cases "predecessor_account_id ctx = minter_account") (auto simp: registry_simps)

lemma mint_nft_Inl_iff: "mint_nft ctx t md c = Inl e \<longleftrightarrow>
     predecessor_account_id ctx \<noteq> minter_account \<and> e = Unauthorized"
  by (cases "predecessor_account_id ctx = minter_account") (auto simp: registry_simps)

text \<open>What a successful mint leaves unchanged, and what it changes.\<close>

lemma mint_nft_frame:
  assumes "mint_nft ctx t md c = Inr (c', logs)"
  shows "owner_id c' = owner_id c" and "metadata c' = metadata c"
    and "\<And>t'. t' \<noteq> t \<Longrightarrow> tokens_by_id c' t' = tokens_by_id c t'"
  using assms by (auto simp: mint_nft_Inr_iff)

lemma mint_nft_stores:
  assumes "mint_nft ctx t md c = Inr (c', logs)"
  shows "tokens_by_id c' t = Some \<lparr>token_owner_id = minter_account, token_metadata = md\<rparr>"
  using assms by (auto simp: mint_nft_Inr_iff)

subsection \<open>new, nft_token and nft_metadata\<close>

lemma new_fields [registry_simps]:
  "owner_id (new ow n s) = ow"
  "tokens_by_id (new ow n s) = Map.empty"
  "metadata (new ow n s) = Some \<lparr>spec = nft_spec, name = n, symbol = s\<rparr>"
  by (simp_all add: new_def)

lemma nft_metadata_Some [registry_simps]: "metadata c = Some m \<Longrightarrow> nft_metadata c = Inr m"
  by (simp add: nft_metadata_def)

lemma nft_metadata_None [registry_simps]:
  "metadata c = None \<Longrightarrow> nft_metadata c = Inl MetadataUninitialized"
  by (simp add: nft_metadata_def)

section \<open>The well-formedness invariant\<close>

lemma registry_inv_new: "registry_inv (new ow n s)"
  by (simp add: registry_inv_def registry_simps)

lemma registry_inv_mint_nft:
  assumes "registry_inv c" and "mint_nft ctx t md c = Inr (c', logs)"
  shows "registry_inv c'"
proof -
  from assms(2) have c': "c' = c\<lparr>tokens_by_id := (tokens_by_id c)(t \<mapsto>
      \<lparr>token_owner_id = minter_account, token_metadata = md\<rparr>)\<rparr>"
    by (simp add: mint_nft_Inr_iff)
  from assms(1) show ?thesis
    unfolding c' registry_inv_def by (auto dest!: ran_map_upd_subset [THEN subsetD])
qed

lemma registry_inv_nft_metadata:
  "registry_inv c \<Longrightarrow> \<exists>m. nft_metadata c = Inr m \<and> spec m = nft_spec"
  by (auto simp: registry_inv_def registry_simps)

lemma registry_inv_token_owner:
  "registry_inv c \<Longrightarrow> nft_token t c = Some tok \<Longrightarrow> token_owner_id tok = minter_account"
  by (auto simp: registry_inv_def nft_token_def intro: ranI)

end
