(* ===== verification/Bindgen.thy ===== *)
theory Bindgen
  imports Registry
begin

text \<open>
  The contract as the NEAR runtime runs it. \<open>#[near_bindgen]\<close> (lines 6 and 43 of
  \<open>src/src/lib.rs\<close>) wraps every public method in an exported entry point that
  reads the persisted contract state, calls the method and writes the state back;
  \<open>#[init]\<close> (line 45) makes \<open>new\<close> refuse to run when state exists, and
  \<open>PanicOnDefault\<close> (line 7) makes every other method panic when it does not. A
  mutating method that is not \<open>#[payable]\<close> rejects an attached deposit first.
  The runtime commits a call's state and logs only when the call returns; a panic
  rolls the state back.

  The persisted state is a \<open>contract option\<close>: \<open>None\<close> before \<open>new\<close> has run
  (\<open>env::state_exists()\<close> is false), \<open>Some c\<close> after.
\<close>

section \<open>Calls and outcomes\<close>

text \<open>The four exported methods, with their deserialised arguments.\<close>

datatype call =
    Call_new account_id string string
  | Call_mint_nft string token_metadata
  | Call_nft_token string
  | Call_nft_metadata

text \<open>The values the methods return (serialised to JSON by the wrapper).\<close>

datatype return_value =
    Ret_unit
  | Ret_token "token option"
  | Ret_metadata nft_contract_metadata

datatype outcome = Success return_value | Failure panic

type_synonym chain_state = "contract option"

type_synonym 'a result = "panic + (chain_state \<times> string list \<times> 'a)"

section \<open>The generated entry points\<close>

text \<open>
  \<open>env::state_read().unwrap_or_default()\<close>: the stored contract, or the panic of the
  \<open>Default\<close> implementation that \<open>PanicOnDefault\<close> derives.
\<close>

definition state_read :: "chain_state \<Rightarrow> panic + contract" where
  "state_read st = (case st of None \<Rightarrow> Inl NotInitialized | Some c \<Rightarrow> Inr c)"

text \<open>The deposit guard of a non-payable mutating method named \<open>m\<close>.\<close>

definition assert_no_deposit :: "vm_context \<Rightarrow> string \<Rightarrow> panic option" where
  "assert_no_deposit ctx m = (if attached_deposit ctx \<noteq> 0 then Some (DepositNotAccepted m) else None)"

text \<open>
  Entry point of \<open>#[init] new\<close>: deposit guard, the \<open>state_exists\<close> guard of
  \<open>#[init]\<close>, then \<open>Contract::new\<close> and \<open>env::state_write\<close>.
\<close>

definition ext_new ::
  "vm_context \<Rightarrow> account_id \<Rightarrow> string \<Rightarrow> string \<Rightarrow> chain_state \<Rightarrow> return_value result" where
  "ext_new ctx ow n s st =
     (case assert_no_deposit ctx ''new'' of
        Some e \<Rightarrow> Inl e
      | None \<Rightarrow> if st \<noteq> None then Inl AlreadyInitialized else Inr (Some (new ow n s), [], Ret_unit))"

text \<open>Entry point of the mutating method \<open>mint_nft\<close>.\<close>

definition ext_mint_nft ::
  "vm_context \<Rightarrow> string \<Rightarrow> token_metadata \<Rightarrow> chain_state \<Rightarrow> return_value result" where
  "ext_mint_nft ctx t md st =
     (case assert_no_deposit ctx ''mint_nft'' of
        Some e \<Rightarrow> Inl e
      | None \<Rightarrow>
          (case state_read st of
             Inl e \<Rightarrow> Inl e
           | Inr c \<Rightarrow>
               (case mint_nft ctx t md c of
                  Inl e \<Rightarrow> Inl e
                | Inr (c', logs) \<Rightarrow> Inr (Some c', logs, Ret_unit))))"

text \<open>Entry points of the view methods: no deposit guard, no state write.\<close>

definition ext_nft_token :: "string \<Rightarrow> chain_state \<Rightarrow> return_value result" where
  "ext_nft_token t st =
     (case state_read st of
        Inl e \<Rightarrow> Inl e
      | Inr c \<Rightarrow> Inr (st, [], Ret_token (nft_token t c)))"

definition ext_nft_metadata :: "chain_state \<Rightarrow> return_value result" where
  "ext_nft_metadata st =
     (case state_read st of
        Inl e \<Rightarrow> Inl e
      | Inr c \<Rightarrow>
          (case nft_metadata c of
             Inl e \<Rightarrow> Inl e
           | Inr m \<Rightarrow> Inr (st, [], Ret_metadata m)))"

fun dispatch :: "vm_context \<Rightarrow> call \<Rightarrow> chain_state \<Rightarrow> return_value result" where
  "dispatch ctx (Call_new ow n s) st = ext_new ctx ow n s st"
| "dispatch ctx (Call_mint_nft t md) st = ext_mint_nft ctx t md st"
| "dispatch ctx (Call_nft_token t) st = ext_nft_token t st"
| "dispatch ctx Call_nft_metadata st = ext_nft_metadata st"

section \<open>The runtime: one receipt, a sequence of receipts, reachable states\<close>

text \<open>
  One function-call receipt: on a panic the state is rolled back and the outcome is
  the failure; otherwise the new state and the logs are committed.
\<close>

definition execute :: "vm_context \<Rightarrow> call \<Rightarrow> chain_state \<Rightarrow> chain_state \<times> string list \<times> outcome" where
  "execute ctx cl st =
     (case dispatch ctx cl st of
        Inl e \<Rightarrow> (st, [], Failure e)
      | Inr (st', logs, r) \<Rightarrow> (st', logs, Success r))"

text \<open>
  Receipts on the contract's account run one at a time, in order; \<open>run\<close> folds
  \<open>execute\<close> over such a sequence.
\<close>

fun run :: "(vm_context \<times> call) list \<Rightarrow> chain_state \<Rightarrow> chain_state" where
  "run [] st = st"
| "run ((ctx, cl) # cs) st = run cs (fst (execute ctx cl st))"

inductive reachable :: "chain_state \<Rightarrow> bool" where
  genesis: "reachable None"
| receipt: "reachable st \<Longrightarrow> execute ctx cl st = (st', logs, r) \<Longrightarrow> reachable st'"

definition state_inv :: "chain_state \<Rightarrow> bool" where
  "state_inv st = (case st of None \<Rightarrow> True | Some c \<Rightarrow> registry_inv c)"

text \<open>The token a state holds under an id, as \<open>nft_token\<close> would read it.\<close>

definition token_at :: "chain_state \<Rightarrow> string \<Rightarrow> token option" where
  "token_at st t = (case st of None \<Rightarrow> None | Some c \<Rightarrow> tokens_by_id c t)"

section \<open>One receipt, call by call\<close>

text \<open>
  The outcome of each kind of call, every branch of the entry point and of the method
  written out. These equations carry the proofs below.
\<close>

lemma execute_new [registry_simps]:
  "execute ctx (Call_new ow n s) st =
     (if attached_deposit ctx \<noteq> 0 then (st, [], Failure (DepositNotAccepted ''new''))
      else if st \<noteq> None then (st, [], Failure AlreadyInitialized)
      else (Some (new ow n s), [], Success Ret_unit))"
  by (simp add: execute_def ext_new_def assert_no_deposit_def)

lemma execute_mint_nft [registry_simps]:
  "execute ctx (Call_mint_nft t md) st =
     (if attached_deposit ctx \<noteq> 0 then (st, [], Failure (DepositNotAccepted ''mint_nft''))
      else case st of
        None \<Rightarrow> (st, [], Failure NotInitialized)
      | Some c \<Rightarrow>
          if predecessor_account_id ctx \<noteq> minter_account then (st, [], Failure Unauthorized)
          else (Some (c\<lparr>tokens_by_id := (tokens_by_id c)(t \<mapsto>
                   \<lparr>token_owner_id = minter_account, token_metadata = md\<rparr>)\<rparr>),
                [mint_log t minter_account], Success Ret_unit))"
  by (simp add: execute_def ext_mint_nft_def assert_no_deposit_def state_read_def registry_simps
      split: option.split)

lemma execute_nft_token [registry_simps]:
  "execute ctx (Call_nft_token t) st =
     (case st of
        None \<Rightarrow> (st, [], Failure NotInitialized)
      | Some c \<Rightarrow> (st, [], Success (Ret_token (tokens_by_id c t))))"
  by (simp add: execute_def ext_nft_token_def state_read_def nft_token_def split: option.split)

lemma execute_nft_metadata [registry_simps]:
  "execute ctx Call_nft_metadata st =
     (case st of
        None \<Rightarrow> (st, [], Failure NotInitialized)
      | Some c \<Rightarrow>
          (case metadata c of
             None \<Rightarrow> (st, [], Failure MetadataUninitialized)
           | Some m \<Rightarrow> (st, [], Success (Ret_metadata m))))"
  by (simp add: execute_def ext_nft_metadata_def state_read_def nft_metadata_def
      split: option.split)

lemmas execute_cases = execute_new execute_mint_nft execute_nft_token execute_nft_metadata

text \<open>Once initialised, a contract stays initialised and keeps its owner and metadata.\<close>

lemma execute_keeps_Some:
  assumes "execute ctx cl (Some c) = (st', logs, r)"
  shows "\<exists>c'. st' = Some c' \<and> owner_id c' = owner_id c \<and> metadata c' = metadata c"
  using assms by (cases cl) (auto simp: execute_cases split: if_splits option.splits)

text \<open>Every receipt keeps the state invariant.\<close>

lemma execute_state_inv:
  assumes "state_inv st" and "execute ctx cl st = (st', logs, r)"
  shows "state_inv st'"
proof (cases cl)
  case (Call_new ow n s)
  with assms show ?thesis
    by (auto simp: execute_new state_inv_def registry_inv_new split: if_splits)
next
  case (Call_mint_nft t md)
  with assms show ?thesis
    by (auto simp: execute_mint_nft state_inv_def mint_nft_Inr_iff
        intro: registry_inv_mint_nft split: if_splits option.splits)
qed (use assms in \<open>auto simp: execute_cases split: option.splits\<close>)

text \<open>
  Only a successful mint of an id changes the token stored under it: a frame lemma
  for every kind of receipt.
\<close>

lemma execute_token_frame:
  assumes "token_at (fst (execute ctx cl st)) t \<noteq> token_at st t"
  shows "\<exists>md. cl = Call_mint_nft t md \<and> predecessor_account_id ctx = minter_account \<and>
              attached_deposit ctx = 0 \<and> st \<noteq> None"
proof (cases cl)
  case (Call_new ow n s)
  with assms show ?thesis by (simp add: execute_new token_at_def registry_simps split: if_splits)
next
  case (Call_mint_nft t' md)
  with assms show ?thesis
    by (cases st) (auto simp: execute_mint_nft token_at_def split: if_splits)
next
  case (Call_nft_token t')
  with assms show ?thesis by (simp add: execute_nft_token token_at_def split: option.splits)
next
  case Call_nft_metadata
  with assms show ?thesis by (simp add: execute_nft_metadata token_at_def split: option.splits)
qed

lemma run_token_frame:
  assumes "\<forall>(ctx, cl) \<in> set cs. \<forall>md. cl = Call_mint_nft t md \<longrightarrow>
             predecessor_account_id ctx \<noteq> minter_account \<or> attached_deposit ctx \<noteq> 0"
  shows "token_at (run cs st) t = token_at st t"
  using assms
proof (induction cs arbitrary: st)
  case (Cons x cs)
  obtain ctx cl where x: "x = (ctx, cl)" by fastforce
  from Cons.prems x have h: "\<forall>md. cl = Call_mint_nft t md \<longrightarrow>
      predecessor_account_id ctx \<noteq> minter_account \<or> attached_deposit ctx \<noteq> 0"
    by simp
  have "token_at (fst (execute ctx cl st)) t = token_at st t"
  proof (rule ccontr)
    assume "token_at (fst (execute ctx cl st)) t \<noteq> token_at st t"
    from execute_token_frame [OF this] h show False by blast
  qed
  moreover from Cons.prems have "\<forall>(ctx, cl) \<in> set cs. \<forall>md. cl = Call_mint_nft t md \<longrightarrow>
      predecessor_account_id ctx \<noteq> minter_account \<or> attached_deposit ctx \<noteq> 0"
    by simp
  ultimately show ?case using Cons.IH x by simp
qed simp

lemma run_append: "run (cs @ ds) st = run ds (run cs st)"
  by (induction cs arbitrary: st) auto

lemma reachable_run: "reachable st \<Longrightarrow> reachable (run cs st)"
proof (induction cs arbitrary: st)
  case (Cons x cs)
  obtain ctx cl where x: "x = (ctx, cl)" by fastforce
  obtain st' logs r where e: "execute ctx cl st = (st', logs, r)" by (cases "execute ctx cl st") auto
  from Cons.prems e have "reachable st'" by (rule reachable.receipt)
  with Cons.IH have "reachable (run cs st')" .
  with x e show ?case by simp
qed simp

lemma reachable_iff_run: "reachable st \<longleftrightarrow> (\<exists>cs. run cs None = st)"
proof
  assume "reachable st"
  then show "\<exists>cs. run cs None = st"
  proof (induction rule: reachable.induct)
    case genesis
    have "run [] None = None" by simp
    then show ?case by blast
  next
    case (receipt st ctx cl st' logs r)
    then obtain cs where "run cs None = st" by blast
    with receipt.hyps(2) have "run (cs @ [(ctx, cl)]) None = st'" by (simp add: run_append)
    then show ?case by blast
  qed
next
  assume "\<exists>cs. run cs None = st"
  then show "reachable st" using reachable_run reachable.genesis by blast
qed

lemma reachable_inv: "reachable st \<Longrightarrow> state_inv st"
proof (induction rule: reachable.induct)
  case genesis
  then show ?case by (simp add: state_inv_def)
next
  case (receipt st ctx cl st' logs r)
  then show ?case by (blast intro: execute_state_inv)
qed

section \<open>Properties of the entry points\<close>

text \<open>
  C1. A mint by the privileged account with no deposit on an initialised contract
  succeeds, logs its audit line, and a following \<open>nft_token\<close> of the same id returns
  the token owned by the caller with exactly the given metadata.
\<close>

theorem mint_then_nft_token:
  assumes "predecessor_account_id ctx = minter_account" and "attached_deposit ctx = 0"
  shows "\<exists>c'. execute ctx (Call_mint_nft t md) (Some c) =
                (Some c', [mint_log t minter_account], Success Ret_unit) \<and>
              execute ctx' (Call_nft_token t) (Some c') =
                (Some c', [], Success (Ret_token (Some \<lparr>token_owner_id = minter_account,
                                                        token_metadata = md\<rparr>)))"
  using assms by (simp add: execute_cases)

text \<open>
  C2. A mint by any other account fails without touching the state or logging; on an
  initialised contract with no deposit the failure is \<open>Unauthorized\<close>.
\<close>

theorem mint_unauthorized_rejected:
  assumes "predecessor_account_id ctx \<noteq> minter_account"
  shows "\<exists>e. execute ctx (Call_mint_nft t md) st = (st, [], Failure e) \<and>
             (attached_deposit ctx = 0 \<longrightarrow> st \<noteq> None \<longrightarrow> e = Unauthorized)"
  using assms by (auto simp: execute_mint_nft split: option.split)

text \<open>
  C3. Calling \<open>new\<close> on an initialised contract always fails and leaves the state as
  it was; with no deposit the failure is \<open>AlreadyInitialized\<close>.
\<close>

theorem reinit_rejected:
  assumes "st \<noteq> None"
  shows "execute ctx (Call_new ow n s) st =
           (st, [], Failure (if attached_deposit ctx = 0 then AlreadyInitialized
                             else DepositNotAccepted ''new''))"
  using assms by (simp add: execute_new)

text \<open>
  C4. \<open>new\<close> on a fresh account succeeds, and \<open>nft_metadata\<close> then returns exactly
  the schema tag \<open>nft-1.0.0\<close> with the given name and symbol.
\<close>

theorem new_then_nft_metadata:
  assumes "attached_deposit ctx = 0"
  shows "execute ctx (Call_new ow n s) None = (Some (new ow n s), [], Success Ret_unit) \<and>
         execute ctx' Call_nft_metadata (Some (new ow n s)) =
           (Some (new ow n s), [],
            Success (Ret_metadata \<lparr>spec = ''nft-1.0.0'', name = n, symbol = s\<rparr>))"
  using assms by (simp add: execute_cases registry_simps nft_spec_def)

text \<open>
  C5. In every state the runtime can reach, an initialised contract has its collection
  metadata stored with the schema tag, every stored token is owned by the privileged
  account, and there are finitely many tokens.
\<close>

theorem reachable_registry_inv:
  assumes "reachable (Some c)"
  shows "(\<exists>m. metadata c = Some m \<and> spec m = ''nft-1.0.0'') \<and>
         (\<forall>t tok. tokens_by_id c t = Some tok \<longrightarrow> token_owner_id tok = ''gelezako.testnet'') \<and>
         finite (dom (tokens_by_id c))"
proof -
  from reachable_inv [OF assms] have "registry_inv c" by (simp add: state_inv_def)
  then show ?thesis
    by (auto simp: registry_inv_def nft_spec_def minter_account_def intro: ranI)
qed

text \<open>
  C6. Once the contract is initialised, a receipt that changes its state is a
  \<open>mint_nft\<close> sent by the privileged account with no deposit: nobody else can
  mutate the registry.
\<close>

theorem only_minter_mutates:
  assumes "execute ctx cl (Some c) = (Some c', logs, r)" and "c' \<noteq> c"
  shows "predecessor_account_id ctx = minter_account \<and> attached_deposit ctx = 0 \<and>
         (\<exists>t md. cl = Call_mint_nft t md)"
  using assms by (cases cl) (auto simp: execute_cases split: if_splits option.splits)

text \<open>
  C9. Any sequence of receipts run on an initialised contract leaves it initialised,
  with the owner and the collection metadata it had.
\<close>

theorem run_keeps_owner_metadata:
  "\<exists>c'. run cs (Some c) = Some c' \<and> owner_id c' = owner_id c \<and> metadata c' = metadata c"
proof (induction cs arbitrary: c)
  case Nil
  then show ?case by simp
next
  case (Cons x cs)
  obtain ctx cl where x: "x = (ctx, cl)" by fastforce
  obtain st' logs r where e: "execute ctx cl (Some c) = (st', logs, r)"
    by (cases "execute ctx cl (Some c)") auto
  from e obtain c1 where c1: "st' = Some c1" "owner_id c1 = owner_id c" "metadata c1 = metadata c"
    using execute_keeps_Some by blast
  from Cons.IH [of c1] c1 x e show ?case by auto
qed

text \<open>
  C10. In a reachable initialised state \<open>nft_metadata\<close> never panics: the
  \<open>unwrap()\<close> of line 81 cannot fail, and the result carries the schema tag.
\<close>

theorem reachable_nft_metadata_total:
  assumes "reachable (Some c)"
  shows "\<exists>m. execute ctx Call_nft_metadata (Some c) = (Some c, [], Success (Ret_metadata m)) \<and>
             spec m = ''nft-1.0.0''"
proof -
  from reachable_inv [OF assms] have "registry_inv c" by (simp add: state_inv_def)
  then obtain m where "metadata c = Some m" "spec m = nft_spec"
    by (auto simp: registry_inv_def)
  then show ?thesis by (simp add: execute_nft_metadata nft_spec_def)
qed

text \<open>
  C11. The only log lines the contract emits are audit lines of successful mints, one
  per mint, naming the minted id and the privileged account.
\<close>

theorem logs_only_from_mint:
  assumes "execute ctx cl st = (st', logs, r)" and "logs \<noteq> []"
  shows "\<exists>t md. cl = Call_mint_nft t md \<and> r = Success Ret_unit \<and>
                logs = [''Token '' @ t @ '' minted for gelezako.testnet'']"
  using assms
  by (cases cl) (auto simp: execute_cases mint_log_def minter_account_def split: if_splits option.splits)

text \<open>
  C12. Both mutating methods refuse an attached deposit before anything else, on any
  state, with no state change; the view methods do not check it.
\<close>

theorem deposit_rejected:
  assumes "attached_deposit ctx \<noteq> 0"
  shows "execute ctx (Call_new ow n s) st = (st, [], Failure (DepositNotAccepted ''new'')) \<and>
         execute ctx (Call_mint_nft t md) st = (st, [], Failure (DepositNotAccepted ''mint_nft'')) \<and>
         execute ctx (Call_nft_token t) st = execute (ctx\<lparr>attached_deposit := 0\<rparr>) (Call_nft_token t) st"
  using assms by (simp add: execute_cases)

section \<open>Witnesses\<close>

text \<open>
  Each property with a hypothesis, applied at a concrete call: the privileged account
  or \<open>alice\<close> calling a contract initialised by \<open>new alice Demo DEMO\<close>.
\<close>

lemma reachable_new: "reachable (Some (new ow n s))"
proof (rule reachable.receipt [OF reachable.genesis])
  show "execute \<lparr>predecessor_account_id = ow, attached_deposit = 0\<rparr> (Call_new ow n s) None =
          (Some (new ow n s), [], Success Ret_unit)"
    by (simp add: execute_new)
qed

theorem mint_then_nft_token_witness:
  "predecessor_account_id \<lparr>predecessor_account_id = ''gelezako.testnet'', attached_deposit = 0\<rparr>
     = minter_account \<and>
   attached_deposit \<lparr>predecessor_account_id = ''gelezako.testnet'', attached_deposit = 0\<rparr> = 0 \<and>
   (\<exists>c'. execute \<lparr>predecessor_account_id = ''gelezako.testnet'', attached_deposit = 0\<rparr>
           (Call_mint_nft ''t1'' \<lparr>title = Some ''A'', description = None, media = None\<rparr>)
           (Some (new ''alice'' ''Demo'' ''DEMO'')) =
         (Some c', [mint_log ''t1'' minter_account], Success Ret_unit) \<and>
       execute \<lparr>predecessor_account_id = ''bob'', attached_deposit = 0\<rparr> (Call_nft_token ''t1'') (Some c') =
         (Some c', [], Success (Ret_token (Some \<lparr>token_owner_id = minter_account,
            token_metadata = \<lparr>title = Some ''A'', description = None, media = None\<rparr>\<rparr>))))"
  using mint_then_nft_token [of "\<lparr>predecessor_account_id = ''gelezako.testnet'', attached_deposit = 0\<rparr>"
      "''t1''" "\<lparr>title = Some ''A'', description = None, media = None\<rparr>" "new ''alice'' ''Demo'' ''DEMO''"
      "\<lparr>predecessor_account_id = ''bob'', attached_deposit = 0\<rparr>"]
  by (simp add: minter_account_def)

theorem mint_unauthorized_rejected_witness:
  "predecessor_account_id \<lparr>predecessor_account_id = ''alice'', attached_deposit = 0\<rparr> \<noteq> minter_account \<and>
   (\<exists>e. execute \<lparr>predecessor_account_id = ''alice'', attached_deposit = 0\<rparr>
          (Call_mint_nft ''t1'' \<lparr>title = None, description = None, media = None\<rparr>)
          (Some (new ''alice'' ''Demo'' ''DEMO'')) =
        (Some (new ''alice'' ''Demo'' ''DEMO''), [], Failure e) \<and> e = Unauthorized)"
proof -
  have h: "predecessor_account_id \<lparr>predecessor_account_id = ''alice'', attached_deposit = 0\<rparr>
             \<noteq> minter_account"
    by (simp add: minter_account_def)
  from mint_unauthorized_rejected [OF h, of "''t1''" "\<lparr>title = None, description = None, media = None\<rparr>"
      "Some (new ''alice'' ''Demo'' ''DEMO'')"]
  show ?thesis using h by auto
qed

theorem reinit_rejected_witness:
  "Some (new ''alice'' ''Demo'' ''DEMO'') \<noteq> None \<and>
   execute \<lparr>predecessor_account_id = ''mallory'', attached_deposit = 0\<rparr> (Call_new ''mallory'' ''X'' ''X'')
     (Some (new ''alice'' ''Demo'' ''DEMO'')) =
   (Some (new ''alice'' ''Demo'' ''DEMO''), [], Failure AlreadyInitialized)"
  using reinit_rejected [of "Some (new ''alice'' ''Demo'' ''DEMO'')"
      "\<lparr>predecessor_account_id = ''mallory'', attached_deposit = 0\<rparr>" "''mallory''" "''X''" "''X''"]
  by simp

theorem new_then_nft_metadata_witness:
  "attached_deposit \<lparr>predecessor_account_id = ''alice'', attached_deposit = 0\<rparr> = 0 \<and>
   execute \<lparr>predecessor_account_id = ''alice'', attached_deposit = 0\<rparr> Call_nft_metadata
     (Some (new ''alice'' ''Demo'' ''DEMO'')) =
   (Some (new ''alice'' ''Demo'' ''DEMO''), [],
    Success (Ret_metadata \<lparr>spec = ''nft-1.0.0'', name = ''Demo'', symbol = ''DEMO''\<rparr>))"
  using new_then_nft_metadata [of "\<lparr>predecessor_account_id = ''alice'', attached_deposit = 0\<rparr>"
      "''alice''" "''Demo''" "''DEMO''" "\<lparr>predecessor_account_id = ''alice'', attached_deposit = 0\<rparr>"]
  by simp

theorem reachable_registry_inv_witness:
  "reachable (Some (new ''alice'' ''Demo'' ''DEMO'')) \<and>
   (\<exists>m. metadata (new ''alice'' ''Demo'' ''DEMO'') = Some m \<and> spec m = ''nft-1.0.0'')"
  using reachable_registry_inv [OF reachable_new [of "''alice''" "''Demo''" "''DEMO''"]] reachable_new
  by blast

theorem only_minter_mutates_witness:
  "execute \<lparr>predecessor_account_id = ''gelezako.testnet'', attached_deposit = 0\<rparr>
     (Call_mint_nft ''t1'' \<lparr>title = None, description = None, media = None\<rparr>)
     (Some (new ''alice'' ''Demo'' ''DEMO'')) =
   (Some ((new ''alice'' ''Demo'' ''DEMO'')\<lparr>tokens_by_id := [''t1'' \<mapsto> \<lparr>token_owner_id = minter_account,
      token_metadata = \<lparr>title = None, description = None, media = None\<rparr>\<rparr>]\<rparr>),
    [mint_log ''t1'' minter_account], Success Ret_unit) \<and>
   (new ''alice'' ''Demo'' ''DEMO'')\<lparr>tokens_by_id := [''t1'' \<mapsto> \<lparr>token_owner_id = minter_account,
      token_metadata = \<lparr>title = None, description = None, media = None\<rparr>\<rparr>]\<rparr>
     \<noteq> new ''alice'' ''Demo'' ''DEMO'' \<and>
   predecessor_account_id \<lparr>predecessor_account_id = ''gelezako.testnet'', attached_deposit = 0\<rparr>
     = minter_account"
proof -
  let ?ctx = "\<lparr>predecessor_account_id = ''gelezako.testnet'', attached_deposit = 0\<rparr>"
  let ?md = "\<lparr>title = None, description = None, media = None\<rparr>"
  let ?c = "new ''alice'' ''Demo'' ''DEMO''"
  let ?c' = "?c\<lparr>tokens_by_id := [''t1'' \<mapsto> \<lparr>token_owner_id = minter_account, token_metadata = ?md\<rparr>]\<rparr>"
  have e: "execute ?ctx (Call_mint_nft ''t1'' ?md) (Some ?c) =
             (Some ?c', [mint_log ''t1'' minter_account], Success Ret_unit)"
    by (simp add: execute_mint_nft minter_account_def registry_simps)
  have ne: "?c' \<noteq> ?c"
  proof
    assume "?c' = ?c"
    then have "tokens_by_id ?c' ''t1'' = tokens_by_id ?c ''t1''" by simp
    then show False by (simp add: registry_simps)
  qed
  from only_minter_mutates [OF e ne] e ne show ?thesis by simp
qed

theorem reachable_nft_metadata_total_witness:
  "reachable (Some (new ''alice'' ''Demo'' ''DEMO'')) \<and>
   (\<exists>m. execute \<lparr>predecessor_account_id = ''bob'', attached_deposit = 0\<rparr> Call_nft_metadata
          (Some (new ''alice'' ''Demo'' ''DEMO'')) =
        (Some (new ''alice'' ''Demo'' ''DEMO''), [], Success (Ret_metadata m)) \<and>
        spec m = ''nft-1.0.0'')"
  using reachable_nft_metadata_total [OF reachable_new [of "''alice''" "''Demo''" "''DEMO''"],
      of "\<lparr>predecessor_account_id = ''bob'', attached_deposit = 0\<rparr>"] reachable_new
  by blast

theorem logs_only_from_mint_witness:
  "execute \<lparr>predecessor_account_id = ''gelezako.testnet'', attached_deposit = 0\<rparr>
     (Call_mint_nft ''t1'' \<lparr>title = None, description = None, media = None\<rparr>)
     (Some (new ''alice'' ''Demo'' ''DEMO'')) =
   (Some ((new ''alice'' ''Demo'' ''DEMO'')\<lparr>tokens_by_id := [''t1'' \<mapsto> \<lparr>token_owner_id = minter_account,
      token_metadata = \<lparr>title = None, description = None, media = None\<rparr>\<rparr>]\<rparr>),
    [''Token t1 minted for gelezako.testnet''], Success Ret_unit) \<and>
   [''Token t1 minted for gelezako.testnet''] \<noteq> []"
proof -
  let ?ctx = "\<lparr>predecessor_account_id = ''gelezako.testnet'', attached_deposit = (0::128 word)\<rparr>"
  let ?cl = "Call_mint_nft ''t1'' \<lparr>title = None, description = None, media = None\<rparr>"
  let ?c' = "(new ''alice'' ''Demo'' ''DEMO'')\<lparr>tokens_by_id := [''t1'' \<mapsto> \<lparr>token_owner_id = minter_account,
      token_metadata = \<lparr>title = None, description = None, media = None\<rparr>\<rparr>]\<rparr>"
  have e: "execute ?ctx ?cl (Some (new ''alice'' ''Demo'' ''DEMO'')) =
     (Some ?c', [''Token t1 minted for gelezako.testnet''], Success Ret_unit)"
    by (simp add: execute_mint_nft minter_account_def mint_log_def registry_simps)
  have "[''Token t1 minted for gelezako.testnet''] \<noteq> []" by simp
  from logs_only_from_mint [OF e this] e show ?thesis by simp
qed

theorem deposit_rejected_witness:
  "attached_deposit \<lparr>predecessor_account_id = ''gelezako.testnet'', attached_deposit = 1\<rparr> \<noteq> 0 \<and>
   execute \<lparr>predecessor_account_id = ''gelezako.testnet'', attached_deposit = 1\<rparr>
     (Call_mint_nft ''t1'' \<lparr>title = None, description = None, media = None\<rparr>)
     (Some (new ''alice'' ''Demo'' ''DEMO'')) =
   (Some (new ''alice'' ''Demo'' ''DEMO''), [], Failure (DepositNotAccepted ''mint_nft''))"
proof -
  have h: "attached_deposit \<lparr>predecessor_account_id = ''gelezako.testnet'', attached_deposit = (1::128 word)\<rparr> \<noteq> 0"
    by simp
  from deposit_rejected [OF h, of "''a''" "''b''" "''c''" "Some (new ''alice'' ''Demo'' ''DEMO'')"
      "''t1''" "\<lparr>title = None, description = None, media = None\<rparr>"] h
  show ?thesis by simp
qed

end
