(* ===== verification/Borsh.thy ===== *)
theory Borsh
  imports Prelude
begin

text \<open>
  The Borsh binary format as the \<open>borsh\<close> crate implements it for the types the
  contract stores: \<open>u8\<close>, \<open>u32\<close> little-endian, \<open>String\<close> (a \<open>u32\<close> byte
  length, then the UTF-8 bytes, checked by \<open>String::from_utf8\<close> on the way back)
  and \<open>Option<T>\<close> (a tag byte 0 or 1, then the value). An encoder returns the bytes
  or an error; a decoder reads a prefix of its input and returns the value and the
  rest, so that the decoders of a struct's fields chain in field order, as the
  derived \<open>BorshDeserialize\<close> does.
\<close>

section \<open>Errors and the shape of encoders and decoders\<close>

datatype borsh_error =
    UnexpectedEof
  | LengthOverflow
  | InvalidUtf8
  | InvalidOptionTag byte
  | InvalidAccountId
  | TrailingBytes

type_synonym 'a encoder = "'a \<Rightarrow> borsh_error + bytes"

type_synonym 'a decoder = "bytes \<Rightarrow> borsh_error + ('a \<times> bytes)"

section \<open>Little-endian integers\<close>

text \<open>\<open>to_le_bytes\<close> of a \<open>k\<close>-byte integer with value \<open>n\<close>, and back.\<close>

fun le_bytes :: "nat \<Rightarrow> nat \<Rightarrow> bytes" where
  "le_bytes 0 n = []"
| "le_bytes (Suc k) n = word_of_nat (n mod 256) # le_bytes k (n div 256)"

fun le_value :: "bytes \<Rightarrow> nat" where
  "le_value [] = 0"
| "le_value (b # bs) = unat b + 256 * le_value bs"

text \<open>Reading \<open>k\<close> bytes, failing on a short input.\<close>

definition take_bytes :: "nat \<Rightarrow> bytes decoder" where
  "take_bytes k bs = (if length bs < k then Inl UnexpectedEof else Inr (take k bs, drop k bs))"

definition ser_u8 :: "byte \<Rightarrow> bytes" where
  "ser_u8 b = [b]"

definition de_u8 :: "byte decoder" where
  "de_u8 bs = (case bs of [] \<Rightarrow> Inl UnexpectedEof | b # rest \<Rightarrow> Inr (b, rest))"

definition ser_u32 :: "32 word \<Rightarrow> bytes" where
  "ser_u32 w = le_bytes 4 (unat w)"

definition de_u32 :: "32 word decoder" where
  "de_u32 bs =
     (case take_bytes 4 bs of
        Inl e \<Rightarrow> Inl e
      | Inr (raw, rest) \<Rightarrow> Inr (word_of_nat (le_value raw), rest))"

section \<open>UTF-8 validation\<close>

text \<open>
  \<open>core::str::from_utf8\<close> accepts exactly the well-formed UTF-8 sequences of
  RFC 3629: no overlong forms, no surrogates, nothing above U+10FFFF. A byte is a
  continuation byte when it lies in \<open>80..BF\<close>; the byte after a lead byte has a
  narrower range for the leads \<open>E0\<close>, \<open>ED\<close>, \<open>F0\<close> and \<open>F4\<close>.
\<close>

definition utf8_cont :: "byte \<Rightarrow> bool" where
  "utf8_cont b \<longleftrightarrow> 0x80 \<le> unat b \<and> unat b \<le> 0xBF"

definition utf8_second :: "nat \<Rightarrow> byte \<Rightarrow> bool" where
  "utf8_second lead b =
     (if lead = 0xE0 then 0xA0 \<le> unat b \<and> unat b \<le> 0xBF
      else if lead = 0xED then 0x80 \<le> unat b \<and> unat b \<le> 0x9F
      else if lead = 0xF0 then 0x90 \<le> unat b \<and> unat b \<le> 0xBF
      else if lead = 0xF4 then 0x80 \<le> unat b \<and> unat b \<le> 0x8F
      else utf8_cont b)"

fun valid_utf8 :: "bytes \<Rightarrow> bool" where
  "valid_utf8 [] = True"
| "valid_utf8 (b # bs) =
     (let n = unat b in
      if n < 0x80 then valid_utf8 bs
      else if 0xC2 \<le> n \<and> n \<le> 0xDF then
        (case bs of c # r \<Rightarrow> utf8_cont c \<and> valid_utf8 r | [] \<Rightarrow> False)
      else if 0xE0 \<le> n \<and> n \<le> 0xEF then
        (case bs of c1 # c2 # r \<Rightarrow> utf8_second n c1 \<and> utf8_cont c2 \<and> valid_utf8 r | _ \<Rightarrow> False)
      else if 0xF0 \<le> n \<and> n \<le> 0xF4 then
        (case bs of c1 # c2 # c3 # r \<Rightarrow>
           utf8_second n c1 \<and> utf8_cont c2 \<and> utf8_cont c3 \<and> valid_utf8 r | _ \<Rightarrow> False)
      else False)"

section \<open>Strings\<close>

text \<open>A \<open>string\<close> of the model is the byte sequence of the Rust \<open>String\<close>.\<close>

definition bytes_of :: "string \<Rightarrow> bytes" where
  "bytes_of s = map (\<lambda>c. word_of_nat (of_char c)) s"

definition string_of :: "bytes \<Rightarrow> string" where
  "string_of bs = map (\<lambda>b. char_of (unat b)) bs"

text \<open>
  \<open>impl BorshSerialize for String\<close>: the length as a \<open>u32\<close>, failing with
  \<open>InvalidInput\<close> when it does not fit, then the bytes.
\<close>

definition ser_string :: "string encoder" where
  "ser_string s =
     (if length s < 2 ^ 32 then Inr (ser_u32 (word_of_nat (length s)) @ bytes_of s)
      else Inl LengthOverflow)"

text \<open>\<open>impl BorshDeserialize for String\<close>: length, that many bytes, UTF-8 check.\<close>

definition de_string :: "string decoder" where
  "de_string bs =
     (case de_u32 bs of
        Inl e \<Rightarrow> Inl e
      | Inr (len, rest) \<Rightarrow>
          (case take_bytes (unat len) rest of
             Inl e \<Rightarrow> Inl e
           | Inr (raw, rest') \<Rightarrow>
               if valid_utf8 raw then Inr (string_of raw, rest') else Inl InvalidUtf8))"

section \<open>Options\<close>

definition ser_option :: "'a encoder \<Rightarrow> 'a option encoder" where
  "ser_option f x =
     (case x of
        None \<Rightarrow> Inr (ser_u8 0)
      | Some v \<Rightarrow> (case f v of Inl e \<Rightarrow> Inl e | Inr b \<Rightarrow> Inr (ser_u8 1 @ b)))"

definition de_option :: "'a decoder \<Rightarrow> 'a option decoder" where
  "de_option d bs =
     (case de_u8 bs of
        Inl e \<Rightarrow> Inl e
      | Inr (tag, rest) \<Rightarrow>
          if tag = 0 then Inr (None, rest)
          else if tag = 1 then
            (case d rest of Inl e \<Rightarrow> Inl e | Inr (v, rest') \<Rightarrow> Inr (Some v, rest'))
          else Inl (InvalidOptionTag tag))"

section \<open>Sequencing, as the derived implementations of a struct do\<close>

text \<open>
  The derived \<open>BorshSerialize\<close> of a struct writes its fields in order and stops
  at the first error (the \<open>?\<close> after each field); the derived
  \<open>BorshDeserialize\<close> reads them in the same order from the rest of the input.
\<close>

definition enc_then :: "borsh_error + bytes \<Rightarrow> borsh_error + bytes \<Rightarrow> borsh_error + bytes" where
  "enc_then a b = (case a of Inl e \<Rightarrow> Inl e | Inr x \<Rightarrow> (case b of Inl e \<Rightarrow> Inl e | Inr y \<Rightarrow> Inr (x @ y)))"

definition dec_bind :: "'a decoder \<Rightarrow> ('a \<Rightarrow> 'b decoder) \<Rightarrow> 'b decoder" where
  "dec_bind d k bs = (case d bs of Inl e \<Rightarrow> Inl e | Inr (x, rest) \<Rightarrow> k x rest)"

section \<open>Whole values\<close>

text \<open>\<open>BorshDeserialize::try_from_slice\<close>: decode, then insist the input is used up.\<close>

definition try_from_slice :: "'a decoder \<Rightarrow> bytes \<Rightarrow> borsh_error + 'a" where
  "try_from_slice d bs =
     (case d bs of
        Inl e \<Rightarrow> Inl e
      | Inr (v, rest) \<Rightarrow> if rest = [] then Inr v else Inl TrailingBytes)"

text \<open>
  The round-trip law of an encoder/decoder pair on the values satisfying \<open>P\<close>:
  decoding the encoding followed by any bytes gives the value back and leaves the
  bytes.
\<close>

definition roundtrip :: "('a \<Rightarrow> bool) \<Rightarrow> 'a encoder \<Rightarrow> 'a decoder \<Rightarrow> bool" where
  "roundtrip P f d \<longleftrightarrow> (\<forall>x b rest. P x \<longrightarrow> f x = Inr b \<longrightarrow> d (b @ rest) = Inr (x, rest))"

section \<open>Lemmas: integers and strings\<close>

lemma length_le_bytes [simp]: "length (le_bytes k n) = k"
  by (induction k arbitrary: n) auto

lemma unat_byte_mod [simp]: "unat (word_of_nat (n mod 256) :: byte) = n mod 256"
  by (simp add: unat_of_nat)

lemma le_value_le_bytes: "le_value (le_bytes k n) = n mod 256 ^ k"
proof (induction k arbitrary: n)
  case (Suc k)
  have "n mod 256 ^ Suc k = 256 * (n div 256 mod 256 ^ k) + n mod 256"
    by (simp add: mod_mult2_eq mult.commute)
  with Suc.IH show ?case by simp
qed simp

lemma le_value_bound: "le_value bs < 256 ^ length bs"
proof (induction bs)
  case (Cons b bs)
  have "unat b < 256" using unsigned_less [of b, where ?'a = nat] by simp
  then have "unat b + 256 * le_value bs < 256 + 256 * le_value bs" by simp
  also have "\<dots> \<le> 256 * 256 ^ length bs" using Cons.IH by simp
  finally show ?case by simp
qed simp

lemma take_bytes_append [simp]: "length b = k \<Longrightarrow> take_bytes k (b @ rest) = Inr (b, rest)"
  by (simp add: take_bytes_def)

lemma de_u32_ser_u32 [simp]: "de_u32 (ser_u32 w @ rest) = Inr (w, rest)"
proof -
  have "unat w < 256 ^ 4" using unsigned_less [of w, where ?'a = nat] by simp
  then have "le_value (ser_u32 w) = unat w" by (simp add: ser_u32_def le_value_le_bytes)
  then show ?thesis by (simp add: de_u32_def ser_u32_def)
qed

lemma length_ser_u32 [simp]: "length (ser_u32 w) = 4"
  by (simp add: ser_u32_def)

lemma length_bytes_of [simp]: "length (bytes_of s) = length s"
  by (simp add: bytes_of_def)

lemma string_of_bytes_of [simp]: "string_of (bytes_of s) = s"
proof -
  have "\<And>c. char_of (unat (word_of_nat (of_char c) :: byte)) = c"
    by (simp add: unat_of_nat)
  then show ?thesis by (simp add: string_of_def bytes_of_def map_idI)
qed

lemma ser_string_Inr_iff:
  "ser_string s = Inr b \<longleftrightarrow> length s < 2 ^ 32 \<and> b = ser_u32 (word_of_nat (length s)) @ bytes_of s"
  by (auto simp: ser_string_def)

lemma de_string_ser_string:
  assumes "valid_utf8 (bytes_of s)" and "ser_string s = Inr b"
  shows "de_string (b @ rest) = Inr (s, rest)"
proof -
  from assms(2) have len: "length s < 2 ^ 32" and b: "b = ser_u32 (word_of_nat (length s)) @ bytes_of s"
    by (auto simp: ser_string_Inr_iff)
  from len have "unat (word_of_nat (length s) :: 32 word) = length s"
    by (simp add: unat_of_nat)
  with assms(1) b show ?thesis by (simp add: de_string_def)
qed

lemma roundtrip_string: "roundtrip (\<lambda>s. valid_utf8 (bytes_of s)) ser_string de_string"
  by (simp add: roundtrip_def de_string_ser_string)

lemma roundtrip_option:
  assumes "roundtrip P f d"
  shows "roundtrip (pred_option P) (ser_option f) (de_option d)"
  unfolding roundtrip_def
proof (intro allI impI)
  fix x b rest
  assume P: "pred_option P x" and e: "ser_option f x = Inr b"
  show "de_option d (b @ rest) = Inr (x, rest)"
  proof (cases x)
    case None
    with e have "b = [0]" by (simp add: ser_option_def ser_u8_def)
    with None show ?thesis by (simp add: de_option_def de_u8_def)
  next
    case (Some v)
    with e obtain b' where fv: "f v = Inr b'" and b: "b = 1 # b'"
      by (auto simp: ser_option_def ser_u8_def split: sum.splits)
    from assms Some P fv have "d (b' @ rest) = Inr (v, rest)" by (simp add: roundtrip_def)
    with Some b show ?thesis by (simp add: de_option_def de_u8_def)
  qed
qed

lemma de_option_bad_tag:
  "2 \<le> unat tag \<Longrightarrow> de_option d (tag # rest) = Inl (InvalidOptionTag tag)"
proof -
  assume "2 \<le> unat tag"
  then have "tag \<noteq> 0" and "tag \<noteq> 1" by auto
  then show ?thesis by (simp add: de_option_def de_u8_def)
qed

section \<open>Lemmas: sequencing\<close>

lemma enc_then_Inr_iff:
  "enc_then a b = Inr y \<longleftrightarrow> (\<exists>x1 x2. a = Inr x1 \<and> b = Inr x2 \<and> y = x1 @ x2)"
  by (auto simp: enc_then_def split: sum.splits)

lemma dec_bind_roundtrip:
  assumes "roundtrip P f d" and "P x" and "f x = Inr b"
  shows "dec_bind d k (b @ rest) = k x rest"
  using assms by (simp add: roundtrip_def dec_bind_def)

lemma try_from_slice_roundtrip:
  assumes "roundtrip P f d" and "P x" and "f x = Inr b"
  shows "try_from_slice d b = Inr x"
proof -
  from assms have "d (b @ []) = Inr (x, [])" by (simp only: roundtrip_def)
  then show ?thesis by (simp add: try_from_slice_def)
qed

end
