(* ===== verification/Codec.thy ===== *)
theory Codec
  imports Registry Borsh
begin

text \<open>
  The byte representation of the contract's data: the implementations that
  \<open>#[derive(BorshSerialize, BorshDeserialize)]\<close> generates for \<open>TokenMetadata\<close>,
  \<open>Token\<close> and \<open>NFTContractMetadata\<close> (lines 20, 27 and 35 of
  \<open>src/src/lib.rs\<close>), the \<open>AccountId\<close> codec of \<open>near_sdk\<close> (a string that is
  validated on the way back), and the storage prefixes that
  \<open>#[derive(BorshStorageKey)]\<close> gives the variants of \<open>StorageKey\<close> (lines 14--18).
  The lemmas are the round-trip laws on well-formed values.
\<close>

section \<open>AccountId\<close>

text \<open>
  \<open>near_sdk\<close>'s \<open>is_valid_account_id\<close>: length between 2 and 64, then one pass
  over the bytes that allows lower-case letters and digits, allows a separator
  (\<open>-\<close>, \<open>_\<close>, \<open>.\<close>) only after a non-separator, and rejects everything else;
  the pass starts as if after a separator and must not end on one.
\<close>

definition account_alnum :: "char \<Rightarrow> bool" where
  "account_alnum c \<longleftrightarrow>
     (let n = (of_char c :: nat) in (97 \<le> n \<and> n \<le> 122) \<or> (48 \<le> n \<and> n \<le> 57))"

definition account_sep :: "char \<Rightarrow> bool" where
  "account_sep c \<longleftrightarrow> c = CHR ''-'' \<or> c = CHR ''_'' \<or> c = CHR ''.''"

fun account_chars_ok :: "bool \<Rightarrow> string \<Rightarrow> bool" where
  "account_chars_ok last_sep [] = (\<not> last_sep)"
| "account_chars_ok last_sep (c # cs) =
     (if account_alnum c then account_chars_ok False cs
      else if account_sep c then (if last_sep then False else account_chars_ok True cs)
      else False)"

definition valid_account_id :: "account_id \<Rightarrow> bool" where
  "valid_account_id s \<longleftrightarrow> 2 \<le> length s \<and> length s \<le> 64 \<and> account_chars_ok True s"

text \<open>\<open>AccountId\<close> is written as its string and validated when read back.\<close>

definition ser_account_id :: "account_id encoder" where
  "ser_account_id a = ser_string a"

definition de_account_id :: "account_id decoder" where
  "de_account_id bs =
     (case de_string bs of
        Inl e \<Rightarrow> Inl e
      | Inr (s, rest) \<Rightarrow> if valid_account_id s then Inr (s, rest) else Inl InvalidAccountId)"

section \<open>The derived codecs of the contract's structs\<close>

definition ser_token_metadata :: "token_metadata encoder" where
  "ser_token_metadata md =
     enc_then (ser_option ser_string (title md))
       (enc_then (ser_option ser_string (description md)) (ser_option ser_string (media md)))"

definition de_token_metadata :: "token_metadata decoder" where
  "de_token_metadata =
     dec_bind (de_option de_string) (\<lambda>t.
     dec_bind (de_option de_string) (\<lambda>d.
     dec_bind (de_option de_string) (\<lambda>m rest.
       Inr (\<lparr>title = t, description = d, media = m\<rparr>, rest))))"

definition ser_token :: "token encoder" where
  "ser_token tok = enc_then (ser_account_id (token_owner_id tok)) (ser_token_metadata (token_metadata tok))"

definition de_token :: "token decoder" where
  "de_token =
     dec_bind de_account_id (\<lambda>ow.
     dec_bind de_token_metadata (\<lambda>md rest.
       Inr (\<lparr>token_owner_id = ow, token_metadata = md\<rparr>, rest)))"

definition ser_nft_contract_metadata :: "nft_contract_metadata encoder" where
  "ser_nft_contract_metadata m =
     enc_then (ser_string (spec m)) (enc_then (ser_string (name m)) (ser_string (symbol m)))"

definition de_nft_contract_metadata :: "nft_contract_metadata decoder" where
  "de_nft_contract_metadata =
     dec_bind de_string (\<lambda>s.
     dec_bind de_string (\<lambda>n.
     dec_bind de_string (\<lambda>y rest.
       Inr (\<lparr>spec = s, name = n, symbol = y\<rparr>, rest))))"

section \<open>Storage keys\<close>

text \<open>
  \<open>enum StorageKey\<close> and its \<open>BorshStorageKey\<close> derive: the storage prefix of a
  variant is its Borsh encoding, the one-byte variant index.
\<close>

datatype storage_key = TokensById | Metadata

definition storage_key_bytes :: "storage_key \<Rightarrow> bytes" where
  "storage_key_bytes k = (case k of TokensById \<Rightarrow> [0] | Metadata \<Rightarrow> [1])"

section \<open>Well-formed values\<close>

text \<open>
  What a Rust value of each type satisfies: a \<open>String\<close> holds UTF-8, an
  \<open>AccountId\<close> is valid.
\<close>

definition utf8_string :: "string \<Rightarrow> bool" where
  "utf8_string s \<longleftrightarrow> valid_utf8 (bytes_of s)"

definition wf_token_metadata :: "token_metadata \<Rightarrow> bool" where
  "wf_token_metadata md \<longleftrightarrow>
     pred_option utf8_string (title md) \<and> pred_option utf8_string (description md) \<and>
     pred_option utf8_string (media md)"

definition wf_token :: "token \<Rightarrow> bool" where
  "wf_token tok \<longleftrightarrow> valid_account_id (token_owner_id tok) \<and> wf_token_metadata (token_metadata tok)"

definition wf_nft_contract_metadata :: "nft_contract_metadata \<Rightarrow> bool" where
  "wf_nft_contract_metadata m \<longleftrightarrow> utf8_string (spec m) \<and> utf8_string (name m) \<and> utf8_string (symbol m)"

section \<open>Lemmas: account ids\<close>

lemma valid_utf8_ascii: "\<forall>c\<in>set s. of_char c < (128::nat) \<Longrightarrow> valid_utf8 (bytes_of s)"
proof (induction s)
  case (Cons c s)
  have "unat (word_of_nat (of_char c) :: byte) = of_char c"
    by (simp add: unat_of_nat)
  with Cons show ?case by (simp add: bytes_of_def)
qed (simp add: bytes_of_def)

lemma account_chars_ok_chars: "account_chars_ok b s \<Longrightarrow> \<forall>c\<in>set s. account_alnum c \<or> account_sep c"
  by (induction b s rule: account_chars_ok.induct) (auto split: if_splits)

lemma account_char_ascii: "account_alnum c \<or> account_sep c \<Longrightarrow> of_char c < (128::nat)"
  by (auto simp: account_alnum_def account_sep_def Let_def)

lemma valid_account_id_utf8: "valid_account_id s \<Longrightarrow> utf8_string s"
  unfolding utf8_string_def valid_account_id_def
  by (blast intro: valid_utf8_ascii account_char_ascii dest: account_chars_ok_chars)

lemma roundtrip_account_id: "roundtrip valid_account_id ser_account_id de_account_id"
  unfolding roundtrip_def
proof (intro allI impI)
  fix a b rest
  assume v: "valid_account_id a" and e: "ser_account_id a = Inr b"
  from v have "valid_utf8 (bytes_of a)" using valid_account_id_utf8 by (simp add: utf8_string_def)
  with e have "de_string (b @ rest) = Inr (a, rest)"
    by (simp add: ser_account_id_def de_string_ser_string)
  with v show "de_account_id (b @ rest) = Inr (a, rest)" by (simp add: de_account_id_def)
qed

lemma roundtrip_opt_string:
  "roundtrip (pred_option utf8_string) (ser_option ser_string) (de_option de_string)"
proof -
  have "utf8_string = (\<lambda>s. valid_utf8 (bytes_of s))" by (simp add: fun_eq_iff utf8_string_def)
  then show ?thesis using roundtrip_option [OF roundtrip_string] by simp
qed

lemma utf8_string_roundtrip: "roundtrip utf8_string ser_string de_string"
proof -
  have "utf8_string = (\<lambda>s. valid_utf8 (bytes_of s))" by (simp add: fun_eq_iff utf8_string_def)
  then show ?thesis using roundtrip_string by simp
qed

lemma roundtrip_token_metadata: "roundtrip wf_token_metadata ser_token_metadata de_token_metadata"
  unfolding roundtrip_def
proof (intro allI impI)
  fix md b rest
  assume wf: "wf_token_metadata md" and e: "ser_token_metadata md = Inr b"
  from e obtain b1 b2 b3 where
    e1: "ser_option ser_string (title md) = Inr b1" and
    e2: "ser_option ser_string (description md) = Inr b2" and
    e3: "ser_option ser_string (media md) = Inr b3" and b: "b = b1 @ b2 @ b3"
    by (auto simp: ser_token_metadata_def enc_then_Inr_iff)
  note rt = roundtrip_opt_string
  from wf have w: "pred_option utf8_string (title md)" "pred_option utf8_string (description md)"
    "pred_option utf8_string (media md)" by (simp_all add: wf_token_metadata_def)
  show "de_token_metadata (b @ rest) = Inr (md, rest)"
    unfolding b de_token_metadata_def append_assoc
    by (simp add: dec_bind_roundtrip [OF rt w(1) e1] dec_bind_roundtrip [OF rt w(2) e2]
        dec_bind_roundtrip [OF rt w(3) e3])
qed

lemma roundtrip_token: "roundtrip wf_token ser_token de_token"
  unfolding roundtrip_def
proof (intro allI impI)
  fix tok b rest
  assume wf: "wf_token tok" and e: "ser_token tok = Inr b"
  from e obtain b1 b2 where
    e1: "ser_account_id (token_owner_id tok) = Inr b1" and
    e2: "ser_token_metadata (token_metadata tok) = Inr b2" and b: "b = b1 @ b2"
    by (auto simp: ser_token_def enc_then_Inr_iff)
  from wf have w: "valid_account_id (token_owner_id tok)" "wf_token_metadata (token_metadata tok)"
    by (simp_all add: wf_token_def)
  show "de_token (b @ rest) = Inr (tok, rest)"
    unfolding b de_token_def append_assoc
    by (simp add: dec_bind_roundtrip [OF roundtrip_account_id w(1) e1]
        dec_bind_roundtrip [OF roundtrip_token_metadata w(2) e2])
qed

lemma roundtrip_nft_contract_metadata:
  "roundtrip wf_nft_contract_metadata ser_nft_contract_metadata de_nft_contract_metadata"
  unfolding roundtrip_def
proof (intro allI impI)
  fix m b rest
  assume wf: "wf_nft_contract_metadata m" and e: "ser_nft_contract_metadata m = Inr b"
  from e obtain b1 b2 b3 where
    e1: "ser_string (spec m) = Inr b1" and e2: "ser_string (name m) = Inr b2" and
    e3: "ser_string (symbol m) = Inr b3" and b: "b = b1 @ b2 @ b3"
    by (auto simp: ser_nft_contract_metadata_def enc_then_Inr_iff)
  note rt = utf8_string_roundtrip
  from wf have w: "utf8_string (spec m)" "utf8_string (name m)" "utf8_string (symbol m)"
    by (simp_all add: wf_nft_contract_metadata_def)
  show "de_nft_contract_metadata (b @ rest) = Inr (m, rest)"
    unfolding b de_nft_contract_metadata_def append_assoc
    by (simp add: dec_bind_roundtrip [OF rt w(1) e1] dec_bind_roundtrip [OF rt w(2) e2]
        dec_bind_roundtrip [OF rt w(3) e3])
qed


section \<open>Properties of the codecs\<close>

text \<open>
  C13. A well-formed token that encodes reads back from exactly its bytes
  (\<open>try_from_slice\<close>, as the token map does with a stored value).
\<close>

theorem stored_token_roundtrip:
  assumes "wf_token tok" and "ser_token tok = Inr b"
  shows "try_from_slice de_token b = Inr tok"
  by (rule try_from_slice_roundtrip [OF roundtrip_token assms])

text \<open>
  C14. The derived codec of \<open>TokenMetadata\<close> reads its three optional fields back
  in order and leaves whatever follows the encoding untouched.
\<close>

theorem token_metadata_roundtrip:
  assumes "wf_token_metadata md" and "ser_token_metadata md = Inr b"
  shows "de_token_metadata (b @ rest) = Inr (md, rest)"
  using roundtrip_token_metadata assms by (simp add: roundtrip_def)

text \<open>
  C15. The collection metadata, as \<open>LazyOption\<close> stores it, reads back from its bytes.
\<close>

theorem contract_metadata_roundtrip:
  assumes "wf_nft_contract_metadata m" and "ser_nft_contract_metadata m = Inr b"
  shows "try_from_slice de_nft_contract_metadata b = Inr m"
  by (rule try_from_slice_roundtrip [OF roundtrip_nft_contract_metadata assms])

section \<open>Witnesses\<close>

lemma valid_minter: "valid_account_id ''gelezako.testnet''"
  by (simp add: valid_account_id_def account_alnum_def account_sep_def)

lemma utf8_A: "utf8_string ''A''"
  by (simp add: utf8_string_def bytes_of_def unat_of_nat)

theorem stored_token_roundtrip_witness:
  "\<exists>b. ser_token \<lparr>token_owner_id = ''gelezako.testnet'',
          token_metadata = \<lparr>title = Some ''A'', description = None, media = None\<rparr>\<rparr> = Inr b \<and>
       try_from_slice de_token b = Inr \<lparr>token_owner_id = ''gelezako.testnet'',
          token_metadata = \<lparr>title = Some ''A'', description = None, media = None\<rparr>\<rparr>"
proof -
  let ?tok = "\<lparr>token_owner_id = ''gelezako.testnet'',
          token_metadata = \<lparr>title = Some ''A'', description = None, media = None\<rparr>\<rparr>"
  have wf: "wf_token ?tok" by (simp add: wf_token_def wf_token_metadata_def valid_minter utf8_A)
  obtain b where e: "ser_token ?tok = Inr b"
    by (simp add: ser_token_def ser_account_id_def ser_token_metadata_def enc_then_def
        ser_option_def ser_string_def)
  from stored_token_roundtrip [OF wf e] e show ?thesis by blast
qed

theorem token_metadata_roundtrip_witness:
  "\<exists>b. ser_token_metadata \<lparr>title = Some ''A'', description = None, media = Some ''A''\<rparr> = Inr b \<and>
       de_token_metadata (b @ [7]) =
         Inr (\<lparr>title = Some ''A'', description = None, media = Some ''A''\<rparr>, [7])"
proof -
  let ?md = "\<lparr>title = Some ''A'', description = None, media = Some ''A''\<rparr>"
  have wf: "wf_token_metadata ?md" by (simp add: wf_token_metadata_def utf8_A)
  obtain b where e: "ser_token_metadata ?md = Inr b"
    by (simp add: ser_token_metadata_def enc_then_def ser_option_def ser_string_def)
  from token_metadata_roundtrip [OF wf e, of "[7]"] e show ?thesis by blast
qed

theorem contract_metadata_roundtrip_witness:
  "\<exists>b. ser_nft_contract_metadata \<lparr>spec = ''A'', name = ''A'', symbol = ''A''\<rparr> = Inr b \<and>
       try_from_slice de_nft_contract_metadata b = Inr \<lparr>spec = ''A'', name = ''A'', symbol = ''A''\<rparr>"
proof -
  let ?m = "\<lparr>spec = ''A'', name = ''A'', symbol = ''A''\<rparr>"
  have wf: "wf_nft_contract_metadata ?m" by (simp add: wf_nft_contract_metadata_def utf8_A)
  obtain b where e: "ser_nft_contract_metadata ?m = Inr b"
    by (simp add: ser_nft_contract_metadata_def enc_then_def ser_string_def)
  from contract_metadata_roundtrip [OF wf e] e show ?thesis by blast
qed


end
