(* ===== verification/Storage.thy ===== *)
theory Storage
  imports Codec
begin

text \<open>
  The persistent collections of \<open>near_sdk\<close> (version 4, \<open>near_sdk::collections\<close>)
  that \<open>Contract\<close> keeps, over the contract account's key-value store
  (\<open>env::storage_read\<close>, \<open>env::storage_write\<close>): \<open>Vector\<close>, \<open>UnorderedMap\<close>
  and \<open>LazyOption\<close>. A collection value holds only prefixes and a length; its
  entries live in the store under keys built from the prefix. Each operation takes
  the store and returns the new one, or a panic. The invariant \<open>umap_repr\<close> says
  which key and value lists a map represents, and the lemmas show that
  \<open>UnorderedMap::insert\<close> and \<open>get\<close> implement update and lookup on the map those
  lists describe, touching no key outside the map's prefix.
\<close>

type_synonym store = "bytes \<rightharpoonup> bytes"

section \<open>u64 indices\<close>

definition ser_u64 :: "64 word \<Rightarrow> bytes" where
  "ser_u64 w = le_bytes 8 (unat w)"

text \<open>\<open>u64::from_le_bytes\<close> after \<open>copy_from_slice\<close>, which panics unless the slice
  has eight bytes.\<close>

definition de_index :: "bytes \<Rightarrow> panic + 64 word" where
  "de_index raw = (if length raw = 8 then Inr (word_of_nat (le_value raw)) else Inl InconsistentState)"

section \<open>Vector\<close>

text \<open>\<open>struct Vector { len: u64, prefix: Vec<u8> }\<close>; element \<open>i\<close> is stored under
  \<open>prefix ++ i.to_le_bytes()\<close> (\<open>index_to_lookup_key\<close>).\<close>

record vector =
  vec_len :: "64 word"
  vec_prefix :: bytes

definition vec_key :: "vector \<Rightarrow> 64 word \<Rightarrow> bytes" where
  "vec_key v i = vec_prefix v @ ser_u64 i"

definition vector_new :: "bytes \<Rightarrow> vector" where
  "vector_new prefix = \<lparr>vec_len = 0, vec_prefix = prefix\<rparr>"

text \<open>
  \<open>Vector::push_raw\<close>: write at index \<open>len\<close>, then \<open>self.len += 1\<close>. The addition
  is the \<open>+\<close> of \<open>64 word\<close>, which wraps, as Rust's \<open>+=\<close> does in a build without
  \<open>overflow-checks\<close>; whether it panics at \<open>2^64 - 1\<close> instead is a Cargo setting
  outside the sources, so no property of the development depends on that case: the
  map lemmas assume room below it.
\<close>

definition vector_push_raw :: "bytes \<Rightarrow> vector \<Rightarrow> store \<Rightarrow> vector \<times> store" where
  "vector_push_raw x v st = (v\<lparr>vec_len := vec_len v + 1\<rparr>, st(vec_key v (vec_len v) \<mapsto> x))"

text \<open>\<open>Vector::get_raw\<close>: \<open>None\<close> past the end; a missing entry below it is the
  inconsistent-state panic.\<close>

definition vector_get_raw :: "vector \<Rightarrow> store \<Rightarrow> 64 word \<Rightarrow> panic + bytes option" where
  "vector_get_raw v st i =
     (if vec_len v \<le> i then Inr None
      else case st (vec_key v i) of None \<Rightarrow> Inl InconsistentState | Some x \<Rightarrow> Inr (Some x))"

text \<open>\<open>Vector::replace_raw\<close>: bounds check, then overwrite and return the evicted
  value, which must have been there.\<close>

definition vector_replace_raw ::
  "64 word \<Rightarrow> bytes \<Rightarrow> vector \<Rightarrow> store \<Rightarrow> panic + (bytes \<times> store)" where
  "vector_replace_raw i x v st =
     (if vec_len v \<le> i then Inl IndexOutOfBounds
      else case st (vec_key v i) of
             None \<Rightarrow> Inl InconsistentState
           | Some old \<Rightarrow> Inr (old, st(vec_key v i \<mapsto> x)))"

section \<open>UnorderedMap\<close>

text \<open>
  \<open>struct UnorderedMap { key_index_prefix, keys: Vector, values: Vector }\<close>: the
  index of a raw key is stored under \<open>key_index_prefix ++ key\<close>, the key and the
  value at that index in the two vectors. \<open>UnorderedMap::new(prefix)\<close> appends
  \<open>i\<close>, \<open>k\<close> and \<open>v\<close> (bytes 105, 107, 118) to the collection's prefix.
\<close>

record umap =
  key_index_prefix :: bytes
  um_keys :: vector
  um_values :: vector

definition umap_new :: "bytes \<Rightarrow> umap" where
  "umap_new prefix =
     \<lparr>key_index_prefix = prefix @ [105],
      um_keys = vector_new (prefix @ [107]),
      um_values = vector_new (prefix @ [118])\<rparr>"

definition umap_index_key :: "umap \<Rightarrow> bytes \<Rightarrow> bytes" where
  "umap_index_key m k = key_index_prefix m @ k"

text \<open>\<open>UnorderedMap::get_raw\<close>.\<close>

definition umap_get_raw :: "bytes \<Rightarrow> umap \<Rightarrow> store \<Rightarrow> panic + bytes option" where
  "umap_get_raw k m st =
     (case st (umap_index_key m k) of
        None \<Rightarrow> Inr None
      | Some ir \<Rightarrow>
          (case de_index ir of
             Inl e \<Rightarrow> Inl e
           | Inr i \<Rightarrow>
               (case vector_get_raw (um_values m) st i of
                  Inl e \<Rightarrow> Inl e
                | Inr None \<Rightarrow> Inl InconsistentState
                | Inr (Some x) \<Rightarrow> Inr (Some x))))"

text \<open>
  \<open>UnorderedMap::insert_raw\<close>: a known key has its value replaced in place and the
  old value returned; a new key gets the next index, written to the index map, and
  is pushed to both vectors.
\<close>

definition umap_insert_raw ::
  "bytes \<Rightarrow> bytes \<Rightarrow> umap \<Rightarrow> store \<Rightarrow> panic + (bytes option \<times> umap \<times> store)" where
  "umap_insert_raw k x m st =
     (case st (umap_index_key m k) of
        Some ir \<Rightarrow>
          (case de_index ir of
             Inl e \<Rightarrow> Inl e
           | Inr i \<Rightarrow>
               (case vector_replace_raw i x (um_values m) st of
                  Inl e \<Rightarrow> Inl e
                | Inr (old, st') \<Rightarrow> Inr (Some old, m, st')))
      | None \<Rightarrow>
          (let n = vec_len (um_keys m);
               st1 = st(umap_index_key m k \<mapsto> ser_u64 n);
               (ks', st2) = vector_push_raw k (um_keys m) st1;
               (vs', st3) = vector_push_raw x (um_values m) st2
           in Inr (None, m\<lparr>um_keys := ks', um_values := vs'\<rparr>, st3)))"

text \<open>
  The typed layer: keys and values go through Borsh, and a failure to encode or to
  decode is a panic (\<open>serialize_key\<close>, \<open>serialize_value\<close>,
  \<open>deserialize_value\<close>). \<open>insert\<close> decodes the value it evicts.
\<close>

definition ser_or_panic :: "panic \<Rightarrow> 'a encoder \<Rightarrow> 'a \<Rightarrow> panic + bytes" where
  "ser_or_panic p f x = (case f x of Inl _ \<Rightarrow> Inl p | Inr b \<Rightarrow> Inr b)"

definition de_or_panic :: "'a decoder \<Rightarrow> bytes \<Rightarrow> panic + 'a" where
  "de_or_panic d b = (case try_from_slice d b of Inl _ \<Rightarrow> Inl ValueDeserialization | Inr x \<Rightarrow> Inr x)"

definition umap_get ::
  "'k encoder \<Rightarrow> 'v decoder \<Rightarrow> 'k \<Rightarrow> umap \<Rightarrow> store \<Rightarrow> panic + 'v option" where
  "umap_get fk dv k m st =
     (case ser_or_panic KeySerialization fk k of
        Inl e \<Rightarrow> Inl e
      | Inr kr \<Rightarrow>
          (case umap_get_raw kr m st of
             Inl e \<Rightarrow> Inl e
           | Inr None \<Rightarrow> Inr None
           | Inr (Some vr) \<Rightarrow> (case de_or_panic dv vr of Inl e \<Rightarrow> Inl e | Inr v \<Rightarrow> Inr (Some v))))"

definition umap_insert ::
  "'k encoder \<Rightarrow> 'v encoder \<Rightarrow> 'v decoder \<Rightarrow> 'k \<Rightarrow> 'v \<Rightarrow> umap \<Rightarrow> store \<Rightarrow>
   panic + ('v option \<times> umap \<times> store)" where
  "umap_insert fk fv dv k v m st =
     (case ser_or_panic KeySerialization fk k of
        Inl e \<Rightarrow> Inl e
      | Inr kr \<Rightarrow>
          (case ser_or_panic ValueSerialization fv v of
             Inl e \<Rightarrow> Inl e
           | Inr vr \<Rightarrow>
               (case umap_insert_raw kr vr m st of
                  Inl e \<Rightarrow> Inl e
                | Inr (None, m', st') \<Rightarrow> Inr (None, m', st')
                | Inr (Some old, m', st') \<Rightarrow>
                    (case de_or_panic dv old of
                       Inl e \<Rightarrow> Inl e
                     | Inr ov \<Rightarrow> Inr (Some ov, m', st')))))"

section \<open>LazyOption\<close>

text \<open>\<open>struct LazyOption { storage_key: Vec<u8>, cache (not serialised) }\<close>.\<close>

record lazy_option =
  lo_storage_key :: bytes

text \<open>\<open>LazyOption::new(key, value)\<close>: with \<open>Some\<close>, the value is written at once; with
  \<open>None\<close>, nothing is written.\<close>

definition lazy_new ::
  "'v encoder \<Rightarrow> bytes \<Rightarrow> 'v option \<Rightarrow> store \<Rightarrow> panic + (lazy_option \<times> store)" where
  "lazy_new fv key v st =
     (case v of
        None \<Rightarrow> Inr (\<lparr>lo_storage_key = key\<rparr>, st)
      | Some x \<Rightarrow>
          (case ser_or_panic ValueSerialization fv x of
             Inl e \<Rightarrow> Inl e
           | Inr b \<Rightarrow> Inr (\<lparr>lo_storage_key = key\<rparr>, st(key \<mapsto> b))))"

definition lazy_get :: "'v decoder \<Rightarrow> lazy_option \<Rightarrow> store \<Rightarrow> panic + 'v option" where
  "lazy_get dv lo st =
     (case st (lo_storage_key lo) of
        None \<Rightarrow> Inr None
      | Some b \<Rightarrow> (case de_or_panic dv b of Inl e \<Rightarrow> Inl e | Inr v \<Rightarrow> Inr (Some v)))"

section \<open>What a map's entries in the store mean\<close>

text \<open>
  \<open>umap_repr m st ks vs\<close>: the map \<open>m\<close> in store \<open>st\<close> holds the distinct raw
  keys \<open>ks\<close> with the raw values \<open>vs\<close>, in insertion order: the length is theirs,
  key and value \<open>i\<close> are stored at index \<open>i\<close> of the two vectors, and the index map
  sends exactly the keys of \<open>ks\<close> to their positions.
\<close>

definition umap_repr :: "umap \<Rightarrow> store \<Rightarrow> bytes list \<Rightarrow> bytes list \<Rightarrow> bool" where
  "umap_repr m st ks vs \<longleftrightarrow>
     length ks = unat (vec_len (um_keys m)) \<and> length vs = length ks \<and>
     vec_len (um_values m) = vec_len (um_keys m) \<and> distinct ks \<and>
     (\<forall>i < length ks. st (vec_key (um_keys m) (word_of_nat i)) = Some (ks ! i) \<and>
                      st (vec_key (um_values m) (word_of_nat i)) = Some (vs ! i)) \<and>
     (\<forall>i < length ks. st (umap_index_key m (ks ! i)) = Some (ser_u64 (word_of_nat i))) \<and>
     (\<forall>k. k \<notin> set ks \<longrightarrow> st (umap_index_key m k) = None)"

text \<open>
  The layout \<open>UnorderedMap::new(prefix)\<close> gives a map, kept by every operation: the
  index map and the two vectors live under three distinct extensions of the prefix.
\<close>

definition umap_layout :: "bytes \<Rightarrow> umap \<Rightarrow> bool" where
  "umap_layout p m \<longleftrightarrow>
     key_index_prefix m = p @ [105] \<and> vec_prefix (um_keys m) = p @ [107] \<and>
     vec_prefix (um_values m) = p @ [118]"

text \<open>The store and map after inserting a new key.\<close>

definition umap_push_new :: "bytes \<Rightarrow> bytes \<Rightarrow> umap \<Rightarrow> store \<Rightarrow> umap \<times> store" where
  "umap_push_new k x m st =
     (let n = vec_len (um_keys m) in
      (m\<lparr>um_keys := (um_keys m)\<lparr>vec_len := n + 1\<rparr>, um_values := (um_values m)\<lparr>vec_len := n + 1\<rparr>\<rparr>,
       st(umap_index_key m k \<mapsto> ser_u64 n, vec_key (um_keys m) n \<mapsto> k, vec_key (um_values m) n \<mapsto> x)))"

text \<open>
  The typed content of a map holding the raw keys \<open>ks\<close> and values \<open>vs\<close>: a key
  whose encoding is stored maps to the decoding of its value.
\<close>

definition umap_view :: "'k encoder \<Rightarrow> 'v decoder \<Rightarrow> bytes list \<Rightarrow> bytes list \<Rightarrow> 'k \<rightharpoonup> 'v" where
  "umap_view fk dv ks vs k =
     (case fk k of
        Inl _ \<Rightarrow> None
      | Inr kr \<Rightarrow>
          (case map_of (zip ks vs) kr of
             None \<Rightarrow> None
           | Some vr \<Rightarrow> (case try_from_slice dv vr of Inl _ \<Rightarrow> None | Inr v \<Rightarrow> Some v)))"

text \<open>Every stored value decodes, as the values a map was given do.\<close>

definition values_decode :: "'v decoder \<Rightarrow> bytes list \<Rightarrow> bool" where
  "values_decode dv vs \<longleftrightarrow> (\<forall>vr\<in>set vs. \<exists>v. try_from_slice dv vr = Inr v)"

text \<open>An encoder is injective where it succeeds.\<close>

definition enc_inj :: "'a encoder \<Rightarrow> bool" where
  "enc_inj f \<longleftrightarrow> (\<forall>a b r. f a = Inr r \<longrightarrow> f b = Inr r \<longrightarrow> a = b)"

section \<open>Lemmas: indices and keys\<close>

lemma length_ser_u64 [simp]: "length (ser_u64 w) = 8"
  by (simp add: ser_u64_def)

lemma le_value_ser_u64: "le_value (ser_u64 w) = unat w"
proof -
  have "unat w < 256 ^ 8" using unsigned_less [of w, where ?'a = nat] by simp
  then show ?thesis by (simp add: ser_u64_def le_value_le_bytes)
qed

lemma de_index_ser_u64 [simp]: "de_index (ser_u64 w) = Inr w"
  by (simp add: de_index_def le_value_ser_u64)

lemma ser_u64_inj [simp]: "ser_u64 a = ser_u64 b \<longleftrightarrow> a = b"
  by (metis le_value_ser_u64 word_unat_eq_iff)

lemma append_Cons_neq: "a \<noteq> b \<Longrightarrow> p @ a # x \<noteq> p @ b # y"
  by simp

lemma vec_key_inj [simp]: "vec_key v i = vec_key v j \<longleftrightarrow> i = j"
  by (simp add: vec_key_def)

lemma layout_keys_distinct:
  assumes "umap_layout p m"
  shows "vec_key (um_keys m) i \<noteq> vec_key (um_values m) j"
    and "vec_key (um_keys m) i \<noteq> umap_index_key m k"
    and "vec_key (um_values m) j \<noteq> umap_index_key m k"
  using assms by (simp_all add: umap_layout_def vec_key_def umap_index_key_def)

lemma umap_index_key_inj [simp]: "umap_index_key m k = umap_index_key m k' \<longleftrightarrow> k = k'"
  by (simp add: umap_index_key_def)

lemma word_of_nat_less: "i < unat (n :: 'a::len word) \<Longrightarrow> word_of_nat i < n"
proof -
  assume a: "i < unat n"
  then have "i < 2 ^ LENGTH('a)" using unsigned_less [of n, where ?'a = nat] by linarith
  then have "unat (word_of_nat i :: 'a word) = i" by (simp add: unat_of_nat)
  with a show ?thesis by (simp add: word_less_nat_alt)
qed

lemma unat_word_of_nat_less: "i < unat (n :: 'a::len word) \<Longrightarrow> unat (word_of_nat i :: 'a word) = i"
proof -
  assume a: "i < unat n"
  then have "i < 2 ^ LENGTH('a)" using unsigned_less [of n, where ?'a = nat] by linarith
  then show ?thesis by (simp add: unat_of_nat)
qed

lemma umap_repr_lookup_index:
  assumes "umap_repr m st ks vs" and "i < length ks"
  shows "umap_get_raw (ks ! i) m st = Inr (Some (vs ! i))"
proof -
  from assms have len: "length ks = unat (vec_len (um_keys m))"
    and vl: "vec_len (um_values m) = vec_len (um_keys m)"
    and ix: "st (umap_index_key m (ks ! i)) = Some (ser_u64 (word_of_nat i))"
    and vv: "st (vec_key (um_values m) (word_of_nat i)) = Some (vs ! i)"
    by (auto simp: umap_repr_def)
  from assms(2) len have "word_of_nat i < vec_len (um_values m)"
    using vl word_of_nat_less by metis
  then have "\<not> vec_len (um_values m) \<le> word_of_nat i" by simp
  with ix vv show ?thesis by (simp add: umap_get_raw_def vector_get_raw_def)
qed

lemma umap_get_raw_repr:
  assumes "umap_repr m st ks vs"
  shows "umap_get_raw k m st = Inr (map_of (zip ks vs) k)"
proof (cases "k \<in> set ks")
  case True
  then obtain i where i: "i < length ks" "k = ks ! i" by (auto simp: in_set_conv_nth)
  from assms have "length ks = length vs" "distinct ks" by (auto simp: umap_repr_def)
  with i have "map_of (zip ks vs) k = Some (vs ! i)" by (simp add: map_of_zip_nth)
  with umap_repr_lookup_index [OF assms i(1)] i(2) show ?thesis by simp
next
  case False
  from assms have l: "length ks = length vs" by (simp add: umap_repr_def)
  from assms False have n: "st (umap_index_key m k) = None" by (simp add: umap_repr_def)
  from l False have "map_of (zip ks vs) k = None" by simp
  with n show ?thesis by (simp add: umap_get_raw_def)
qed


lemma word_of_nat_inj_below:
  "i < unat (n :: 'a::len word) \<Longrightarrow> j < unat n \<Longrightarrow> (word_of_nat i :: 'a word) = word_of_nat j \<longleftrightarrow> i = j"
  by (metis unat_word_of_nat_less)

lemma vec_key_len_upd [simp]: "vec_key (v\<lparr>vec_len := l\<rparr>) i = vec_key v i"
  by (simp add: vec_key_def)

lemma umap_insert_raw_existing:
  assumes "umap_repr m st ks vs" and "i < length ks"
  shows "umap_insert_raw (ks ! i) x m st =
           Inr (Some (vs ! i), m, st(vec_key (um_values m) (word_of_nat i) \<mapsto> x))"
proof -
  from assms have len: "length ks = unat (vec_len (um_keys m))"
    and vl: "vec_len (um_values m) = vec_len (um_keys m)"
    and ix: "st (umap_index_key m (ks ! i)) = Some (ser_u64 (word_of_nat i))"
    and vv: "st (vec_key (um_values m) (word_of_nat i)) = Some (vs ! i)"
    by (auto simp: umap_repr_def)
  from assms(2) len have "word_of_nat i < vec_len (um_values m)"
    using vl word_of_nat_less by metis
  then have "\<not> vec_len (um_values m) \<le> word_of_nat i" by simp
  with ix vv show ?thesis by (simp add: umap_insert_raw_def vector_replace_raw_def)
qed

lemma umap_repr_replace:
  assumes "umap_repr m st ks vs" and "umap_layout p m" and "i < length ks"
  shows "umap_repr m (st(vec_key (um_values m) (word_of_nat i) \<mapsto> x)) ks (vs[i := x])"
proof -
  from assms(1) have len: "length ks = unat (vec_len (um_keys m))" by (simp add: umap_repr_def)
  have eq: "\<And>j. j < length ks \<Longrightarrow>
      (vec_key (um_values m) (word_of_nat j) = vec_key (um_values m) (word_of_nat i)) = (j = i)"
    using assms(3) len word_of_nat_inj_below by (metis vec_key_inj)
  show ?thesis
    using assms(1) layout_keys_distinct [OF assms(2)] layout_keys_distinct [OF assms(2), THEN not_sym] eq
    by (auto simp: umap_repr_def nth_list_update)
qed


lemma unat_plus_one_below: "unat (n :: 'a::len word) + 1 < 2 ^ LENGTH('a) \<Longrightarrow> unat (n + 1) = unat n + 1"
  by (metis unat_add_lem unat_1)

lemma umap_insert_raw_new:
  assumes "umap_repr m st ks vs" and "k \<notin> set ks"
  shows "umap_insert_raw k x m st = Inr (None, umap_push_new k x m st)"
proof -
  from assms have vl: "vec_len (um_values m) = vec_len (um_keys m)"
    and ni: "st (umap_index_key m k) = None"
    by (auto simp: umap_repr_def)
  from vl ni show ?thesis
    by (simp add: umap_insert_raw_def vector_push_raw_def umap_push_new_def Let_def)
qed


lemma word_of_nat_eq_len:
  assumes "unat (n :: 'a::len word) = l" and "l < 2 ^ LENGTH('a) - 1" and "i < Suc l"
  shows "(word_of_nat i = n) \<longleftrightarrow> i = l"
proof -
  from assms(2,3) have "i < 2 ^ LENGTH('a)" by linarith
  then have "unat (word_of_nat i :: 'a word) = i" by (simp add: unat_of_nat)
  with assms(1) show ?thesis by (metis word_unat_eq_iff)
qed

lemma umap_repr_push_new:
  assumes "umap_repr m st ks vs" and "umap_layout p m" and "k \<notin> set ks"
    and "length ks < 2 ^ 64 - 1"
  shows "umap_repr (fst (umap_push_new k x m st)) (snd (umap_push_new k x m st)) (ks @ [k]) (vs @ [x])"
proof -
  let ?n = "vec_len (um_keys m)"
  from assms(1) have len: "unat ?n = length ks"
    and vl: "vec_len (um_values m) = ?n" and lv: "length vs = length ks"
    by (auto simp: umap_repr_def)
  have suc: "unat (?n + 1) = Suc (length ks)"
    using unat_plus_one_below [of ?n] len assms(4) by simp
  have wi: "\<And>i. i < Suc (length ks) \<Longrightarrow> (word_of_nat i = ?n) \<longleftrightarrow> i = length ks"
    using word_of_nat_eq_len [OF len] assms(4) by simp
  have wl: "word_of_nat (length ks) = ?n" using wi by blast
  note d = layout_keys_distinct [OF assms(2)] layout_keys_distinct [OF assms(2), THEN not_sym]
  define m' where "m' = fst (umap_push_new k x m st)"
  define st' where "st' = snd (umap_push_new k x m st)"
  have m': "um_keys m' = (um_keys m)\<lparr>vec_len := ?n + 1\<rparr>" "um_values m' = (um_values m)\<lparr>vec_len := ?n + 1\<rparr>"
    "umap_index_key m' = umap_index_key m"
    by (simp_all add: m'_def umap_push_new_def Let_def umap_index_key_def fun_eq_iff)
  have st': "st' = st(umap_index_key m k \<mapsto> ser_u64 ?n, vec_key (um_keys m) ?n \<mapsto> k,
      vec_key (um_values m) ?n \<mapsto> x)"
    by (simp add: st'_def umap_push_new_def Let_def)
  have h1: "length (ks @ [k]) = unat (vec_len (um_keys m'))" using suc m' by simp
  have h2: "vec_len (um_values m') = vec_len (um_keys m')" using vl m' by simp
  have h3: "distinct (ks @ [k])" using assms(1,3) by (simp add: umap_repr_def)
  have h4: "\<forall>i < length (ks @ [k]). st' (vec_key (um_keys m') (word_of_nat i)) = Some ((ks @ [k]) ! i) \<and>
                 st' (vec_key (um_values m') (word_of_nat i)) = Some ((vs @ [x]) ! i)"
  proof (intro allI impI)
    fix i assume i: "i < length (ks @ [k])"
    show "st' (vec_key (um_keys m') (word_of_nat i)) = Some ((ks @ [k]) ! i) \<and>
          st' (vec_key (um_values m') (word_of_nat i)) = Some ((vs @ [x]) ! i)"
      using i assms(1) wi [of i] d lv unfolding st' m' by (auto simp: umap_repr_def nth_append less_Suc_eq)
  qed
  have h5: "\<forall>i < length (ks @ [k]). st' (umap_index_key m' ((ks @ [k]) ! i)) = Some (ser_u64 (word_of_nat i))"
  proof (intro allI impI)
    fix i assume i: "i < length (ks @ [k])"
    show "st' (umap_index_key m' ((ks @ [k]) ! i)) = Some (ser_u64 (word_of_nat i))"
      using i assms(1,3) d wl unfolding st' m' by (auto simp: umap_repr_def nth_append less_Suc_eq)
  qed
  have h6: "\<forall>k'. k' \<notin> set (ks @ [k]) \<longrightarrow> st' (umap_index_key m' k') = None"
    using assms(1) d unfolding st' m' by (auto simp: umap_repr_def)
  from h1 h2 h3 h4 h5 h6 lv show ?thesis
    unfolding umap_repr_def m'_def [symmetric] st'_def [symmetric] by simp
qed

section \<open>Lemmas: insert on the raw map refines map update\<close>

lemma map_of_zip_list_update:
  assumes "length ks = length vs" and "distinct ks" and "i < length ks"
  shows "map_of (zip ks (vs[i := x])) = (map_of (zip ks vs))(ks ! i \<mapsto> x)"
  using assms
proof (induction ks vs arbitrary: i rule: list_induct2)
  case (Cons k ks v vs)
  show ?case
  proof (cases i)
    case 0
    then show ?thesis by (simp add: fun_eq_iff)
  next
    case (Suc j)
    with Cons have "map_of (zip ks (vs[j := x])) = (map_of (zip ks vs))(ks ! j \<mapsto> x)"
      by (simp add: fun_eq_iff)
    moreover from Cons Suc have "ks ! j \<noteq> k" by (auto simp: nth_mem)
    ultimately show ?thesis using Suc by (auto simp: fun_eq_iff)
  qed
qed simp

lemma map_of_zip_snoc:
  assumes "length ks = length vs"
  shows "map_of (zip (ks @ [k]) (vs @ [x])) = (map_of (zip ks vs))(k \<mapsto> x) \<or> k \<in> set ks"
proof (cases "k \<in> set ks")
  case False
  have "map_of (zip (ks @ [k]) (vs @ [x])) = map_of [(k, x)] ++ map_of (zip ks vs)"
    using assms by (simp add: map_of_append)
  also have "\<dots> = (map_of (zip ks vs))(k \<mapsto> x)"
  proof
    fix k'
    have n: "map_of (zip ks vs) k = None" using assms False by simp
    show "(map_of [(k, x)] ++ map_of (zip ks vs)) k' = ((map_of (zip ks vs))(k \<mapsto> x)) k'"
      using n by (cases "map_of (zip ks vs) k'") (auto simp: map_add_def)
  qed
  finally show ?thesis by simp
qed simp

text \<open>Insert on the raw map: the functional refinement and the frame.\<close>

lemma umap_insert_raw_refines:
  assumes "umap_repr m st ks vs" and "umap_layout p m" and "length ks < 2 ^ 64 - 1"
  shows "\<exists>m' st' ks' vs'. umap_insert_raw k x m st = Inr (map_of (zip ks vs) k, m', st') \<and>
           umap_repr m' st' ks' vs' \<and> umap_layout p m' \<and> length ks' \<le> Suc (length ks) \<and>
           map_of (zip ks' vs') = (map_of (zip ks vs))(k \<mapsto> x) \<and>
           (\<forall>q. st' q \<noteq> st q \<longrightarrow> (\<exists>r. q = p @ r))"
proof (cases "k \<in> set ks")
  case True
  then obtain i where i: "i < length ks" "k = ks ! i" by (auto simp: in_set_conv_nth)
  from assms(1) have l: "length ks = length vs" and d: "distinct ks" by (auto simp: umap_repr_def)
  let ?st' = "st(vec_key (um_values m) (word_of_nat i) \<mapsto> x)"
  have "umap_insert_raw k x m st = Inr (map_of (zip ks vs) k, m, ?st')"
    using umap_insert_raw_existing [OF assms(1) i(1)] i l d by (simp add: map_of_zip_nth)
  moreover have "umap_repr m ?st' ks (vs[i := x])" by (rule umap_repr_replace [OF assms(1,2) i(1)])
  moreover have "map_of (zip ks (vs[i := x])) = (map_of (zip ks vs))(k \<mapsto> x)"
    using map_of_zip_list_update [OF l d i(1)] i(2) by simp
  moreover have "\<forall>q. ?st' q \<noteq> st q \<longrightarrow> (\<exists>r. q = p @ r)"
    using assms(2) by (auto simp: umap_layout_def vec_key_def)
  ultimately show ?thesis using assms(2) by fastforce
next
  case False
  from assms(1) have l: "length ks = length vs" by (simp add: umap_repr_def)
  let ?r = "umap_push_new k x m st"
  have "umap_insert_raw k x m st = Inr (None, ?r)" by (rule umap_insert_raw_new [OF assms(1) False])
  moreover have "map_of (zip ks vs) k = None" using l False by simp
  moreover have "umap_repr (fst ?r) (snd ?r) (ks @ [k]) (vs @ [x])"
    by (rule umap_repr_push_new [OF assms(1,2) False assms(3)])
  moreover have "umap_layout p (fst ?r)"
    using assms(2) by (simp add: umap_push_new_def Let_def umap_layout_def)
  moreover have "map_of (zip (ks @ [k]) (vs @ [x])) = (map_of (zip ks vs))(k \<mapsto> x)"
    using map_of_zip_snoc [OF l, of k x] False by simp
  moreover have "\<forall>q. snd ?r q \<noteq> st q \<longrightarrow> (\<exists>r. q = p @ r)"
    using assms(2) by (auto simp: umap_push_new_def Let_def umap_layout_def vec_key_def umap_index_key_def)
  ultimately show ?thesis by (metis length_append_singleton order_refl prod.collapse)
qed

section \<open>Lemmas: the typed map\<close>

lemma umap_get_repr:
  assumes "umap_repr m st ks vs" and "fk k = Inr kr" and "values_decode dv vs"
  shows "umap_get fk dv k m st = Inr (umap_view fk dv ks vs k)"
proof (cases "map_of (zip ks vs) kr")
  case None
  with assms show ?thesis
    by (simp add: umap_get_def ser_or_panic_def umap_get_raw_repr umap_view_def)
next
  case (Some vr)
  from assms(1) have "length ks = length vs" by (simp add: umap_repr_def)
  with Some have "vr \<in> set vs" by (metis set_zip_rightD map_of_SomeD)
  with assms(3) obtain v where v: "try_from_slice dv vr = Inr v" by (auto simp: values_decode_def)
  with assms Some show ?thesis
    by (simp add: umap_get_def ser_or_panic_def umap_get_raw_repr umap_view_def de_or_panic_def)
qed

lemma values_decode_map_of:
  "values_decode dv vs \<Longrightarrow> length ks = length vs \<Longrightarrow> map_of (zip ks vs) k = Some vr \<Longrightarrow>
   \<exists>v. try_from_slice dv vr = Inr v"
  by (auto simp: values_decode_def dest!: map_of_SomeD set_zip_rightD)

lemma umap_insert_refines:
  assumes "umap_repr m st ks vs" and "umap_layout p m" and "length ks < 2 ^ 64 - 1"
    and "values_decode dv vs" and "enc_inj fk"
    and "fk k = Inr kr" and "fv v = Inr vr" and "try_from_slice dv vr = Inr v"
  shows "\<exists>m' st' ks' vs'. umap_insert fk fv dv k v m st = Inr (umap_view fk dv ks vs k, m', st') \<and>
           umap_repr m' st' ks' vs' \<and> umap_layout p m' \<and> length ks' \<le> Suc (length ks) \<and>
           values_decode dv vs' \<and>
           umap_view fk dv ks' vs' = (umap_view fk dv ks vs)(k \<mapsto> v) \<and>
           (\<forall>q. st' q \<noteq> st q \<longrightarrow> (\<exists>r. q = p @ r))"
proof -
  obtain m' st' ks' vs' where
    ins: "umap_insert_raw kr vr m st = Inr (map_of (zip ks vs) kr, m', st')" and
    rep: "umap_repr m' st' ks' vs'" and lay: "umap_layout p m'" and len: "length ks' \<le> Suc (length ks)" and
    upd: "map_of (zip ks' vs') = (map_of (zip ks vs))(kr \<mapsto> vr)" and
    fr: "\<forall>q. st' q \<noteq> st q \<longrightarrow> (\<exists>r. q = p @ r)"
    using umap_insert_raw_refines [OF assms(1-3)] by blast
  from assms(1) have l: "length ks = length vs" by (simp add: umap_repr_def)
  from rep have l': "length ks' = length vs'" by (simp add: umap_repr_def)
  have vd': "values_decode dv vs'"
    unfolding values_decode_def
  proof
    fix w assume "w \<in> set vs'"
    with l' obtain k' where "(k', w) \<in> set (zip ks' vs')" by (metis in_set_impl_in_set_zip2)
    with rep have "map_of (zip ks' vs') k' = Some w"
      by (simp add: umap_repr_def)
    with upd have "w = vr \<or> map_of (zip ks vs) k' = Some w" by (auto split: if_splits)
    then show "\<exists>x. try_from_slice dv w = Inr x"
    proof
      assume "w = vr"
      with assms(8) show ?thesis by blast
    next
      assume "map_of (zip ks vs) k' = Some w"
      from values_decode_map_of [OF assms(4) l this] show ?thesis .
    qed
  qed
  have res: "umap_insert fk fv dv k v m st = Inr (umap_view fk dv ks vs k, m', st')"
  proof (cases "map_of (zip ks vs) kr")
    case None
    with ins assms(6,7) show ?thesis
      by (simp add: umap_insert_def ser_or_panic_def umap_view_def)
  next
    case (Some old)
    from values_decode_map_of [OF assms(4) l Some] obtain ov where ov: "try_from_slice dv old = Inr ov" by blast
    with Some ins assms(6,7) show ?thesis
      by (simp add: umap_insert_def ser_or_panic_def umap_view_def de_or_panic_def)
  qed
  have view: "umap_view fk dv ks' vs' = (umap_view fk dv ks vs)(k \<mapsto> v)"
  proof
    fix k'
    show "umap_view fk dv ks' vs' k' = ((umap_view fk dv ks vs)(k \<mapsto> v)) k'"
    proof (cases "k' = k")
      case True
      with upd assms(6,8) show ?thesis by (simp add: umap_view_def)
    next
      case False
      show ?thesis
      proof (cases "fk k'")
        case (Inl e)
        with False show ?thesis by (simp add: umap_view_def)
      next
        case (Inr kr')
        with assms(5,6) False have "kr' \<noteq> kr" by (auto simp: enc_inj_def)
        with Inr False upd show ?thesis by (simp add: umap_view_def)
      qed
    qed
  qed
  from res rep lay len vd' view fr show ?thesis by blast
qed

lemma ser_string_inj: "enc_inj ser_string"
  unfolding enc_inj_def
proof (intro allI impI)
  fix a b r
  assume "ser_string a = Inr r" and "ser_string b = Inr r"
  then have "drop 4 r = bytes_of a" and "drop 4 r = bytes_of b"
    by (auto simp: ser_string_def split: if_splits)
  then have "string_of (bytes_of a) = string_of (bytes_of b)" by simp
  then show "a = b" by simp
qed

lemma umap_view_empty [simp]: "umap_view fk dv [] [] = Map.empty"
  by (simp add: umap_view_def fun_eq_iff split: sum.splits)

lemma umap_repr_new_empty:
  assumes "\<forall>r. st (p @ r) = None"
  shows "umap_repr (umap_new p) st [] []"
  using assms by (simp add: umap_repr_def umap_new_def vector_new_def umap_index_key_def)

lemma umap_insert_get_law:
  assumes "umap_repr m st ks vs" and "umap_layout p m" and "length ks < 2 ^ 64 - 1"
    and "values_decode dv vs" and "enc_inj fk"
    and "fk k = Inr kr" and "fv v = Inr vr" and "try_from_slice dv vr = Inr v"
  shows "\<exists>m' st'. umap_insert fk fv dv k v m st = Inr (umap_view fk dv ks vs k, m', st') \<and>
           (\<forall>k' kr'. fk k' = Inr kr' \<longrightarrow>
              umap_get fk dv k' m' st' = (if k' = k then Inr (Some v) else umap_get fk dv k' m st))"
proof -
  obtain m' st' ks' vs' where
    ins: "umap_insert fk fv dv k v m st = Inr (umap_view fk dv ks vs k, m', st')"
    and rep': "umap_repr m' st' ks' vs'" and vd': "values_decode dv vs'"
    and view': "umap_view fk dv ks' vs' = (umap_view fk dv ks vs)(k \<mapsto> v)"
    using umap_insert_refines [where fk = fk and fv = fv and dv = dv and k = k and v = v, OF assms] by blast
  have "umap_get fk dv k' m' st' = (if k' = k then Inr (Some v) else umap_get fk dv k' m st)"
    if "fk k' = Inr kr'" for k' kr'
    using umap_get_repr [where fk = fk and k = k', OF rep' that vd']
      umap_get_repr [where fk = fk and k = k', OF assms(1) that assms(4)] view'
    by simp
  with ins show ?thesis by blast
qed

section \<open>The insert/lookup law of the token map\<close>

text \<open>
  C20. \<open>UnorderedMap::insert\<close> on the contract's token map (\<open>String\<close> keys,
  \<open>Token\<close> values, prefix \<open>StorageKey::TokensById\<close>), well represented and with
  room in its \<open>u64\<close> length, succeeds for a well-formed token, returns the token the
  id had, and afterwards \<open>get\<close> returns the inserted token for that id and, for every
  other id, what \<open>get\<close> returned before.
\<close>

theorem tokens_insert_get:
  assumes "umap_repr m st ks vs" and "umap_layout (storage_key_bytes TokensById) m"
    and "length ks < 2 ^ 64 - 1" and "values_decode de_token vs"
    and "wf_token tok" and "ser_token tok = Inr vr" and "ser_string t = Inr kr"
  shows "\<exists>m' st'. umap_insert ser_string ser_token de_token t tok m st =
             Inr (umap_view ser_string de_token ks vs t, m', st') \<and>
           (\<forall>t' kr'. ser_string t' = Inr kr' \<longrightarrow>
              umap_get ser_string de_token t' m' st' =
                (if t' = t then Inr (Some tok) else umap_get ser_string de_token t' m st))"
proof -
  have "try_from_slice de_token vr = Inr tok"
    by (rule try_from_slice_roundtrip [OF roundtrip_token assms(5,6)])
  from umap_insert_get_law [where fk = ser_string and fv = ser_token and k = t and v = tok,
                            OF assms(1-4) ser_string_inj assms(7,6) this]
  show ?thesis .
qed

theorem tokens_insert_get_witness:
  "\<exists>m' st'. umap_insert ser_string ser_token de_token ''t1''
               \<lparr>token_owner_id = ''gelezako.testnet'',
                token_metadata = \<lparr>title = Some ''A'', description = None, media = None\<rparr>\<rparr>
               (umap_new (storage_key_bytes TokensById)) Map.empty = Inr (None, m', st') \<and>
     umap_get ser_string de_token ''t1'' m' st' =
       Inr (Some \<lparr>token_owner_id = ''gelezako.testnet'',
                  token_metadata = \<lparr>title = Some ''A'', description = None, media = None\<rparr>\<rparr>)"
proof -
  let ?tok = "\<lparr>token_owner_id = ''gelezako.testnet'',
                token_metadata = \<lparr>title = Some ''A'', description = None, media = None\<rparr>\<rparr>"
  have r: "umap_repr (umap_new (storage_key_bytes TokensById)) Map.empty [] []"
    by (rule umap_repr_new_empty) simp
  have l: "umap_layout (storage_key_bytes TokensById) (umap_new (storage_key_bytes TokensById))"
    by (simp add: umap_layout_def umap_new_def vector_new_def)
  have d: "values_decode de_token []" by (simp add: values_decode_def)
  have wf: "wf_token ?tok" by (simp add: wf_token_def wf_token_metadata_def valid_minter utf8_A)
  obtain vr where v: "ser_token ?tok = Inr vr"
    by (simp add: ser_token_def ser_account_id_def ser_token_metadata_def enc_then_def
        ser_option_def ser_string_def)
  obtain kr where k: "ser_string ''t1'' = Inr kr" by (simp add: ser_string_def)
  from tokens_insert_get [OF r l _ d wf v k] k show ?thesis by auto
qed

end
