(* ===== verification/StoreContract.thy ===== *)
theory StoreContract
  imports Bindgen Storage
begin

text \<open>
  The contract at the level of the account's key-value store. The \<open>Contract\<close>
  struct itself (lines 8--12) is a record of the collection handles, written with
  Borsh under the key \<open>STATE\<close> by the \<open>#[near_bindgen]\<close> wrappers; its token
  map and metadata live under the prefixes of \<open>StorageKey\<close>. The methods of
  \<open>impl Contract\<close> are translated again, this time calling the \<open>near_sdk\<close>
  collections of \<open>Storage\<close>, and the receipt \<open>execute_store\<close> runs them on a
  store. The abstraction \<open>abs_store\<close> reads a store back as the \<open>contract option\<close>
  of \<open>Bindgen\<close>; \<open>execute_store_step\<close> (from \<open>sim_fresh\<close> for an empty store
  and \<open>sim_state\<close> for an initialised one) proves that running a receipt on the store
  and reading the result back is the same as running it on the abstract state, that
  the store invariant is kept, that the token count grows by at most one, and which
  keys a receipt may write. The root theory states these as C17--C19.
\<close>

section \<open>The Contract struct and its Borsh encoding\<close>

record contract_struct =
  cs_owner_id :: account_id
  cs_tokens_by_id :: umap
  cs_metadata :: lazy_option

text \<open>\<open>Vec<u8>\<close> is a \<open>u32\<close> length and the bytes; \<open>u64\<close> is eight bytes.\<close>

definition ser_vec_u8 :: "bytes encoder" where
  "ser_vec_u8 bs = (if length bs < 2 ^ 32 then Inr (ser_u32 (word_of_nat (length bs)) @ bs) else Inl LengthOverflow)"

definition de_vec_u8 :: "bytes decoder" where
  "de_vec_u8 bs =
     (case de_u32 bs of
        Inl e \<Rightarrow> Inl e
      | Inr (len, rest) \<Rightarrow> take_bytes (unat len) rest)"

definition de_u64 :: "64 word decoder" where
  "de_u64 bs =
     (case take_bytes 8 bs of
        Inl e \<Rightarrow> Inl e
      | Inr (raw, rest) \<Rightarrow> Inr (word_of_nat (le_value raw), rest))"

text \<open>The derived codecs of \<open>Vector\<close>, \<open>UnorderedMap\<close> and \<open>LazyOption\<close> (whose
  cache is \<open>#[borsh_skip]\<close>).\<close>

definition ser_vector :: "vector encoder" where
  "ser_vector v = enc_then (Inr (ser_u64 (vec_len v))) (ser_vec_u8 (vec_prefix v))"

definition de_vector :: "vector decoder" where
  "de_vector = dec_bind de_u64 (\<lambda>l. dec_bind de_vec_u8 (\<lambda>p rest. Inr (\<lparr>vec_len = l, vec_prefix = p\<rparr>, rest)))"

definition ser_umap :: "umap encoder" where
  "ser_umap m =
     enc_then (ser_vec_u8 (key_index_prefix m)) (enc_then (ser_vector (um_keys m)) (ser_vector (um_values m)))"

definition de_umap :: "umap decoder" where
  "de_umap =
     dec_bind de_vec_u8 (\<lambda>kip. dec_bind de_vector (\<lambda>ks. dec_bind de_vector (\<lambda>vs rest.
       Inr (\<lparr>key_index_prefix = kip, um_keys = ks, um_values = vs\<rparr>, rest))))"

definition ser_lazy :: "lazy_option encoder" where
  "ser_lazy lo = ser_vec_u8 (lo_storage_key lo)"

definition de_lazy :: "lazy_option decoder" where
  "de_lazy = dec_bind de_vec_u8 (\<lambda>k rest. Inr (\<lparr>lo_storage_key = k\<rparr>, rest))"

text \<open>\<open>#[derive(BorshSerialize, BorshDeserialize)]\<close> on \<open>Contract\<close> (line 7).\<close>

definition ser_contract :: "contract_struct encoder" where
  "ser_contract c =
     enc_then (ser_account_id (cs_owner_id c))
       (enc_then (ser_umap (cs_tokens_by_id c)) (ser_lazy (cs_metadata c)))"

definition de_contract :: "contract_struct decoder" where
  "de_contract =
     dec_bind de_account_id (\<lambda>ow. dec_bind de_umap (\<lambda>m. dec_bind de_lazy (\<lambda>lo rest.
       Inr (\<lparr>cs_owner_id = ow, cs_tokens_by_id = m, cs_metadata = lo\<rparr>, rest))))"

section \<open>The methods over the store\<close>

text \<open>\<open>Contract::new\<close> (lines 46--58): \<open>UnorderedMap::new\<close> writes nothing,
  \<open>LazyOption::new(.., Some(&metadata))\<close> writes the metadata.\<close>

definition new_store :: "account_id \<Rightarrow> string \<Rightarrow> string \<Rightarrow> store \<Rightarrow> panic + (contract_struct \<times> store)" where
  "new_store owner name' symbol' st =
     (let md = \<lparr>spec = nft_spec, name = name', symbol = symbol'\<rparr>
      in case lazy_new ser_nft_contract_metadata (storage_key_bytes Metadata) (Some md) st of
           Inl e \<Rightarrow> Inl e
         | Inr (lo, st') \<Rightarrow>
             Inr (\<lparr>cs_owner_id = owner, cs_tokens_by_id = umap_new (storage_key_bytes TokensById),
                   cs_metadata = lo\<rparr>, st'))"

text \<open>\<open>Contract::mint_nft\<close> (lines 60--72), with \<open>UnorderedMap::insert\<close>.\<close>

definition mint_nft_store ::
  "vm_context \<Rightarrow> string \<Rightarrow> token_metadata \<Rightarrow> contract_struct \<Rightarrow> store \<Rightarrow>
   panic + (contract_struct \<times> store \<times> string list)" where
  "mint_nft_store ctx token_id md c st =
     (let caller = predecessor_account_id ctx
      in if caller \<noteq> minter_account then Inl Unauthorized
         else
           let token = \<lparr>token_owner_id = caller, token_metadata = md\<rparr>
           in case umap_insert ser_string ser_token de_token token_id token (cs_tokens_by_id c) st of
                Inl e \<Rightarrow> Inl e
              | Inr (_, m', st') \<Rightarrow> Inr (c\<lparr>cs_tokens_by_id := m'\<rparr>, st', [mint_log token_id caller]))"

text \<open>\<open>Contract::nft_token\<close> (lines 75--77) and \<open>Contract::nft_metadata\<close> (lines
  80--82), with \<open>UnorderedMap::get\<close> and \<open>LazyOption::get\<close>.\<close>

definition nft_token_store :: "string \<Rightarrow> contract_struct \<Rightarrow> store \<Rightarrow> panic + token option" where
  "nft_token_store token_id c st = umap_get ser_string de_token token_id (cs_tokens_by_id c) st"

definition nft_metadata_store :: "contract_struct \<Rightarrow> store \<Rightarrow> panic + nft_contract_metadata" where
  "nft_metadata_store c st =
     (case lazy_get de_nft_contract_metadata (cs_metadata c) st of
        Inl e \<Rightarrow> Inl e
      | Inr None \<Rightarrow> Inl MetadataUninitialized
      | Inr (Some m) \<Rightarrow> Inr m)"

section \<open>The entry points over the store\<close>

definition state_key :: bytes where
  "state_key = bytes_of ''STATE''"

text \<open>\<open>env::state_read\<close> (with \<open>PanicOnDefault\<close> when there is no state) and
  \<open>env::state_write\<close>.\<close>

definition state_read_store :: "store \<Rightarrow> panic + contract_struct" where
  "state_read_store st =
     (case st state_key of
        None \<Rightarrow> Inl NotInitialized
      | Some b \<Rightarrow> (case try_from_slice de_contract b of Inl _ \<Rightarrow> Inl StateDeserialization | Inr c \<Rightarrow> Inr c))"

definition state_write_store :: "contract_struct \<Rightarrow> store \<Rightarrow> panic + store" where
  "state_write_store c st = (case ser_contract c of Inl _ \<Rightarrow> Inl ValueSerialization | Inr b \<Rightarrow> Inr (st(state_key \<mapsto> b)))"

fun dispatch_store :: "vm_context \<Rightarrow> call \<Rightarrow> store \<Rightarrow> panic + (store \<times> string list \<times> return_value)" where
  "dispatch_store ctx (Call_new ow n s) st =
     (case assert_no_deposit ctx ''new'' of
        Some e \<Rightarrow> Inl e
      | None \<Rightarrow>
          if st state_key \<noteq> None then Inl AlreadyInitialized
          else (case new_store ow n s st of
                  Inl e \<Rightarrow> Inl e
                | Inr (c, st') \<Rightarrow>
                    (case state_write_store c st' of Inl e \<Rightarrow> Inl e | Inr st'' \<Rightarrow> Inr (st'', [], Ret_unit))))"
| "dispatch_store ctx (Call_mint_nft t md) st =
     (case assert_no_deposit ctx ''mint_nft'' of
        Some e \<Rightarrow> Inl e
      | None \<Rightarrow>
          (case state_read_store st of
             Inl e \<Rightarrow> Inl e
           | Inr c \<Rightarrow>
               (case mint_nft_store ctx t md c st of
                  Inl e \<Rightarrow> Inl e
                | Inr (c', st', logs) \<Rightarrow>
                    (case state_write_store c' st' of Inl e \<Rightarrow> Inl e | Inr st'' \<Rightarrow> Inr (st'', logs, Ret_unit)))))"
| "dispatch_store ctx (Call_nft_token t) st =
     (case state_read_store st of
        Inl e \<Rightarrow> Inl e
      | Inr c \<Rightarrow> (case nft_token_store t c st of Inl e \<Rightarrow> Inl e | Inr r \<Rightarrow> Inr (st, [], Ret_token r)))"
| "dispatch_store ctx Call_nft_metadata st =
     (case state_read_store st of
        Inl e \<Rightarrow> Inl e
      | Inr c \<Rightarrow> (case nft_metadata_store c st of Inl e \<Rightarrow> Inl e | Inr m \<Rightarrow> Inr (st, [], Ret_metadata m)))"

definition execute_store :: "vm_context \<Rightarrow> call \<Rightarrow> store \<Rightarrow> store \<times> string list \<times> outcome" where
  "execute_store ctx cl st =
     (case dispatch_store ctx cl st of
        Inl e \<Rightarrow> (st, [], Failure e)
      | Inr (st', logs, r) \<Rightarrow> (st', logs, Success r))"

text \<open>Receipts on the account run in order over the store, as \<open>run\<close> runs them over the
  contract value.\<close>

fun run_store :: "(vm_context \<times> call) list \<Rightarrow> store \<Rightarrow> store" where
  "run_store [] st = st"
| "run_store ((ctx, cl) # cs) st = run_store cs (fst (execute_store ctx cl st))"

section \<open>Reading a store back\<close>

definition abs_store :: "store \<Rightarrow> chain_state" where
  "abs_store st =
     (case state_read_store st of
        Inl _ \<Rightarrow> None
      | Inr c \<Rightarrow>
          Some \<lparr>owner_id = cs_owner_id c,
                tokens_by_id = (\<lambda>t. case nft_token_store t c st of Inl _ \<Rightarrow> None | Inr r \<Rightarrow> r),
                metadata = (case lazy_get de_nft_contract_metadata (cs_metadata c) st of
                              Inl _ \<Rightarrow> None | Inr r \<Rightarrow> r)\<rparr>)"

section \<open>The invariant of a store\<close>

text \<open>
  A call's arguments as the JSON decoder delivers them: strings are UTF-8 and short
  enough for a \<open>u32\<close> length, and the owner given to \<open>new\<close> is a valid
  \<open>AccountId\<close> (the JSON decoder of \<open>AccountId\<close> validates it).
\<close>

definition rust_string :: "string \<Rightarrow> bool" where
  "rust_string s \<longleftrightarrow> utf8_string s \<and> length s < 2 ^ 32"

fun wf_call :: "call \<Rightarrow> bool" where
  "wf_call (Call_new ow n s) \<longleftrightarrow> valid_account_id ow \<and> rust_string n \<and> rust_string s"
| "wf_call (Call_mint_nft t md) \<longleftrightarrow>
     rust_string t \<and> pred_option rust_string (title md) \<and>
     pred_option rust_string (description md) \<and> pred_option rust_string (media md)"
| "wf_call (Call_nft_token t) \<longleftrightarrow> rust_string t"
| "wf_call Call_nft_metadata \<longleftrightarrow> True"

text \<open>
  A store as the contract leaves it: either the empty store of a fresh account, or a
  decodable \<open>STATE\<close> whose token map has the layout of prefix \<open>[0]\<close>
  (\<open>StorageKey::TokensById\<close>) and represents key and value lists whose values
  decode, and whose \<open>LazyOption\<close> at \<open>[1]\<close> (\<open>StorageKey::Metadata\<close>) holds
  decodable metadata.
\<close>

definition store_state ::
  "store \<Rightarrow> contract_struct \<Rightarrow> bytes list \<Rightarrow> bytes list \<Rightarrow> nft_contract_metadata \<Rightarrow> bool" where
  "store_state st c ks vs m \<longleftrightarrow>
     state_read_store st = Inr c \<and> valid_account_id (cs_owner_id c) \<and>
     umap_layout (storage_key_bytes TokensById) (cs_tokens_by_id c) \<and>
     umap_repr (cs_tokens_by_id c) st ks vs \<and> values_decode de_token vs \<and>
     cs_metadata c = \<lparr>lo_storage_key = storage_key_bytes Metadata\<rparr> \<and>
     lazy_get de_nft_contract_metadata (cs_metadata c) st = Inr (Some m)"

definition store_inv :: "store \<Rightarrow> bool" where
  "store_inv st \<longleftrightarrow> (\<forall>q. st q = None) \<or> (\<exists>c ks vs m. store_state st c ks vs m)"

text \<open>The token map has room for one more entry (its \<open>u64\<close> length is not maximal).\<close>

definition store_count :: "store \<Rightarrow> nat" where
  "store_count st =
     (case state_read_store st of
        Inl _ \<Rightarrow> 0
      | Inr c \<Rightarrow> unat (vec_len (um_keys (cs_tokens_by_id c))))"

definition store_room :: "store \<Rightarrow> bool" where
  "store_room st \<longleftrightarrow> store_count st < 2 ^ 64 - 1"

section \<open>Lemmas: the codec of the Contract struct\<close>

lemma roundtrip_vec_u8: "roundtrip (\<lambda>_. True) ser_vec_u8 de_vec_u8"
  unfolding roundtrip_def
proof (intro allI impI)
  fix bs b rest
  assume "ser_vec_u8 bs = Inr b"
  then have l: "length bs < 2 ^ 32" and b: "b = ser_u32 (word_of_nat (length bs)) @ bs"
    by (auto simp: ser_vec_u8_def split: if_splits)
  from l have "unat (word_of_nat (length bs) :: 32 word) = length bs" by (simp add: unat_of_nat)
  with b show "de_vec_u8 (b @ rest) = Inr (bs, rest)" by (simp add: de_vec_u8_def)
qed

lemma de_u64_ser_u64 [simp]: "de_u64 (ser_u64 w @ rest) = Inr (w, rest)"
  by (simp add: de_u64_def le_value_ser_u64)

lemma roundtrip_u64: "roundtrip (\<lambda>_. True) (\<lambda>w. Inr (ser_u64 w)) de_u64"
  by (simp add: roundtrip_def)

lemma roundtrip_vector: "roundtrip (\<lambda>_. True) ser_vector de_vector"
  unfolding roundtrip_def
proof (intro allI impI)
  fix v b rest
  assume "ser_vector v = Inr b"
  then obtain b2 where e2: "ser_vec_u8 (vec_prefix v) = Inr b2" and b: "b = ser_u64 (vec_len v) @ b2"
    by (auto simp: ser_vector_def enc_then_Inr_iff)
  show "de_vector (b @ rest) = Inr (v, rest)"
    unfolding b de_vector_def append_assoc
    by (simp add: dec_bind_roundtrip [OF roundtrip_u64, of "vec_len v", simplified]
        dec_bind_roundtrip [OF roundtrip_vec_u8 _ e2])
qed

lemma roundtrip_umap: "roundtrip (\<lambda>_. True) ser_umap de_umap"
  unfolding roundtrip_def
proof (intro allI impI)
  fix m b rest
  assume "ser_umap m = Inr b"
  then obtain b1 b2 b3 where e1: "ser_vec_u8 (key_index_prefix m) = Inr b1"
    and e2: "ser_vector (um_keys m) = Inr b2" and e3: "ser_vector (um_values m) = Inr b3"
    and b: "b = b1 @ b2 @ b3"
    by (auto simp: ser_umap_def enc_then_Inr_iff)
  show "de_umap (b @ rest) = Inr (m, rest)"
    unfolding b de_umap_def append_assoc
    by (simp add: dec_bind_roundtrip [OF roundtrip_vec_u8 _ e1]
        dec_bind_roundtrip [OF roundtrip_vector _ e2] dec_bind_roundtrip [OF roundtrip_vector _ e3])
qed

lemma roundtrip_lazy: "roundtrip (\<lambda>_. True) ser_lazy de_lazy"
  unfolding roundtrip_def
proof (intro allI impI)
  fix lo b rest
  assume e: "ser_lazy lo = Inr b"
  show "de_lazy (b @ rest) = Inr (lo, rest)"
    using e unfolding ser_lazy_def de_lazy_def
    by (simp add: dec_bind_roundtrip [OF roundtrip_vec_u8 _ e [unfolded ser_lazy_def]])
qed

lemma roundtrip_contract:
  "roundtrip (\<lambda>c. valid_account_id (cs_owner_id c)) ser_contract de_contract"
  unfolding roundtrip_def
proof (intro allI impI)
  fix c b rest
  assume v: "valid_account_id (cs_owner_id c)" and "ser_contract c = Inr b"
  then obtain b1 b2 b3 where e1: "ser_account_id (cs_owner_id c) = Inr b1"
    and e2: "ser_umap (cs_tokens_by_id c) = Inr b2" and e3: "ser_lazy (cs_metadata c) = Inr b3"
    and b: "b = b1 @ b2 @ b3"
    by (auto simp: ser_contract_def enc_then_Inr_iff)
  show "de_contract (b @ rest) = Inr (c, rest)"
    unfolding b de_contract_def append_assoc
    by (simp add: dec_bind_roundtrip [OF roundtrip_account_id v e1]
        dec_bind_roundtrip [OF roundtrip_umap _ e2] dec_bind_roundtrip [OF roundtrip_lazy _ e3])
qed

section \<open>Lemmas: frames, keys and the abstraction\<close>

lemma umap_repr_cong:
  assumes "umap_layout p m" and "\<forall>r. st' (p @ r) = st (p @ r)" and "umap_repr m st ks vs"
  shows "umap_repr m st' ks vs"
proof -
  have k: "\<And>i. st' (vec_key (um_keys m) i) = st (vec_key (um_keys m) i)"
    and v: "\<And>i. st' (vec_key (um_values m) i) = st (vec_key (um_values m) i)"
    and x: "\<And>k. st' (umap_index_key m k) = st (umap_index_key m k)"
    using assms(1,2) by (simp_all add: umap_layout_def vec_key_def umap_index_key_def)
  from assms(3) show ?thesis by (simp add: umap_repr_def k v x)
qed

lemma lazy_get_cong: "st' (lo_storage_key lo) = st (lo_storage_key lo) \<Longrightarrow> lazy_get dv lo st' = lazy_get dv lo st"
  by (simp add: lazy_get_def)

lemma state_key_bytes: "state_key = [83, 84, 65, 84, 69]"
  by (simp add: state_key_def bytes_of_def)

lemma state_key_not_tokens [simp]: "state_key \<noteq> storage_key_bytes TokensById @ r"
  by (simp add: state_key_bytes storage_key_bytes_def)

lemma tokens_not_state_key [simp]: "storage_key_bytes TokensById @ r \<noteq> state_key"
  using state_key_not_tokens by metis

lemma state_key_not_metadata [simp]: "state_key \<noteq> storage_key_bytes Metadata"
  by (simp add: state_key_bytes storage_key_bytes_def)

lemma metadata_not_state_key [simp]: "storage_key_bytes Metadata \<noteq> state_key"
  using state_key_not_metadata by metis

lemma metadata_not_tokens [simp]: "storage_key_bytes Metadata \<noteq> storage_key_bytes TokensById @ r"
  by (simp add: storage_key_bytes_def)

lemma tokens_not_metadata [simp]: "storage_key_bytes TokensById @ r \<noteq> storage_key_bytes Metadata"
  by (simp add: storage_key_bytes_def)

lemma ser_string_Inr: "length s < 2 ^ 32 \<Longrightarrow> \<exists>b. ser_string s = Inr b"
  by (simp add: ser_string_def)

lemma ser_option_string_Inr:
  "pred_option (\<lambda>s. length s < 2 ^ 32) x \<Longrightarrow> \<exists>b. ser_option ser_string x = Inr b"
  by (cases x) (auto simp: ser_option_def ser_string_def)


lemma ser_vec_u8_Inr: "length bs < 2 ^ 32 \<Longrightarrow> \<exists>b. ser_vec_u8 bs = Inr b"
  by (simp add: ser_vec_u8_def)

lemma valid_account_id_length: "valid_account_id a \<Longrightarrow> length a < 2 ^ 32"
  by (simp add: valid_account_id_def)

lemma ser_contract_Inr:
  assumes "valid_account_id (cs_owner_id c)" and "umap_layout (storage_key_bytes TokensById) (cs_tokens_by_id c)"
    and "cs_metadata c = \<lparr>lo_storage_key = storage_key_bytes Metadata\<rparr>"
  shows "\<exists>b. ser_contract c = Inr b"
proof -
  from assms(1) obtain b1 where b1: "ser_account_id (cs_owner_id c) = Inr b1"
    using valid_account_id_length ser_string_Inr by (metis ser_account_id_def)
  from assms(2) have "length (key_index_prefix (cs_tokens_by_id c)) = 2"
    "length (vec_prefix (um_keys (cs_tokens_by_id c))) = 2"
    "length (vec_prefix (um_values (cs_tokens_by_id c))) = 2"
    by (simp_all add: umap_layout_def storage_key_bytes_def)
  then obtain b2 where b2: "ser_umap (cs_tokens_by_id c) = Inr b2"
    by (simp add: ser_umap_def ser_vector_def enc_then_def ser_vec_u8_def)
  from assms(3) obtain b3 where b3: "ser_lazy (cs_metadata c) = Inr b3"
    by (simp add: ser_lazy_def ser_vec_u8_def storage_key_bytes_def)
  from b1 b2 b3 show ?thesis by (simp add: ser_contract_def enc_then_def)
qed

lemma state_write_read:
  assumes "valid_account_id (cs_owner_id c)" and "umap_layout (storage_key_bytes TokensById) (cs_tokens_by_id c)"
    and "cs_metadata c = \<lparr>lo_storage_key = storage_key_bytes Metadata\<rparr>"
  shows "\<exists>b. state_write_store c st = Inr (st(state_key \<mapsto> b)) \<and>
             state_read_store (st(state_key \<mapsto> b)) = Inr c"
proof -
  from ser_contract_Inr [OF assms] obtain b where b: "ser_contract c = Inr b" by blast
  from try_from_slice_roundtrip [OF roundtrip_contract assms(1) b]
  have d: "try_from_slice de_contract b = Inr c" .
  have "state_write_store c st = Inr (st(state_key \<mapsto> b))" using b by (simp add: state_write_store_def)
  moreover have "state_read_store (st(state_key \<mapsto> b)) = Inr c" using d by (simp add: state_read_store_def)
  ultimately show ?thesis by blast
qed

lemma abs_store_repr:
  assumes "state_read_store st = Inr c" and "umap_repr (cs_tokens_by_id c) st ks vs"
    and "values_decode de_token vs"
  shows "abs_store st =
           Some \<lparr>owner_id = cs_owner_id c, tokens_by_id = umap_view ser_string de_token ks vs,
                 metadata = (case lazy_get de_nft_contract_metadata (cs_metadata c) st of
                               Inl _ \<Rightarrow> None | Inr r \<Rightarrow> r)\<rparr>"
proof -
  have "(\<lambda>t. case nft_token_store t c st of Inl _ \<Rightarrow> None | Inr r \<Rightarrow> r) = umap_view ser_string de_token ks vs"
  proof
    fix t
    show "(case nft_token_store t c st of Inl _ \<Rightarrow> None | Inr r \<Rightarrow> r) = umap_view ser_string de_token ks vs t"
    proof (cases "ser_string t")
      case (Inl e)
      then show ?thesis
        by (simp add: nft_token_store_def umap_get_def ser_or_panic_def umap_view_def)
    next
      case (Inr kr)
      from umap_get_repr [where fk = ser_string and k = t, OF assms(2) Inr assms(3)] show ?thesis by (simp add: nft_token_store_def)
    qed
  qed
  with assms(1) show ?thesis by (simp add: abs_store_def)
qed

section \<open>Lemmas: the entry points over the store simulate the contract\<close>

lemma rust_string_utf8: "rust_string s \<Longrightarrow> utf8_string s"
  by (simp add: rust_string_def)

lemma utf8_nft_spec: "utf8_string nft_spec"
  by (simp add: utf8_string_def nft_spec_def bytes_of_def unat_of_nat)

lemma mint_args_wf:
  assumes "wf_call (Call_mint_nft t md)"
  shows "wf_token \<lparr>token_owner_id = minter_account, token_metadata = md\<rparr>"
    and "\<exists>vr. ser_token \<lparr>token_owner_id = minter_account, token_metadata = md\<rparr> = Inr vr"
    and "\<exists>kr. ser_string t = Inr kr"
proof -
  from assms have o: "pred_option rust_string (title md)" "pred_option rust_string (description md)"
    "pred_option rust_string (media md)" and t: "rust_string t" by simp_all
  from o show "wf_token \<lparr>token_owner_id = minter_account, token_metadata = md\<rparr>"
    by (auto simp: wf_token_def wf_token_metadata_def minter_account_def valid_minter rust_string_def
        elim: option.pred_mono_strong)
  have l: "pred_option (\<lambda>s. length s < 2 ^ 32) (title md)" "pred_option (\<lambda>s. length s < 2 ^ 32) (description md)"
    "pred_option (\<lambda>s. length s < 2 ^ 32) (media md)"
    using o by (auto simp: rust_string_def elim: option.pred_mono_strong)
  obtain b1 where "ser_option ser_string (title md) = Inr b1" using ser_option_string_Inr [OF l(1)] by blast
  moreover obtain b2 where "ser_option ser_string (description md) = Inr b2"
    using ser_option_string_Inr [OF l(2)] by blast
  moreover obtain b3 where "ser_option ser_string (media md) = Inr b3"
    using ser_option_string_Inr [OF l(3)] by blast
  moreover have "\<exists>b. ser_account_id minter_account = Inr b"
    by (simp add: ser_account_id_def ser_string_def minter_account_def)
  ultimately show "\<exists>vr. ser_token \<lparr>token_owner_id = minter_account, token_metadata = md\<rparr> = Inr vr"
    by (auto simp: ser_token_def ser_token_metadata_def enc_then_def)
  from t show "\<exists>kr. ser_string t = Inr kr" by (simp add: rust_string_def ser_string_def)
qed


lemma store_state_abs:
  assumes "store_state st c ks vs m"
  shows "abs_store st = Some \<lparr>owner_id = cs_owner_id c, tokens_by_id = umap_view ser_string de_token ks vs,
                               metadata = Some m\<rparr>"
  using assms abs_store_repr [of st c ks vs] unfolding store_state_def by clarsimp

lemma store_state_key: "store_state st c ks vs m \<Longrightarrow> st state_key \<noteq> None"
  by (auto simp: store_state_def state_read_store_def split: option.splits)

lemma sim_mint_authorized:
  assumes ss: "store_state st c ks vs m" and room: "length ks < 2 ^ 64 - 1"
    and wf: "wf_call (Call_mint_nft t md)"
    and caller: "predecessor_account_id ctx = minter_account" and dep: "attached_deposit ctx = 0"
  shows "\<exists>st'' c' ks' vs'. execute_store ctx (Call_mint_nft t md) st =
            (st'', [mint_log t minter_account], Success Ret_unit) \<and>
          store_state st'' c' ks' vs' m \<and> length ks' \<le> Suc (length ks) \<and>
          cs_owner_id c' = cs_owner_id c \<and>
          umap_view ser_string de_token ks' vs' =
            (umap_view ser_string de_token ks vs)(t \<mapsto> \<lparr>token_owner_id = minter_account, token_metadata = md\<rparr>) \<and>
          (\<forall>q. st'' q \<noteq> st q \<longrightarrow> q = state_key \<or> (\<exists>r. q = storage_key_bytes TokensById @ r))"
proof -
  let ?tok = "\<lparr>token_owner_id = minter_account, token_metadata = md\<rparr>"
  let ?m = "cs_tokens_by_id c"
  from ss have rd: "state_read_store st = Inr c" and va: "valid_account_id (cs_owner_id c)"
    and lay: "umap_layout (storage_key_bytes TokensById) ?m" and rep: "umap_repr ?m st ks vs"
    and vd: "values_decode de_token vs" and lo: "cs_metadata c = \<lparr>lo_storage_key = storage_key_bytes Metadata\<rparr>"
    and lg: "lazy_get de_nft_contract_metadata (cs_metadata c) st = Inr (Some m)"
    using ss unfolding store_state_def by blast+
  from mint_args_wf [OF wf] obtain vr kr where
    wt: "wf_token ?tok" and sv: "ser_token ?tok = Inr vr" and sk: "ser_string t = Inr kr" by blast
  have dv: "try_from_slice de_token vr = Inr ?tok" by (rule try_from_slice_roundtrip [OF roundtrip_token wt sv])
  obtain m' st' ks' vs' where
    ins: "umap_insert ser_string ser_token de_token t ?tok ?m st = Inr (umap_view ser_string de_token ks vs t, m', st')"
    and rep': "umap_repr m' st' ks' vs'" and lay': "umap_layout (storage_key_bytes TokensById) m'"
    and len': "length ks' \<le> Suc (length ks)" and vd': "values_decode de_token vs'"
    and view': "umap_view ser_string de_token ks' vs' = (umap_view ser_string de_token ks vs)(t \<mapsto> ?tok)"
    and fr: "\<forall>q. st' q \<noteq> st q \<longrightarrow> (\<exists>r. q = storage_key_bytes TokensById @ r)"
    using umap_insert_refines [where fk = ser_string and fv = ser_token and dv = de_token and k = t and v = ?tok,
                               OF rep lay room vd ser_string_inj sk sv dv] by blast
  let ?c' = "c\<lparr>cs_tokens_by_id := m'\<rparr>"
  have mint: "mint_nft_store ctx t md c st = Inr (?c', st', [mint_log t minter_account])"
    using ins caller by (simp add: mint_nft_store_def)
  obtain b where wr: "state_write_store ?c' st' = Inr (st'(state_key \<mapsto> b))"
    and rd': "state_read_store (st'(state_key \<mapsto> b)) = Inr ?c'"
    using state_write_read [of ?c' st'] va lay' lo by auto
  let ?st'' = "st'(state_key \<mapsto> b)"
  have ex: "execute_store ctx (Call_mint_nft t md) st = (?st'', [mint_log t minter_account], Success Ret_unit)"
    using dep rd mint wr by (simp add: execute_store_def assert_no_deposit_def)
  have rep'': "umap_repr m' ?st'' ks' vs'"
    by (rule umap_repr_cong [OF lay' _ rep']) simp
  have "st' (storage_key_bytes Metadata) = st (storage_key_bytes Metadata)"
    using fr metadata_not_tokens by metis
  then have lg'': "lazy_get de_nft_contract_metadata (cs_metadata ?c') ?st'' = Inr (Some m)"
    using lg lo by (simp add: lazy_get_def)
  have "store_state ?st'' ?c' ks' vs' m"
    using rd' va lay' rep'' vd' lo lg'' by (simp add: store_state_def)
  moreover have "\<forall>q. ?st'' q \<noteq> st q \<longrightarrow> q = state_key \<or> (\<exists>r. q = storage_key_bytes TokensById @ r)"
    using fr by auto
  ultimately show ?thesis using ex len' view' by fastforce
qed


lemma sim_new_fresh:
  assumes fresh: "\<forall>q. st q = None" and wf: "wf_call (Call_new ow n s)" and dep: "attached_deposit ctx = 0"
  shows "\<exists>st'' c. execute_store ctx (Call_new ow n s) st = (st'', [], Success Ret_unit) \<and>
           store_state st'' c [] [] \<lparr>spec = nft_spec, name = n, symbol = s\<rparr> \<and> cs_owner_id c = ow"
proof -
  let ?md = "\<lparr>spec = nft_spec, name = n, symbol = s\<rparr>"
  from wf have va: "valid_account_id ow" and rn: "rust_string n" and rs: "rust_string s" by simp_all
  have wmd: "wf_nft_contract_metadata ?md"
    using rn rs utf8_nft_spec by (simp add: wf_nft_contract_metadata_def rust_string_utf8)
  obtain mb where mb: "ser_nft_contract_metadata ?md = Inr mb"
    using rn rs by (simp add: ser_nft_contract_metadata_def enc_then_def ser_string_def rust_string_def
                              nft_spec_def split: sum.splits)
  let ?c = "\<lparr>cs_owner_id = ow, cs_tokens_by_id = umap_new (storage_key_bytes TokensById),
             cs_metadata = \<lparr>lo_storage_key = storage_key_bytes Metadata\<rparr>\<rparr>"
  let ?st' = "st(storage_key_bytes Metadata \<mapsto> mb)"
  have ns: "new_store ow n s st = Inr (?c, ?st')"
    using mb by (simp add: new_store_def lazy_new_def ser_or_panic_def)
  have lay: "umap_layout (storage_key_bytes TokensById) (cs_tokens_by_id ?c)"
    by (simp add: umap_layout_def umap_new_def vector_new_def)
  obtain b where wr: "state_write_store ?c ?st' = Inr (?st'(state_key \<mapsto> b))"
    and rd: "state_read_store (?st'(state_key \<mapsto> b)) = Inr ?c"
    using state_write_read [of ?c ?st'] va lay by auto
  let ?st'' = "?st'(state_key \<mapsto> b)"
  have ex: "execute_store ctx (Call_new ow n s) st = (?st'', [], Success Ret_unit)"
    using fresh dep ns wr by (simp add: execute_store_def assert_no_deposit_def)
  have rep: "umap_repr (cs_tokens_by_id ?c) ?st'' [] []"
    using fresh umap_repr_new_empty [of ?st'' "storage_key_bytes TokensById"] by simp
  have "try_from_slice de_nft_contract_metadata mb = Inr ?md"
    by (rule try_from_slice_roundtrip [OF roundtrip_nft_contract_metadata wmd mb])
  then have lg: "lazy_get de_nft_contract_metadata (cs_metadata ?c) ?st'' = Inr (Some ?md)"
    by (simp add: lazy_get_def de_or_panic_def)
  have "store_state ?st'' ?c [] [] ?md"
    using rd va lay rep lg by (simp add: store_state_def values_decode_def)
  with ex show ?thesis by fastforce
qed


lemma store_state_room:
  "store_state st c ks vs m \<Longrightarrow> store_room st \<Longrightarrow> length ks < 2 ^ 64 - 1"
  by (simp add: store_state_def store_room_def store_count_def umap_repr_def)

lemma store_state_count: "store_state st c ks vs m \<Longrightarrow> store_count st = length ks"
  by (simp add: store_state_def store_count_def umap_repr_def)

lemma sim_fresh:
  assumes fresh: "\<forall>q. st q = None" and wf: "wf_call cl"
    and ex: "execute_store ctx cl st = (st', logs, out)"
  shows "store_inv st' \<and> execute ctx cl (abs_store st) = (abs_store st', logs, out) \<and>
         store_count st' \<le> Suc (store_count st) \<and>
         (\<forall>q. st' q \<noteq> st q \<longrightarrow>
              (\<exists>ow n s. cl = Call_new ow n s) \<or> q = state_key \<or> (\<exists>r. q = storage_key_bytes TokensById @ r))"
proof -
  have rd: "state_read_store st = Inl NotInitialized" using fresh by (simp add: state_read_store_def)
  then have ab: "abs_store st = None" by (simp add: abs_store_def)
  have inv: "store_inv st" using fresh by (simp add: store_inv_def)
  show ?thesis
  proof (cases cl)
    case (Call_new ow n s)
    show ?thesis
    proof (cases "attached_deposit ctx = 0")
      case True
      from sim_new_fresh [OF fresh, of ow n s ctx] wf Call_new True obtain st'' c where
        e: "execute_store ctx cl st = (st'', [], Success Ret_unit)"
        and ss: "store_state st'' c [] [] \<lparr>spec = nft_spec, name = n, symbol = s\<rparr>" and o: "cs_owner_id c = ow"
        by auto
      have "abs_store st'' = Some (new ow n s)"
        using store_state_abs [OF ss] o by (simp add: new_def)
      with e ex ss True ab Call_new store_state_count [OF ss] show ?thesis
        by (auto simp: store_inv_def registry_simps)
    next
      case False
      with ex inv ab Call_new show ?thesis
        by (auto simp: execute_store_def assert_no_deposit_def registry_simps)
    qed
  qed (use ex inv ab rd in \<open>auto simp: execute_store_def assert_no_deposit_def registry_simps\<close>)
qed


lemma sim_state:
  assumes ss: "store_state st c ks vs m" and room: "store_room st" and wf: "wf_call cl"
    and ex: "execute_store ctx cl st = (st', logs, out)"
  shows "store_inv st' \<and> execute ctx cl (abs_store st) = (abs_store st', logs, out) \<and>
         store_count st' \<le> Suc (store_count st) \<and>
         (\<forall>q. st' q \<noteq> st q \<longrightarrow>
              (\<exists>ow n s. cl = Call_new ow n s) \<or> q = state_key \<or> (\<exists>r. q = storage_key_bytes TokensById @ r))"
proof -
  have rd: "state_read_store st = Inr c" using ss by (simp add: store_state_def)
  have ab: "abs_store st = Some \<lparr>owner_id = cs_owner_id c, tokens_by_id = umap_view ser_string de_token ks vs,
                                metadata = Some m\<rparr>"
    by (rule store_state_abs [OF ss])
  have inv: "store_inv st" using ss by (auto simp: store_inv_def)
  show ?thesis
  proof (cases cl)
    case (Call_new ow n s)
    then show ?thesis
      using ex inv ab store_state_key [OF ss]
      by (auto simp: execute_store_def assert_no_deposit_def registry_simps)
  next
    case (Call_mint_nft t md)
    show ?thesis
    proof (cases "attached_deposit ctx = 0 \<and> predecessor_account_id ctx = minter_account")
      case True
      from sim_mint_authorized [OF ss store_state_room [OF ss room], of t md ctx] wf Call_mint_nft True
      obtain st'' c' ks' vs' where
        e: "execute_store ctx cl st = (st'', [mint_log t minter_account], Success Ret_unit)"
        and ss': "store_state st'' c' ks' vs' m" and o: "cs_owner_id c' = cs_owner_id c"
        and l: "length ks' \<le> Suc (length ks)"
        and fr: "\<forall>q. st'' q \<noteq> st q \<longrightarrow> q = state_key \<or> (\<exists>r. q = storage_key_bytes TokensById @ r)"
        and v: "umap_view ser_string de_token ks' vs' =
                  (umap_view ser_string de_token ks vs)(t \<mapsto> \<lparr>token_owner_id = minter_account, token_metadata = md\<rparr>)"
        by auto
      have "abs_store st'' = Some \<lparr>owner_id = cs_owner_id c,
              tokens_by_id = (umap_view ser_string de_token ks vs)(t \<mapsto> \<lparr>token_owner_id = minter_account, token_metadata = md\<rparr>),
              metadata = Some m\<rparr>"
        using store_state_abs [OF ss'] o v by simp
      with e ex ss' True ab Call_mint_nft l fr store_state_count [OF ss] store_state_count [OF ss'] show ?thesis
        by (auto simp: store_inv_def registry_simps)
    next
      case False
      with ex inv ab rd Call_mint_nft show ?thesis
        by (auto simp: execute_store_def assert_no_deposit_def registry_simps mint_nft_store_def)
    qed
  next
    case (Call_nft_token t)
    from wf Call_nft_token obtain kr where "ser_string t = Inr kr"
      using ser_string_Inr by (auto simp: rust_string_def)
    then have "nft_token_store t c st = Inr (umap_view ser_string de_token ks vs t)"
      using ss by (simp add: nft_token_store_def store_state_def umap_get_repr)
    with ex inv ab rd Call_nft_token show ?thesis
      by (auto simp: execute_store_def registry_simps)
  next
    case Call_nft_metadata
    have "lazy_get de_nft_contract_metadata (cs_metadata c) st = Inr (Some m)"
      using ss unfolding store_state_def by blast
    then have "nft_metadata_store c st = Inr m"
      by (simp add: nft_metadata_store_def)
    with ex inv ab rd Call_nft_metadata show ?thesis
      by (auto simp: execute_store_def registry_simps)
  qed
qed

lemma execute_store_step:
  assumes "store_inv st" and "wf_call cl" and "store_room st"
    and "execute_store ctx cl st = (st', logs, out)"
  shows "store_inv st' \<and> execute ctx cl (abs_store st) = (abs_store st', logs, out) \<and>
         store_count st' \<le> Suc (store_count st) \<and>
         (\<forall>q. st' q \<noteq> st q \<longrightarrow>
              (\<exists>ow n s. cl = Call_new ow n s) \<or> q = state_key \<or> (\<exists>r. q = storage_key_bytes TokensById @ r))"
  using assms(1) [unfolded store_inv_def]
proof (elim disjE exE)
  assume "\<forall>q. st q = None"
  then show ?thesis using sim_fresh assms(2,4) by blast
next
  fix c ks vs m
  assume "store_state st c ks vs m"
  then show ?thesis using sim_state assms(2-4) by blast
qed

end
