(* ===== verification/Json.thy ===== *)
theory Json
  imports StoreContract
begin

text \<open>
  The JSON side of the contract: the \<open>serde\<close> derives \<open>Serialize\<close> and
  \<open>Deserialize\<close> of \<open>Token\<close>, \<open>TokenMetadata\<close> and \<open>NFTContractMetadata\<close>
  (lines 20--41), as \<open>serde_json\<close> drives them, and the input structs
  \<open>#[near_bindgen]\<close> derives from the parameter lists of \<open>new\<close>, \<open>mint_nft\<close> and
  \<open>nft_token\<close> to decode a call's arguments. A JSON document is the tree
  \<open>json\<close> in the order of its text: an object is the list of its entries, duplicates
  kept, as the derived visitor sees them. A derived \<open>visit_map\<close> reads the entries in
  order, rejects a second occurrence of a field, ignores unknown keys, and at the end
  reports the first missing field in declaration order, an absent \<open>Option\<close> field
  being \<open>None\<close>; \<open>visit_seq\<close> reads the fields from an array in declaration order,
  and \<open>serde_json\<close> rejects elements left over. Printing and parsing JSON text and
  numbers beyond their type are not modelled.
\<close>

section \<open>JSON values and errors\<close>

datatype json =
    JNull
  | JBool bool
  | JNumber int
  | JString string
  | JArray "json list"
  | JObject "(string \<times> json) list"

datatype json_error =
    InvalidType
  | MissingField string
  | DuplicateField string
  | InvalidLength nat
  | TrailingElements
  | InvalidAccountIdJson

type_synonym 'a json_decoder = "json \<Rightarrow> json_error + 'a"

section \<open>Primitive decoders\<close>

text \<open>\<open>String\<close>: a JSON string only.\<close>

definition de_json_string :: "string json_decoder" where
  "de_json_string j = (case j of JString s \<Rightarrow> Inr s | _ \<Rightarrow> Inl InvalidType)"

text \<open>\<open>Option<String>\<close> (\<open>deserialize_option\<close>): \<open>null\<close> is \<open>None\<close>, anything else
  is read as the inner type.\<close>

definition de_json_opt_string :: "string option json_decoder" where
  "de_json_opt_string j =
     (case j of JNull \<Rightarrow> Inr None | _ \<Rightarrow> (case de_json_string j of Inl e \<Rightarrow> Inl e | Inr s \<Rightarrow> Inr (Some s)))"

text \<open>\<open>near_sdk::AccountId\<close>: a string, then \<open>AccountId::validate\<close>.\<close>

definition de_json_account_id :: "account_id json_decoder" where
  "de_json_account_id j =
     (case de_json_string j of
        Inl e \<Rightarrow> Inl e
      | Inr s \<Rightarrow> if valid_account_id s then Inr s else Inl InvalidAccountIdJson)"

text \<open>The steps of a derived \<open>visit_seq\<close>: the next element, or the error
  \<open>invalid_length(i)\<close>; and \<open>serde_json\<close>'s check that the array has ended.\<close>

definition seq_next ::
  "json list \<Rightarrow> nat \<Rightarrow> 'a json_decoder \<Rightarrow> ('a \<Rightarrow> json list \<Rightarrow> json_error + 'r) \<Rightarrow> json_error + 'r" where
  "seq_next xs i d k =
     (case xs of [] \<Rightarrow> Inl (InvalidLength i) | x # xs' \<Rightarrow> (case d x of Inl e \<Rightarrow> Inl e | Inr a \<Rightarrow> k a xs'))"

definition seq_end :: "json list \<Rightarrow> 'r \<Rightarrow> json_error + 'r" where
  "seq_end xs r = (if xs = [] then Inr r else Inl TrailingElements)"

text \<open>A field seen at most once: the slot of a derived visitor.\<close>

definition opt_field :: "'a option option \<Rightarrow> 'a option" where
  "opt_field x = (case x of None \<Rightarrow> None | Some y \<Rightarrow> y)"

section \<open>TokenMetadata (lines 27--33)\<close>

definition json_of_opt_string :: "string option \<Rightarrow> json" where
  "json_of_opt_string x = (case x of None \<Rightarrow> JNull | Some s \<Rightarrow> JString s)"

definition json_of_token_metadata :: "token_metadata \<Rightarrow> json" where
  "json_of_token_metadata md =
     JObject [(''title'', json_of_opt_string (title md)),
              (''description'', json_of_opt_string (description md)),
              (''media'', json_of_opt_string (media md))]"

fun token_metadata_fields ::
  "(string \<times> json) list \<Rightarrow> string option option \<Rightarrow> string option option \<Rightarrow> string option option \<Rightarrow>
   json_error + token_metadata" where
  "token_metadata_fields [] t d m =
     Inr \<lparr>title = opt_field t, description = opt_field d, media = opt_field m\<rparr>"
| "token_metadata_fields ((k, v) # es) t d m =
     (if k = ''title'' then
        (if t \<noteq> None then Inl (DuplicateField ''title'')
         else case de_json_opt_string v of Inl e \<Rightarrow> Inl e | Inr x \<Rightarrow> token_metadata_fields es (Some x) d m)
      else if k = ''description'' then
        (if d \<noteq> None then Inl (DuplicateField ''description'')
         else case de_json_opt_string v of Inl e \<Rightarrow> Inl e | Inr x \<Rightarrow> token_metadata_fields es t (Some x) m)
      else if k = ''media'' then
        (if m \<noteq> None then Inl (DuplicateField ''media'')
         else case de_json_opt_string v of Inl e \<Rightarrow> Inl e | Inr x \<Rightarrow> token_metadata_fields es t d (Some x))
      else token_metadata_fields es t d m)"

definition de_json_token_metadata :: "token_metadata json_decoder" where
  "de_json_token_metadata j =
     (case j of
        JObject es \<Rightarrow> token_metadata_fields es None None None
      | JArray xs \<Rightarrow>
          seq_next xs 0 de_json_opt_string (\<lambda>t xs.
          seq_next xs 1 de_json_opt_string (\<lambda>d xs.
          seq_next xs 2 de_json_opt_string (\<lambda>m xs.
          seq_end xs \<lparr>title = t, description = d, media = m\<rparr>)))
      | _ \<Rightarrow> Inl InvalidType)"

section \<open>Token (lines 20--25)\<close>

definition json_of_token :: "token \<Rightarrow> json" where
  "json_of_token tok =
     JObject [(''owner_id'', JString (token_owner_id tok)),
              (''metadata'', json_of_token_metadata (token_metadata tok))]"

fun token_fields ::
  "(string \<times> json) list \<Rightarrow> account_id option \<Rightarrow> token_metadata option \<Rightarrow> json_error + token" where
  "token_fields [] ow md =
     (case ow of
        None \<Rightarrow> Inl (MissingField ''owner_id'')
      | Some a \<Rightarrow>
          (case md of
             None \<Rightarrow> Inl (MissingField ''metadata'')
           | Some m \<Rightarrow> Inr \<lparr>token_owner_id = a, token_metadata = m\<rparr>))"
| "token_fields ((k, v) # es) ow md =
     (if k = ''owner_id'' then
        (if ow \<noteq> None then Inl (DuplicateField ''owner_id'')
         else case de_json_account_id v of Inl e \<Rightarrow> Inl e | Inr a \<Rightarrow> token_fields es (Some a) md)
      else if k = ''metadata'' then
        (if md \<noteq> None then Inl (DuplicateField ''metadata'')
         else case de_json_token_metadata v of Inl e \<Rightarrow> Inl e | Inr m \<Rightarrow> token_fields es ow (Some m))
      else token_fields es ow md)"

definition de_json_token :: "token json_decoder" where
  "de_json_token j =
     (case j of
        JObject es \<Rightarrow> token_fields es None None
      | JArray xs \<Rightarrow>
          seq_next xs 0 de_json_account_id (\<lambda>a xs.
          seq_next xs 1 de_json_token_metadata (\<lambda>m xs.
          seq_end xs \<lparr>token_owner_id = a, token_metadata = m\<rparr>))
      | _ \<Rightarrow> Inl InvalidType)"

section \<open>NFTContractMetadata (lines 35--41)\<close>

definition json_of_nft_contract_metadata :: "nft_contract_metadata \<Rightarrow> json" where
  "json_of_nft_contract_metadata m =
     JObject [(''spec'', JString (spec m)), (''name'', JString (name m)), (''symbol'', JString (symbol m))]"

fun nft_contract_metadata_fields ::
  "(string \<times> json) list \<Rightarrow> string option \<Rightarrow> string option \<Rightarrow> string option \<Rightarrow>
   json_error + nft_contract_metadata" where
  "nft_contract_metadata_fields [] sp n sy =
     (case sp of
        None \<Rightarrow> Inl (MissingField ''spec'')
      | Some a \<Rightarrow>
          (case n of
             None \<Rightarrow> Inl (MissingField ''name'')
           | Some b \<Rightarrow>
               (case sy of
                  None \<Rightarrow> Inl (MissingField ''symbol'')
                | Some c \<Rightarrow> Inr \<lparr>spec = a, name = b, symbol = c\<rparr>)))"
| "nft_contract_metadata_fields ((k, v) # es) sp n sy =
     (if k = ''spec'' then
        (if sp \<noteq> None then Inl (DuplicateField ''spec'')
         else case de_json_string v of Inl e \<Rightarrow> Inl e | Inr a \<Rightarrow> nft_contract_metadata_fields es (Some a) n sy)
      else if k = ''name'' then
        (if n \<noteq> None then Inl (DuplicateField ''name'')
         else case de_json_string v of Inl e \<Rightarrow> Inl e | Inr a \<Rightarrow> nft_contract_metadata_fields es sp (Some a) sy)
      else if k = ''symbol'' then
        (if sy \<noteq> None then Inl (DuplicateField ''symbol'')
         else case de_json_string v of Inl e \<Rightarrow> Inl e | Inr a \<Rightarrow> nft_contract_metadata_fields es sp n (Some a))
      else nft_contract_metadata_fields es sp n sy)"

definition de_json_nft_contract_metadata :: "nft_contract_metadata json_decoder" where
  "de_json_nft_contract_metadata j =
     (case j of
        JObject es \<Rightarrow> nft_contract_metadata_fields es None None None
      | JArray xs \<Rightarrow>
          seq_next xs 0 de_json_string (\<lambda>a xs.
          seq_next xs 1 de_json_string (\<lambda>b xs.
          seq_next xs 2 de_json_string (\<lambda>c xs.
          seq_end xs \<lparr>spec = a, name = b, symbol = c\<rparr>)))
      | _ \<Rightarrow> Inl InvalidType)"

section \<open>Call arguments and return values (\<open>#[near_bindgen]\<close>)\<close>

text \<open>
  The wrapper of a method with parameters derives \<open>Deserialize\<close> for a struct of
  them (\<open>new\<close>, line 46: \<open>owner_id\<close>, \<open>name\<close>, \<open>symbol\<close>; \<open>mint_nft\<close>, line 60:
  \<open>token_id\<close>, \<open>metadata\<close>; \<open>nft_token\<close>, line 75: \<open>token_id\<close>) and reads it from
  \<open>env::input()\<close> with \<open>serde_json\<close>; \<open>nft_metadata\<close> reads no input.
\<close>

fun new_args_fields ::
  "(string \<times> json) list \<Rightarrow> account_id option \<Rightarrow> string option \<Rightarrow> string option \<Rightarrow> json_error + call" where
  "new_args_fields [] ow n sy =
     (case ow of
        None \<Rightarrow> Inl (MissingField ''owner_id'')
      | Some a \<Rightarrow>
          (case n of
             None \<Rightarrow> Inl (MissingField ''name'')
           | Some b \<Rightarrow> (case sy of None \<Rightarrow> Inl (MissingField ''symbol'') | Some c \<Rightarrow> Inr (Call_new a b c))))"
| "new_args_fields ((k, v) # es) ow n sy =
     (if k = ''owner_id'' then
        (if ow \<noteq> None then Inl (DuplicateField ''owner_id'')
         else case de_json_account_id v of Inl e \<Rightarrow> Inl e | Inr a \<Rightarrow> new_args_fields es (Some a) n sy)
      else if k = ''name'' then
        (if n \<noteq> None then Inl (DuplicateField ''name'')
         else case de_json_string v of Inl e \<Rightarrow> Inl e | Inr a \<Rightarrow> new_args_fields es ow (Some a) sy)
      else if k = ''symbol'' then
        (if sy \<noteq> None then Inl (DuplicateField ''symbol'')
         else case de_json_string v of Inl e \<Rightarrow> Inl e | Inr a \<Rightarrow> new_args_fields es ow n (Some a))
      else new_args_fields es ow n sy)"

fun mint_args_fields ::
  "(string \<times> json) list \<Rightarrow> string option \<Rightarrow> token_metadata option \<Rightarrow> json_error + call" where
  "mint_args_fields [] t md =
     (case t of
        None \<Rightarrow> Inl (MissingField ''token_id'')
      | Some a \<Rightarrow> (case md of None \<Rightarrow> Inl (MissingField ''metadata'') | Some m \<Rightarrow> Inr (Call_mint_nft a m)))"
| "mint_args_fields ((k, v) # es) t md =
     (if k = ''token_id'' then
        (if t \<noteq> None then Inl (DuplicateField ''token_id'')
         else case de_json_string v of Inl e \<Rightarrow> Inl e | Inr a \<Rightarrow> mint_args_fields es (Some a) md)
      else if k = ''metadata'' then
        (if md \<noteq> None then Inl (DuplicateField ''metadata'')
         else case de_json_token_metadata v of Inl e \<Rightarrow> Inl e | Inr m \<Rightarrow> mint_args_fields es t (Some m))
      else mint_args_fields es t md)"

fun nft_token_args_fields :: "(string \<times> json) list \<Rightarrow> string option \<Rightarrow> json_error + call" where
  "nft_token_args_fields [] t = (case t of None \<Rightarrow> Inl (MissingField ''token_id'') | Some a \<Rightarrow> Inr (Call_nft_token a))"
| "nft_token_args_fields ((k, v) # es) t =
     (if k = ''token_id'' then
        (if t \<noteq> None then Inl (DuplicateField ''token_id'')
         else case de_json_string v of Inl e \<Rightarrow> Inl e | Inr a \<Rightarrow> nft_token_args_fields es (Some a))
      else nft_token_args_fields es t)"

text \<open>The exported method a receipt names and its JSON input; \<open>None\<close> for a name the
  contract does not export (the host's \<open>MethodNotFound\<close>).\<close>

definition decode_call :: "string \<Rightarrow> json \<Rightarrow> (json_error + call) option" where
  "decode_call meth j =
     (if meth = ''new'' then
        Some (case j of
                JObject es \<Rightarrow> new_args_fields es None None None
              | JArray xs \<Rightarrow>
                  seq_next xs 0 de_json_account_id (\<lambda>a xs.
                  seq_next xs 1 de_json_string (\<lambda>b xs.
                  seq_next xs 2 de_json_string (\<lambda>c xs. seq_end xs (Call_new a b c))))
              | _ \<Rightarrow> Inl InvalidType)
      else if meth = ''mint_nft'' then
        Some (case j of
                JObject es \<Rightarrow> mint_args_fields es None None
              | JArray xs \<Rightarrow>
                  seq_next xs 0 de_json_string (\<lambda>a xs.
                  seq_next xs 1 de_json_token_metadata (\<lambda>m xs. seq_end xs (Call_mint_nft a m)))
              | _ \<Rightarrow> Inl InvalidType)
      else if meth = ''nft_token'' then
        Some (case j of
                JObject es \<Rightarrow> nft_token_args_fields es None
              | JArray xs \<Rightarrow> seq_next xs 0 de_json_string (\<lambda>a xs. seq_end xs (Call_nft_token a))
              | _ \<Rightarrow> Inl InvalidType)
      else if meth = ''nft_metadata'' then Some (Inr Call_nft_metadata)
      else None)"

text \<open>The JSON a receipt returns (\<open>env::value_return\<close>): none for \<open>()\<close>, \<open>null\<close> or
  the token for \<open>Option<Token>\<close>, the metadata object.\<close>

definition json_of_return :: "return_value \<Rightarrow> json option" where
  "json_of_return r =
     (case r of
        Ret_unit \<Rightarrow> None
      | Ret_token t \<Rightarrow> Some (case t of None \<Rightarrow> JNull | Some tok \<Rightarrow> json_of_token tok)
      | Ret_metadata m \<Rightarrow> Some (json_of_nft_contract_metadata m))"

text \<open>A JSON input as \<open>serde_json\<close> hands it over: every string a Rust \<open>String\<close>
  (UTF-8, its length within \<open>u32\<close>).\<close>

fun json_strings_ok :: "json \<Rightarrow> bool" where
  "json_strings_ok (JString s) \<longleftrightarrow> rust_string s"
| "json_strings_ok (JArray xs) \<longleftrightarrow> list_all json_strings_ok xs"
| "json_strings_ok (JObject es) \<longleftrightarrow> list_all (\<lambda>e. json_strings_ok (snd e)) es"
| "json_strings_ok _ \<longleftrightarrow> True"

section \<open>Receipts with JSON arguments\<close>

text \<open>
  The full wrapper of an exported method: a mutating method (\<open>new\<close>,
  \<open>mint_nft\<close>) first rejects a deposit, then the arguments are read, then the
  method runs as in \<open>execute\<close>; arguments that do not decode panic with
  \<open>ArgsDeserialization\<close>. \<open>execute_json\<close> runs on the contract value,
  \<open>execute_json_store\<close> on the store.
\<close>

definition json_failure :: "vm_context \<Rightarrow> string \<Rightarrow> json \<Rightarrow> panic option" where
  "json_failure ctx meth j =
     (case decode_call meth j of
        None \<Rightarrow> Some MethodNotFound
      | Some (Inl _) \<Rightarrow>
          (if meth \<in> {''new'', ''mint_nft''} then
             (case assert_no_deposit ctx meth of Some e \<Rightarrow> Some e | None \<Rightarrow> Some ArgsDeserialization)
           else Some ArgsDeserialization)
      | Some (Inr _) \<Rightarrow> None)"

definition execute_json :: "vm_context \<Rightarrow> string \<Rightarrow> json \<Rightarrow> chain_state \<Rightarrow> chain_state \<times> string list \<times> outcome" where
  "execute_json ctx meth j st =
     (case decode_call meth j of
        Some (Inr cl) \<Rightarrow> execute ctx cl st
      | _ \<Rightarrow> (st, [], Failure (the (json_failure ctx meth j))))"

definition execute_json_store :: "vm_context \<Rightarrow> string \<Rightarrow> json \<Rightarrow> store \<Rightarrow> store \<times> string list \<times> outcome" where
  "execute_json_store ctx meth j st =
     (case decode_call meth j of
        Some (Inr cl) \<Rightarrow> execute_store ctx cl st
      | _ \<Rightarrow> (st, [], Failure (the (json_failure ctx meth j))))"

fun run_json :: "(vm_context \<times> string \<times> json) list \<Rightarrow> chain_state \<Rightarrow> chain_state" where
  "run_json [] st = st"
| "run_json ((ctx, meth, j) # rs) st = run_json rs (fst (execute_json ctx meth j st))"

fun run_json_store :: "(vm_context \<times> string \<times> json) list \<Rightarrow> store \<Rightarrow> store" where
  "run_json_store [] st = st"
| "run_json_store ((ctx, meth, j) # rs) st = run_json_store rs (fst (execute_json_store ctx meth j st))"

section \<open>Specifications of the decoders\<close>

text \<open>The metadata strings of a call as \<open>wf_call\<close> asks for them.\<close>

definition metadata_ok :: "token_metadata \<Rightarrow> bool" where
  "metadata_ok md \<longleftrightarrow>
     pred_option rust_string (title md) \<and> pred_option rust_string (description md) \<and>
     pred_option rust_string (media md)"

text \<open>A field of an object read by lookup: the value of its (unique) entry, absent or
  \<open>null\<close> meaning \<open>None\<close>.\<close>

definition field_opt_string :: "string \<Rightarrow> (string \<times> json) list \<Rightarrow> string option" where
  "field_opt_string k es =
     (case map_of es k of None \<Rightarrow> None | Some v \<Rightarrow> (case de_json_opt_string v of Inl _ \<Rightarrow> None | Inr x \<Rightarrow> x))"

section \<open>Lemmas: the derived JSON codecs\<close>

lemma de_json_opt_string_json [simp]: "de_json_opt_string (json_of_opt_string x) = Inr x"
  by (cases x) (simp_all add: de_json_opt_string_def json_of_opt_string_def de_json_string_def)

lemma de_json_token_metadata_json [simp]: "de_json_token_metadata (json_of_token_metadata md) = Inr md"
  by (simp add: de_json_token_metadata_def json_of_token_metadata_def opt_field_def)

lemma de_json_account_id_valid: "valid_account_id a \<Longrightarrow> de_json_account_id (JString a) = Inr a"
  by (simp add: de_json_account_id_def de_json_string_def)

text \<open>
  C21. The derived JSON form of a \<open>Token\<close> (an object with \<open>owner_id\<close> and
  \<open>metadata\<close>, \<open>null\<close> for an absent metadata field) reads back as the same token
  whenever its owner is a valid \<open>AccountId\<close>, as every stored token's owner is.
\<close>

theorem json_token_roundtrip:
  "valid_account_id (token_owner_id tok) \<Longrightarrow> de_json_token (json_of_token tok) = Inr tok"
  by (simp add: de_json_token_def json_of_token_def de_json_account_id_valid)

text \<open>
  C22. The JSON object \<open>nft_metadata\<close> returns (\<open>spec\<close>, \<open>name\<close>,
  \<open>symbol\<close>) reads back as the same \<open>NFTContractMetadata\<close>.
\<close>

theorem json_nft_contract_metadata_roundtrip:
  "de_json_nft_contract_metadata (json_of_nft_contract_metadata m) = Inr m"
  by (simp add: de_json_nft_contract_metadata_def json_of_nft_contract_metadata_def de_json_string_def)

section \<open>Lemmas: decoded arguments are well formed\<close>

lemma de_json_string_ok: "de_json_string j = Inr s \<Longrightarrow> json_strings_ok j \<Longrightarrow> rust_string s"
  by (cases j) (simp_all add: de_json_string_def)

lemma de_json_opt_string_ok:
  "de_json_opt_string j = Inr x \<Longrightarrow> json_strings_ok j \<Longrightarrow> pred_option rust_string x"
  by (cases j) (auto simp: de_json_opt_string_def de_json_string_def)

lemma de_json_account_id_ok: "de_json_account_id j = Inr a \<Longrightarrow> valid_account_id a"
  by (auto simp: de_json_account_id_def split: sum.splits if_splits)

lemma seq_next_Inr:
  "seq_next xs i d k = Inr r \<Longrightarrow> \<exists>x xs' a. xs = x # xs' \<and> d x = Inr a \<and> k a xs' = Inr r"
  by (auto simp: seq_next_def split: list.splits sum.splits)

lemma seq_end_Inr: "seq_end xs r = Inr r' \<Longrightarrow> xs = [] \<and> r' = r"
  by (simp add: seq_end_def split: if_splits)

lemma token_metadata_fields_ok:
  "token_metadata_fields es t d m = Inr md \<Longrightarrow> list_all (\<lambda>e. json_strings_ok (snd e)) es \<Longrightarrow>
   pred_option (pred_option rust_string) t \<Longrightarrow> pred_option (pred_option rust_string) d \<Longrightarrow>
   pred_option (pred_option rust_string) m \<Longrightarrow> metadata_ok md"
proof (induction es t d m rule: token_metadata_fields.induct)
  case (1 t d m)
  then show ?case by (cases t; cases d; cases m) (auto simp: metadata_ok_def opt_field_def)
next
  case (2 k v es t d m)
  then show ?case
    by (auto simp: de_json_opt_string_ok split: if_splits sum.splits)
qed

lemma de_json_token_metadata_ok:
  "de_json_token_metadata j = Inr md \<Longrightarrow> json_strings_ok j \<Longrightarrow> metadata_ok md"
proof (cases j)
  case (JArray xs)
  assume "de_json_token_metadata j = Inr md" and "json_strings_ok j"
  with JArray show ?thesis
    by (auto simp: de_json_token_metadata_def metadata_ok_def dest!: seq_next_Inr seq_end_Inr
             intro: de_json_opt_string_ok)
next
  case (JObject es)
  assume "de_json_token_metadata j = Inr md" and "json_strings_ok j"
  with JObject show ?thesis
    by (auto simp: de_json_token_metadata_def intro: token_metadata_fields_ok)
qed (simp_all add: de_json_token_metadata_def)


lemma new_args_fields_ok:
  "new_args_fields es ow n sy = Inr cl \<Longrightarrow> list_all (\<lambda>e. json_strings_ok (snd e)) es \<Longrightarrow>
   pred_option valid_account_id ow \<Longrightarrow> pred_option rust_string n \<Longrightarrow> pred_option rust_string sy \<Longrightarrow>
   wf_call cl"
proof (induction es ow n sy rule: new_args_fields.induct)
  case (1 ow n sy)
  then show ?case by (auto split: option.splits)
next
  case (2 k v es ow n sy)
  then show ?case
    by (auto simp: de_json_string_ok de_json_account_id_ok split: if_splits sum.splits)
qed

lemma mint_args_fields_ok:
  "mint_args_fields es t md = Inr cl \<Longrightarrow> list_all (\<lambda>e. json_strings_ok (snd e)) es \<Longrightarrow>
   pred_option rust_string t \<Longrightarrow> pred_option metadata_ok md \<Longrightarrow> wf_call cl"
proof (induction es t md rule: mint_args_fields.induct)
  case (1 t md)
  then show ?case by (auto simp: metadata_ok_def split: option.splits)
next
  case (2 k v es t md)
  then show ?case
    by (auto simp: de_json_string_ok de_json_token_metadata_ok split: if_splits sum.splits)
qed

lemma nft_token_args_fields_ok:
  "nft_token_args_fields es t = Inr cl \<Longrightarrow> list_all (\<lambda>e. json_strings_ok (snd e)) es \<Longrightarrow>
   pred_option rust_string t \<Longrightarrow> wf_call cl"
proof (induction es t rule: nft_token_args_fields.induct)
  case (1 t)
  then show ?case by (auto split: option.splits)
next
  case (2 k v es t)
  then show ?case by (auto simp: de_json_string_ok split: if_splits sum.splits)
qed

lemma decoded_call_wf:
  assumes "decode_call meth j = Some (Inr cl)" and "json_strings_ok j"
  shows "wf_call cl"
proof (cases j)
  case (JArray xs)
  with assms show ?thesis
    by (auto simp: decode_call_def split: if_splits dest!: seq_next_Inr seq_end_Inr
             dest: de_json_string_ok de_json_account_id_ok de_json_token_metadata_ok [unfolded metadata_ok_def])
next
  case (JObject es)
  with assms show ?thesis
    by (auto simp: decode_call_def split: if_splits
             intro: new_args_fields_ok mint_args_fields_ok nft_token_args_fields_ok)
qed (use assms in \<open>auto simp: decode_call_def split: if_splits\<close>)

text \<open>
  C23. Every call the generated wrappers decode from a JSON input whose strings are Rust
  strings satisfies \<open>wf_call\<close>: the owner given to \<open>new\<close> is a valid
  \<open>AccountId\<close> (its \<open>Deserialize\<close> validates) and every string is UTF-8 within
  the \<open>u32\<close> length, so the premise of the store-level simulation is met.
\<close>

theorem decode_call_wf:
  assumes "decode_call meth j = Some (Inr cl)" and "json_strings_ok j"
  shows "wf_call cl"
  using decoded_call_wf [OF assms] .

section \<open>Lemmas: the derived visitor of TokenMetadata\<close>

lemma field_opt_string_Cons:
  "field_opt_string k' ((k, v) # es) =
     (if k' = k then (case de_json_opt_string v of Inl _ \<Rightarrow> None | Inr x \<Rightarrow> x) else field_opt_string k' es)"
  by (simp add: field_opt_string_def)

lemma token_metadata_fields_lookup:
  assumes "distinct (map fst es)"
    and "\<forall>(k, v)\<in>set es. k \<in> {''title'', ''description'', ''media''} \<longrightarrow> (\<exists>x. de_json_opt_string v = Inr x)"
    and "''title'' \<in> fst ` set es \<longrightarrow> t = None" and "''description'' \<in> fst ` set es \<longrightarrow> d = None"
    and "''media'' \<in> fst ` set es \<longrightarrow> m = None"
  shows "token_metadata_fields es t d m =
           Inr \<lparr>title = if ''title'' \<in> fst ` set es then field_opt_string ''title'' es else opt_field t,
                description = if ''description'' \<in> fst ` set es then field_opt_string ''description'' es else opt_field d,
                media = if ''media'' \<in> fst ` set es then field_opt_string ''media'' es else opt_field m\<rparr>"
  using assms
proof (induction es arbitrary: t d m)
  case Nil
  then show ?case by simp
next
  case (Cons e es)
  obtain k v where e: "e = (k, v)" by fastforce
  from Cons.prems(1) e have nk: "k \<notin> fst ` set es" and dist: "distinct (map fst es)" by auto
  from Cons.prems(2) e have dec: "k \<in> {''title'', ''description'', ''media''} \<Longrightarrow> \<exists>x. de_json_opt_string v = Inr x"
    and decs: "\<forall>(k, v)\<in>set es. k \<in> {''title'', ''description'', ''media''} \<longrightarrow> (\<exists>x. de_json_opt_string v = Inr x)"
    by auto
  note IH = Cons.IH [OF dist decs]
  consider (t) "k = ''title''" | (d) "k = ''description''" | (m) "k = ''media''"
    | (other) "k \<noteq> ''title''" "k \<noteq> ''description''" "k \<noteq> ''media''" by blast
  then show ?case
  proof cases
    case t
    with dec obtain x where x: "de_json_opt_string v = Inr x" by auto
    have "t = None" using Cons.prems(3) e t by simp
    with x t e have step: "token_metadata_fields (e # es) t d m = token_metadata_fields es (Some x) d m" by simp
    have p1: "''title'' \<in> fst ` set es \<longrightarrow> Some x = None" using nk t by simp
    have p2: "''description'' \<in> fst ` set es \<longrightarrow> d = None" using Cons.prems(4) by auto
    have p3: "''media'' \<in> fst ` set es \<longrightarrow> m = None" using Cons.prems(5) by auto
    show ?thesis using step IH [OF p1 p2 p3] x e t nk by (simp add: field_opt_string_Cons opt_field_def)
  next
    case d
    with dec obtain x where x: "de_json_opt_string v = Inr x" by auto
    have "d = None" using Cons.prems(4) e d by simp
    with x d e have step: "token_metadata_fields (e # es) t d m = token_metadata_fields es t (Some x) m" by simp
    have p1: "''title'' \<in> fst ` set es \<longrightarrow> t = None" using Cons.prems(3) by auto
    have p2: "''description'' \<in> fst ` set es \<longrightarrow> Some x = None" using nk d by simp
    have p3: "''media'' \<in> fst ` set es \<longrightarrow> m = None" using Cons.prems(5) by auto
    show ?thesis using step IH [OF p1 p2 p3] x e d nk by (simp add: field_opt_string_Cons opt_field_def)
  next
    case m
    with dec obtain x where x: "de_json_opt_string v = Inr x" by auto
    have "m = None" using Cons.prems(5) e m by simp
    with x m e have step: "token_metadata_fields (e # es) t d m = token_metadata_fields es t d (Some x)" by simp
    have p1: "''title'' \<in> fst ` set es \<longrightarrow> t = None" using Cons.prems(3) by auto
    have p2: "''description'' \<in> fst ` set es \<longrightarrow> d = None" using Cons.prems(4) by auto
    have p3: "''media'' \<in> fst ` set es \<longrightarrow> Some x = None" using nk m by simp
    show ?thesis using step IH [OF p1 p2 p3] x e m nk by (simp add: field_opt_string_Cons opt_field_def)
  next
    case other
    then have step: "token_metadata_fields (e # es) t d m = token_metadata_fields es t d m" using e by simp
    have p1: "''title'' \<in> fst ` set es \<longrightarrow> t = None" using Cons.prems(3) by auto
    have p2: "''description'' \<in> fst ` set es \<longrightarrow> d = None" using Cons.prems(4) by auto
    have p3: "''media'' \<in> fst ` set es \<longrightarrow> m = None" using Cons.prems(5) by auto
    show ?thesis using step IH [OF p1 p2 p3] e other by (simp add: field_opt_string_Cons)
  qed
qed


lemma field_opt_string_absent: "k \<notin> fst ` set es \<Longrightarrow> field_opt_string k es = None"
  by (simp add: field_opt_string_def map_of_eq_None_iff [THEN iffD2])

text \<open>
  C24. On an object with distinct keys whose known fields hold \<open>null\<close> or strings,
  the derived \<open>visit_map\<close> of \<open>TokenMetadata\<close> equals reading each field by
  lookup: unknown keys are ignored and an absent field is \<open>None\<close>.
\<close>

theorem json_metadata_lookup:
  assumes "distinct (map fst es)"
    and "\<forall>(k, v)\<in>set es. k \<in> {''title'', ''description'', ''media''} \<longrightarrow> (\<exists>x. de_json_opt_string v = Inr x)"
  shows "de_json_token_metadata (JObject es) =
           Inr \<lparr>title = field_opt_string ''title'' es, description = field_opt_string ''description'' es,
                media = field_opt_string ''media'' es\<rparr>"
  using token_metadata_fields_lookup [OF assms, of None None None]
  by (simp add: de_json_token_metadata_def opt_field_def field_opt_string_absent)

lemma token_metadata_fields_once:
  "token_metadata_fields es t d m = Inr md \<Longrightarrow>
   length (filter (\<lambda>e. fst e = ''title'') es) \<le> (if t = None then 1 else 0) \<and>
   length (filter (\<lambda>e. fst e = ''description'') es) \<le> (if d = None then 1 else 0) \<and>
   length (filter (\<lambda>e. fst e = ''media'') es) \<le> (if m = None then 1 else 0)"
proof (induction es arbitrary: t d m)
  case Nil
  then show ?case by simp
next
  case (Cons e es)
  obtain k v where e: "e = (k, v)" by fastforce
  from Cons.prems e show ?case
    by (auto split: if_splits sum.splits dest!: Cons.IH)
qed

text \<open>
  C25. A \<open>TokenMetadata\<close> object that decodes has each of \<open>title\<close>,
  \<open>description\<close>, \<open>media\<close> at most once: a repeated field is rejected
  (\<open>duplicate_field\<close>), not resolved by the first or last occurrence.
\<close>

theorem json_metadata_no_duplicates:
  assumes "de_json_token_metadata (JObject es) = Inr md" and "k \<in> {''title'', ''description'', ''media''}"
  shows "length (filter (\<lambda>e. fst e = k) es) \<le> 1"
  using token_metadata_fields_once [of es None None None md] assms by (auto simp: de_json_token_metadata_def)

section \<open>Lemmas: receipts with JSON arguments over the store\<close>

lemma execute_json_store_step:
  assumes "store_inv st" and "json_strings_ok j" and "store_room st"
    and "execute_json_store ctx meth j st = (st', logs, out)"
  shows "store_inv st' \<and> execute_json ctx meth j (abs_store st) = (abs_store st', logs, out) \<and>
         store_count st' \<le> Suc (store_count st)"
proof (cases "decode_call meth j")
  case None
  with assms show ?thesis by (auto simp: execute_json_store_def execute_json_def)
next
  case (Some r)
  show ?thesis
  proof (cases r)
    case (Inl e)
    with Some assms show ?thesis by (auto simp: execute_json_store_def execute_json_def)
  next
    case (Inr cl)
    with Some have d: "decode_call meth j = Some (Inr cl)" by simp
    have "wf_call cl" by (rule decoded_call_wf [OF d assms(2)])
    from execute_store_step [OF assms(1) this assms(3)] assms(4) d show ?thesis
      by (simp add: execute_json_store_def execute_json_def)
  qed
qed

section \<open>Witnesses\<close>

theorem json_token_roundtrip_witness:
  "de_json_token (json_of_token \<lparr>token_owner_id = ''gelezako.testnet'',
       token_metadata = \<lparr>title = Some ''A'', description = None, media = None\<rparr>\<rparr>) =
     Inr \<lparr>token_owner_id = ''gelezako.testnet'',
          token_metadata = \<lparr>title = Some ''A'', description = None, media = None\<rparr>\<rparr>"
  using json_token_roundtrip [of "\<lparr>token_owner_id = ''gelezako.testnet'',
       token_metadata = \<lparr>title = Some ''A'', description = None, media = None\<rparr>\<rparr>"] valid_minter
  by simp

theorem decode_call_wf_witness:
  "decode_call ''mint_nft'' (JObject [(''token_id'', JString ''t1''), (''metadata'', JObject [(''title'', JString ''A'')])])
     = Some (Inr (Call_mint_nft ''t1'' \<lparr>title = Some ''A'', description = None, media = None\<rparr>)) \<and>
   wf_call (Call_mint_nft ''t1'' \<lparr>title = Some ''A'', description = None, media = None\<rparr>)"
proof -
  let ?j = "JObject [(''token_id'', JString ''t1''), (''metadata'', JObject [(''title'', JString ''A'')])]"
  have d: "decode_call ''mint_nft'' ?j
     = Some (Inr (Call_mint_nft ''t1'' \<lparr>title = Some ''A'', description = None, media = None\<rparr>))"
    by (simp add: decode_call_def de_json_string_def de_json_token_metadata_def de_json_opt_string_def opt_field_def)
  have ok: "json_strings_ok ?j" by (simp add: rust_string_def utf8_string_def bytes_of_def)
  from d decode_call_wf [OF d ok] show ?thesis by simp
qed

theorem json_metadata_lookup_witness:
  "de_json_token_metadata (JObject [(''media'', JString ''u''), (''title'', JNull), (''x'', JNumber 1)]) =
     Inr \<lparr>title = None, description = None, media = Some ''u''\<rparr>"
proof -
  let ?es = "[(''media'', JString ''u''), (''title'', JNull), (''x'', JNumber 1)]"
  have "distinct (map fst ?es)" by simp
  moreover have "\<forall>(k, v)\<in>set ?es. k \<in> {''title'', ''description'', ''media''} \<longrightarrow> (\<exists>x. de_json_opt_string v = Inr x)"
    by (simp add: de_json_opt_string_def de_json_string_def)
  ultimately show ?thesis
    using json_metadata_lookup [of ?es] by (simp add: field_opt_string_def de_json_opt_string_def de_json_string_def)
qed

theorem json_metadata_no_duplicates_witness:
  "de_json_token_metadata (JObject [(''title'', JString ''a''), (''title'', JString ''b'')]) =
     Inl (DuplicateField ''title'') \<and>
   length (filter (\<lambda>e. fst e = ''title'') [(''title'', JString ''b'')]) \<le> 1"
proof -
  have "de_json_token_metadata (JObject [(''title'', JString ''b'')]) = Inr \<lparr>title = Some ''b'', description = None, media = None\<rparr>"
    by (simp add: de_json_token_metadata_def de_json_opt_string_def de_json_string_def opt_field_def)
  from json_metadata_no_duplicates [OF this, of "''title''"]
  show ?thesis by (simp add: de_json_token_metadata_def de_json_opt_string_def de_json_string_def)
qed

end
