(* ===== verification/Spec2Isabelle.thy ===== *)
theory Spec2Isabelle
  imports Json
begin

text \<open>
  \<^bold>\<open>A verification library for the NEAR NFT registry contract\<close>
  (\<open>src/src/lib.rs\<close>, 82 lines of Rust on \<open>near_sdk\<close>).

  \<^bold>\<open>The program.\<close> One contract, \<open>Contract\<close>, keeps an owner account id, an
  \<open>UnorderedMap<String, Token>\<close> of tokens and a \<open>LazyOption<NFTContractMetadata>\<close>.
  \<open>new\<close> (an \<open>#[init]\<close> method) creates it; \<open>mint_nft\<close> stores a token for an id,
  but only when the caller is the literal account \<open>gelezako.testnet\<close>, and logs
  \<open>Token {id} minted for {caller}\<close>; \<open>nft_token\<close> and \<open>nft_metadata\<close> read.
  \<open>#[near_bindgen]\<close> generates an exported entry point per method that reads the
  persisted state, guards it, runs the method and writes the state back; the NEAR
  runtime executes one receipt at a time and rolls a panicking receipt back.

  \<^bold>\<open>The theories.\<close>
  \<^item> \<open>Prelude\<close>: account ids and strings (\<open>char list\<close>, a char being a byte),
    bytes (\<open>8 word\<close>), the \<open>panic\<close> datatype of every way a call can fail, the host
    context \<open>vm_context\<close> (\<open>env::predecessor_account_id\<close>,
    \<open>env::attached_deposit\<close> as a \<open>128 word\<close>), the \<open>registry_simps\<close>
    collection and map lemmas.
  \<^item> \<open>Registry\<close>: the Rust structs as records (\<open>token_metadata\<close>, \<open>token\<close>,
    \<open>nft_contract_metadata\<close>, \<open>contract\<close>) and the four methods \<open>new\<close>,
    \<open>mint_nft\<close>, \<open>nft_token\<close>, \<open>nft_metadata\<close> of \<open>impl Contract\<close>, each a
    definition translating its body; the collections are seen through their content
    (a partial map and an option). \<open>mint_nft\<close> returns
    \<open>panic + (contract \<times> string list)\<close>: the \<open>assert_eq!\<close> is the
    \<open>Inl Unauthorized\<close> branch, the log line is the list. The invariant
    \<open>registry_inv\<close> and its preservation by every method.
  \<^item> \<open>Bindgen\<close>: the generated entry points \<open>ext_new\<close>, \<open>ext_mint_nft\<close>,
    \<open>ext_nft_token\<close>, \<open>ext_nft_metadata\<close> over the persisted state
    \<open>contract option\<close> (\<open>None\<close>: no state yet), the deposit guard of non-payable
    mutating methods, the \<open>#[init]\<close> guard and the \<open>PanicOnDefault\<close> panic;
    \<open>dispatch\<close> on the \<open>call\<close> datatype; \<open>execute\<close>, one receipt with rollback
    on panic; \<open>run\<close>, a sequence of receipts; \<open>reachable\<close>, the inductive set of
    states the runtime can reach from an empty account. Its lemmas give the outcome
    of each call on every branch (\<open>execute_cases\<close>) and the frame of each receipt
    on the token map; it holds C1--C6 and C9--C12.
  \<^item> \<open>Borsh\<close>: the Borsh format of the \<open>borsh\<close> crate for the types stored:
    \<open>u8\<close>, \<open>u32\<close> little-endian (\<open>le_bytes\<close>/\<open>le_value\<close>), \<open>String\<close>
    (\<open>u32\<close> length, bytes, UTF-8 check by \<open>valid_utf8\<close>, RFC 3629 as
    \<open>core::str::from_utf8\<close> implements it), \<open>Option\<close> (tag byte),
    \<open>try_from_slice\<close>; encoders return \<open>borsh_error + bytes\<close>, decoders read a
    prefix and return the rest; the round-trip law \<open>roundtrip\<close> and its proof
    for each primitive and for \<open>Option\<close> of any codec.
  \<^item> \<open>Codec\<close>: the derived codecs of \<open>TokenMetadata\<close>, \<open>Token\<close>,
    \<open>NFTContractMetadata\<close> (fields in declaration order), the \<open>AccountId\<close> codec
    with \<open>near_sdk\<close>'s validation loop \<open>valid_account_id\<close>, the \<open>StorageKey\<close>
    prefixes; C13--C15.
  \<^item> \<open>Storage\<close>: the account's key-value store \<open>store = bytes \<rightharpoonup> bytes\<close> and the
    \<open>near_sdk\<close> collections over it. \<open>Vector\<close> (\<open>vector\<close>: a \<open>u64\<close> length as a
    \<open>64 word\<close> and a prefix; element \<open>i\<close> under the prefix followed by the
    little-endian \<open>u64\<close> of \<open>i\<close>, \<open>vec_key\<close>); \<open>vector_push_raw\<close> adds one to the length
    with the wrapping \<open>+\<close> of \<open>64 word\<close> (see Bounds). \<open>UnorderedMap\<close> (\<open>umap\<close>: an index map under prefix
    \<open>@ [105]\<close> ('i'), key and value vectors under \<open>@ [107]\<close> ('k') and
    \<open>@ [118]\<close> ('v')) with \<open>umap_get_raw\<close>, \<open>umap_insert_raw\<close> and their typed
    versions \<open>umap_get\<close>, \<open>umap_insert\<close> (the evicted value is decoded, as
    \<open>insert\<close> returns it); \<open>LazyOption\<close> (\<open>lazy_new\<close>, \<open>lazy_get\<close>). The
    representation invariant \<open>umap_repr m st ks vs\<close> says which raw key and value lists
    a map holds; \<open>umap_insert_refines\<close> and \<open>umap_get_repr\<close> prove that insert and
    get act on \<open>umap_view\<close>, the partial map the entries denote, as map update and
    lookup do, and that an insert writes only under its prefix; C20 is the
    insert/lookup law of the token map.
  \<^item> \<open>StoreContract\<close>: the \<open>Contract\<close> struct as its Borsh bytes hold it
    (\<open>contract_struct\<close>: the owner and the headers of its two collections,
    \<open>ser_contract\<close>/\<open>de_contract\<close>), the four methods over the store
    (\<open>new_store\<close>, \<open>mint_nft_store\<close>, \<open>nft_token_store\<close>,
    \<open>nft_metadata_store\<close>), and the receipt \<open>execute_store\<close>: read the struct from
    the key \<open>STATE\<close>, run the method, write the struct back, or leave the store as it
    was on a panic; \<open>run_store\<close> runs a sequence. \<open>abs_store\<close> reads a contract
    value back from a store; \<open>store_inv\<close> (empty, or \<open>store_state\<close>: a decodable
    \<open>STATE\<close>, the token map laid out under \<open>[0]\<close> and holding decodable tokens,
    the metadata under \<open>[1]\<close>) is the invariant of the stores the contract leaves.
  \<^item> \<open>Json\<close>: JSON documents (\<open>json\<close>, objects as entry lists in text order),
    the derived \<open>Serialize\<close>/\<open>Deserialize\<close> of the three structs
    (\<open>json_of_token\<close>, \<open>de_json_token\<close> with its \<open>visit_map\<close> loop
    \<open>token_fields\<close>, and likewise for the metadata types), the input structs of the
    generated wrappers (\<open>new_args_fields\<close>, \<open>mint_args_fields\<close>,
    \<open>nft_token_args_fields\<close>, dispatched by \<open>decode_call\<close>), the returned JSON
    (\<open>json_of_return\<close>), and receipts with JSON arguments in the wrapper's order
    (deposit check, input, method): \<open>execute_json\<close> on the contract value and
    \<open>execute_json_store\<close> on the store; C21--C25.
  \<^item> \<open>Spec2Isabelle\<close> (this theory): properties of whole call sequences (C7, C8),
    of the contract's data in its byte form (C16), the refinement of the contract
    by its store-level execution (C17--C19, C26), the \<open>STATE\<close> round trip (C27, on
    the test value \<open>demo_contract\<close>), and the JSON read-back of \<open>nft_token\<close>'s
    result (C28).

  \<^bold>\<open>What the theorems show.\<close> Authorisation (C1, C2, C6), the one-shot
  initialisation (C3, C4, C9), the invariant of every reachable state and the
  totality of \<open>nft_metadata\<close> there (C5, C10), overwrite semantics and absence over
  call sequences (C7, C8), the audit log (C11), the deposit guard (C12), and the Borsh
  round trips of the stored values (C13--C15, C16). C17 is a simulation: a receipt
  over the store keeps \<open>store_inv\<close> and, read back through \<open>abs_store\<close>, steps
  exactly as \<open>execute\<close> on the contract value, logs and outcome included; C18 lifts
  it to any sequence of receipts; C19 is the frame of a mint (only \<open>[0]\<close>-prefixed
  keys and \<open>STATE\<close> change); C20 is the insert/lookup law of \<open>UnorderedMap\<close> on the
  token map. On the JSON side: round trips of the returned values (C21, C22),
  well-formed calls from any decodable input (C23, which discharges the
  \<open>wf_call\<close> premise of C17 and C18), the derived visitor equal to a lookup
  specification (C24) and its rejection of repeated fields (C25), and the end-to-end
  refinement of receipts with JSON arguments over the store (C26). C27 is the
  write/read round trip of the contract struct under \<open>STATE\<close>, C28 the JSON
  read-back of a stored token. So the properties proved of the contract value in
  \<open>Registry\<close> and \<open>Bindgen\<close> hold of the bytes in the store, for receipts as the host
  delivers them.

  \<^bold>\<open>Bounds.\<close> Every method is straight-line code and every recursion of the model
  is structural (receipts, byte lists, strings), so no fuel is needed. Word widths are
  those of the code: deposits \<open>u128\<close>, string length prefixes \<open>u32\<close>, collection
  lengths and indices \<open>u64\<close>, bytes \<open>u8\<close>. The one bound is the \<open>u64\<close> length of
  the token map. \<open>Vector::push_raw\<close> does \<open>self.len += 1\<close>; at \<open>2^64 - 1\<close> that
  addition wraps or panics depending on the \<open>overflow-checks\<close> setting of the Cargo
  profile, which is not part of the sources. The model wraps (the \<open>+\<close> of
  \<open>64 word\<close>), and no theorem depends on the case: the simulation assumes
  \<open>store_room\<close> (fewer than \<open>2^64 - 1\<close> tokens), C18 assumes the number of
  receipts fits in the room left, as each receipt adds at most one token, and so does
  C26. Call arguments are those a JSON decoder delivers (\<open>wf_call\<close>: UTF-8 strings
  shorter than \<open>2^32\<close>, a valid owner for \<open>new\<close>); C23 derives this from
  \<open>json_strings_ok\<close>, the guarantee of \<open>serde_json\<close> that its strings are Rust
  strings.

  \<^bold>\<open>Not modelled.\<close> JSON text (printing, parsing, escapes, numbers beyond
  their type): documents are given as trees. Gas and storage staking are host
  plumbing. \<open>Vector::pop\<close>, \<open>UnorderedMap::remove\<close> and iteration
  are not called by the contract. The \<open>near_sdk\<close> and \<open>borsh\<close> library code is
  modelled from its documented behaviour, not from its source.
\<close>

section \<open>Test data\<close>

text \<open>The \<open>Contract\<close> struct \<open>new(alice, ...)\<close> builds: an empty token map under
  \<open>[0]\<close> and the metadata under \<open>[1]\<close>.\<close>

definition demo_contract :: contract_struct where
  "demo_contract =
     \<lparr>cs_owner_id = ''alice'', cs_tokens_by_id = umap_new (storage_key_bytes TokensById),
      cs_metadata = \<lparr>lo_storage_key = storage_key_bytes Metadata\<rparr>\<rparr>"

section \<open>Properties of call sequences\<close>

text \<open>
  C7. Last write wins: after a successful mint of an id by the privileged account,
  whatever receipts follow, as long as none of them is another effective mint of that
  id, the id reads as the token of that mint.
\<close>

theorem last_mint_wins:
  assumes "run cs1 None = Some c"
    and "predecessor_account_id ctx = minter_account" and "attached_deposit ctx = 0"
    and "\<forall>(ctx', cl) \<in> set cs2. \<forall>md'. cl = Call_mint_nft t md' \<longrightarrow>
           predecessor_account_id ctx' \<noteq> minter_account \<or> attached_deposit ctx' \<noteq> 0"
  shows "\<exists>c'. run (cs1 @ (ctx, Call_mint_nft t md) # cs2) None = Some c' \<and>
              tokens_by_id c' t = Some \<lparr>token_owner_id = minter_account, token_metadata = md\<rparr>"
proof -
  let ?tok = "\<lparr>token_owner_id = minter_account, token_metadata = md\<rparr>"
  let ?st = "fst (execute ctx (Call_mint_nft t md) (Some c))"
  from assms(2,3) have "token_at ?st t = Some ?tok"
    by (simp add: execute_mint_nft token_at_def)
  with run_token_frame [OF assms(4)] have "token_at (run cs2 ?st) t = Some ?tok"
    by simp
  then obtain c' where "run cs2 ?st = Some c'" and "tokens_by_id c' t = Some ?tok"
    by (auto simp: token_at_def split: option.splits)
  with assms(1) show ?thesis by (simp add: run_append)
qed

text \<open>
  C8. An id that no receipt ever tried to mint reads as absent: \<open>nft_token\<close>
  returns \<open>None\<close> and does not panic.
\<close>

theorem never_minted_none:
  assumes "\<forall>(ctx', cl) \<in> set cs. \<forall>md. cl \<noteq> Call_mint_nft t md"
    and "run cs None = Some c"
  shows "execute ctx (Call_nft_token t) (Some c) = (Some c, [], Success (Ret_token None))"
proof -
  from assms(1) have "token_at (run cs None) t = token_at None t"
    by (intro run_token_frame) auto
  with assms(2) show ?thesis by (simp add: token_at_def execute_nft_token)
qed

section \<open>Properties across the contract and its byte representation\<close>

text \<open>
  C16. Every token stored in a reachable state reads back from its Borsh bytes: its
  owner is always the privileged account, a valid \<open>AccountId\<close>, so only the
  metadata strings need to be UTF-8, as Rust strings are.
\<close>

theorem reachable_token_roundtrip:
  assumes "reachable (Some c)" and "tokens_by_id c t = Some tok"
    and "wf_token_metadata (token_metadata tok)" and "ser_token tok = Inr b"
  shows "try_from_slice de_token b = Inr tok"
proof -
  from reachable_inv [OF assms(1)] have "registry_inv c" by (simp add: state_inv_def)
  with assms(2) have "token_owner_id tok = minter_account"
    by (auto simp: registry_inv_def intro: ranI)
  with assms(3) have "wf_token tok"
    by (simp add: wf_token_def minter_account_def valid_minter)
  from try_from_slice_roundtrip [OF roundtrip_token this assms(4)] show ?thesis .
qed

text \<open>
  C17. The entry points over the store refine the contract: from a store the contract
  can leave (empty, or a decodable \<open>STATE\<close> whose token map and metadata are
  laid out under the prefixes \<open>[0]\<close> and \<open>[1]\<close>) with room left in the
  \<open>u64\<close> length of the token map, a receipt with arguments a JSON decoder can
  deliver leaves such a store again, and the contract read back from the store steps
  exactly as \<open>execute\<close> does on the contract read back before: same new state, same
  logs, same outcome, failures included.
\<close>

theorem execute_store_simulates:
  assumes "store_inv st" and "wf_call cl" and "store_room st"
    and "execute_store ctx cl st = (st', logs, out)"
  shows "store_inv st' \<and> execute ctx cl (abs_store st) = (abs_store st', logs, out)"
  using execute_store_step [OF assms] by blast

text \<open>
  C18. Any sequence of receipts with well-formed arguments, run over the store from a
  store the contract can leave, with fewer receipts than the \<open>u64\<close> length of the
  token map has room for, ends in such a store, and the contract read back from it is
  the one \<open>run\<close> computes on the contract read back from the initial store.
\<close>

theorem run_store_refines:
  assumes "store_inv st" and "\<forall>(ctx, cl)\<in>set cs. wf_call cl"
    and "store_count st + length cs \<le> 2 ^ 64 - 1"
  shows "store_inv (run_store cs st) \<and> abs_store (run_store cs st) = run cs (abs_store st)"
  using assms
proof (induction cs arbitrary: st)
  case Nil
  then show ?case by simp
next
  case (Cons x cs)
  obtain ctx cl where x: "x = (ctx, cl)" by fastforce
  obtain st1 logs out where e: "execute_store ctx cl st = (st1, logs, out)" by (cases "execute_store ctx cl st") auto
  have room: "store_room st" using Cons.prems(3) by (simp add: store_room_def)
  from execute_store_step [OF Cons.prems(1) _ room e] Cons.prems(2) x
  have i1: "store_inv st1" and a1: "execute ctx cl (abs_store st) = (abs_store st1, logs, out)"
    and c1: "store_count st1 \<le> Suc (store_count st)" by auto
  have "store_inv (run_store cs st1) \<and> abs_store (run_store cs st1) = run cs (abs_store st1)"
    using Cons.IH [OF i1] Cons.prems(2,3) c1 x by auto
  with e a1 x show ?case by simp
qed

text \<open>
  C19. A \<open>mint_nft\<close> receipt writes only under the \<open>StorageKey::TokensById\<close> prefix
  \<open>[0]\<close> and the \<open>STATE\<close> key: every other entry of the store, the stored
  collection metadata under \<open>[1]\<close> included, is left as it was.
\<close>

theorem mint_store_frame:
  assumes "store_inv st" and "wf_call (Call_mint_nft t md)" and "store_room st"
    and "q \<noteq> state_key" and "\<forall>r. q \<noteq> storage_key_bytes TokensById @ r"
  shows "fst (execute_store ctx (Call_mint_nft t md) st) q = st q"
proof -
  obtain st' logs out where e: "execute_store ctx (Call_mint_nft t md) st = (st', logs, out)"
    by (cases "execute_store ctx (Call_mint_nft t md) st") auto
  from execute_store_step [OF assms(1-3) e] assms(4,5) e show ?thesis by auto
qed

text \<open>
  C26. End to end, receipts as the host delivers them (a method name and its JSON
  arguments, whose strings are Rust strings), run over the store from a store the
  contract can leave and within the \<open>u64\<close> room of the token map, keep the store
  invariant and read back as the same receipts run on the contract value: argument
  decoding, the deposit guard, \<open>STATE\<close> and the collections included.
\<close>

theorem run_json_store_refines:
  assumes "store_inv st" and "\<forall>(ctx, meth, j)\<in>set rs. json_strings_ok j"
    and "store_count st + length rs \<le> 2 ^ 64 - 1"
  shows "store_inv (run_json_store rs st) \<and> abs_store (run_json_store rs st) = run_json rs (abs_store st)"
  using assms
proof (induction rs arbitrary: st)
  case Nil
  then show ?case by simp
next
  case (Cons r rs)
  obtain ctx meth j where r: "r = (ctx, meth, j)" by (cases r) auto
  obtain st1 logs out where e: "execute_json_store ctx meth j st = (st1, logs, out)"
    by (cases "execute_json_store ctx meth j st") auto
  have room: "store_room st" using Cons.prems(3) by (simp add: store_room_def)
  from execute_json_store_step [OF Cons.prems(1) _ room e] Cons.prems(2) r
  have i1: "store_inv st1" and a1: "execute_json ctx meth j (abs_store st) = (abs_store st1, logs, out)"
    and c1: "store_count st1 \<le> Suc (store_count st)" by auto
  have "store_inv (run_json_store rs st1) \<and> abs_store (run_json_store rs st1) = run_json rs (abs_store st1)"
    using Cons.IH [OF i1] Cons.prems(2,3) c1 r by auto
  with e a1 r show ?case by simp
qed

text \<open>
  C27. Writing the \<open>Contract\<close> struct under \<open>STATE\<close> succeeds when its owner is a
  valid \<open>AccountId\<close> and its collections have the prefixes of \<open>new\<close>, reading
  \<open>STATE\<close> back gives the same struct, and no other key of the store changes.
\<close>

theorem state_write_roundtrip:
  assumes "valid_account_id (cs_owner_id c)"
    and "umap_layout (storage_key_bytes TokensById) (cs_tokens_by_id c)"
    and "cs_metadata c = \<lparr>lo_storage_key = storage_key_bytes Metadata\<rparr>"
  shows "\<exists>st'. state_write_store c st = Inr st' \<and> state_read_store st' = Inr c \<and>
           (\<forall>q. q \<noteq> state_key \<longrightarrow> st' q = st q)"
  using state_write_read [OF assms, of st] by auto

text \<open>
  C28. In every reachable state, the JSON \<open>nft_token\<close> returns for a stored id reads
  back, through the derived \<open>Deserialize\<close> of \<open>Token\<close>, as the stored token: its
  owner is always the privileged account, a valid \<open>AccountId\<close>.
\<close>

theorem nft_token_json_readback:
  assumes "reachable (Some c)" and "tokens_by_id c t = Some tok"
  shows "\<exists>j. json_of_return (Ret_token (nft_token t c)) = Some j \<and> de_json_token j = Inr tok"
proof -
  from reachable_inv [OF assms(1)] have "registry_inv c" by (simp add: state_inv_def)
  with assms(2) have "token_owner_id tok = minter_account"
    by (auto simp: registry_inv_def intro: ranI)
  then have "de_json_token (json_of_token tok) = Inr tok"
    by (simp add: de_json_token_def json_of_token_def de_json_account_id_valid minter_account_def valid_minter)
  with assms(2) show ?thesis by (simp add: json_of_return_def nft_token_def)
qed

section \<open>Witnesses\<close>

theorem last_mint_wins_witness:
  "run [(\<lparr>predecessor_account_id = ''alice'', attached_deposit = 0\<rparr>, Call_new ''alice'' ''Demo'' ''DEMO'')] None
     = Some (new ''alice'' ''Demo'' ''DEMO'') \<and>
   (\<exists>c'. run [(\<lparr>predecessor_account_id = ''alice'', attached_deposit = 0\<rparr>, Call_new ''alice'' ''Demo'' ''DEMO''),
             (\<lparr>predecessor_account_id = ''gelezako.testnet'', attached_deposit = 0\<rparr>,
              Call_mint_nft ''t1'' \<lparr>title = Some ''B'', description = None, media = None\<rparr>),
             (\<lparr>predecessor_account_id = ''alice'', attached_deposit = 0\<rparr>,
              Call_mint_nft ''t1'' \<lparr>title = Some ''C'', description = None, media = None\<rparr>)] None = Some c' \<and>
         tokens_by_id c' ''t1'' = Some \<lparr>token_owner_id = minter_account,
           token_metadata = \<lparr>title = Some ''B'', description = None, media = None\<rparr>\<rparr>)"
proof -
  let ?cs1 = "[(\<lparr>predecessor_account_id = ''alice'', attached_deposit = 0\<rparr>, Call_new ''alice'' ''Demo'' ''DEMO'')]"
  let ?ctx = "\<lparr>predecessor_account_id = ''gelezako.testnet'', attached_deposit = (0::128 word)\<rparr>"
  let ?cs2 = "[(\<lparr>predecessor_account_id = ''alice'', attached_deposit = 0\<rparr>,
              Call_mint_nft ''t1'' \<lparr>title = Some ''C'', description = None, media = None\<rparr>)]"
  have h1: "run ?cs1 None = Some (new ''alice'' ''Demo'' ''DEMO'')" by (simp add: execute_new)
  have h2: "predecessor_account_id ?ctx = minter_account" by (simp add: minter_account_def)
  have h3: "attached_deposit ?ctx = 0" by simp
  have h4: "\<forall>(ctx', cl) \<in> set ?cs2. \<forall>md'. cl = Call_mint_nft ''t1'' md' \<longrightarrow>
           predecessor_account_id ctx' \<noteq> minter_account \<or> attached_deposit ctx' \<noteq> 0"
    by (simp add: minter_account_def)
  from last_mint_wins [OF h1 h2 h3 h4, of "\<lparr>title = Some ''B'', description = None, media = None\<rparr>"] h1
  show ?thesis by simp
qed

theorem never_minted_none_witness:
  "run [(\<lparr>predecessor_account_id = ''alice'', attached_deposit = 0\<rparr>, Call_new ''alice'' ''Demo'' ''DEMO'')] None
     = Some (new ''alice'' ''Demo'' ''DEMO'') \<and>
   execute \<lparr>predecessor_account_id = ''bob'', attached_deposit = 0\<rparr> (Call_nft_token ''t9'')
     (Some (new ''alice'' ''Demo'' ''DEMO'')) =
   (Some (new ''alice'' ''Demo'' ''DEMO''), [], Success (Ret_token None))"
proof -
  let ?cs = "[(\<lparr>predecessor_account_id = ''alice'', attached_deposit = (0::128 word)\<rparr>,
       Call_new ''alice'' ''Demo'' ''DEMO'')]"
  have h1: "\<forall>(ctx', cl) \<in> set ?cs. \<forall>md. cl \<noteq> Call_mint_nft ''t9'' md" by simp
  have h2: "run ?cs None = Some (new ''alice'' ''Demo'' ''DEMO'')" by (simp add: execute_new)
  from never_minted_none [OF h1 h2, of "\<lparr>predecessor_account_id = ''bob'', attached_deposit = 0\<rparr>"] h2
  show ?thesis by simp
qed

theorem reachable_token_roundtrip_witness:
  "\<exists>b. ser_token \<lparr>token_owner_id = minter_account,
          token_metadata = \<lparr>title = Some ''A'', description = None, media = None\<rparr>\<rparr> = Inr b \<and>
       try_from_slice de_token b = Inr \<lparr>token_owner_id = minter_account,
          token_metadata = \<lparr>title = Some ''A'', description = None, media = None\<rparr>\<rparr>"
proof -
  let ?md = "\<lparr>title = Some ''A'', description = None, media = None\<rparr>"
  let ?tok = "\<lparr>token_owner_id = minter_account, token_metadata = ?md\<rparr>"
  let ?c = "new ''alice'' ''Demo'' ''DEMO''"
  let ?c' = "?c\<lparr>tokens_by_id := (tokens_by_id ?c)(''t1'' \<mapsto> ?tok)\<rparr>"
  have e: "execute \<lparr>predecessor_account_id = ''gelezako.testnet'', attached_deposit = 0\<rparr>
             (Call_mint_nft ''t1'' ?md) (Some ?c) = (Some ?c', [mint_log ''t1'' minter_account], Success Ret_unit)"
    by (simp add: execute_mint_nft minter_account_def)
  have r: "reachable (Some ?c')" by (rule reachable.receipt [OF reachable_new e])
  have t: "tokens_by_id ?c' ''t1'' = Some ?tok" by simp
  have w: "wf_token_metadata (token_metadata ?tok)" by (simp add: wf_token_metadata_def utf8_A)
  obtain b where s: "ser_token ?tok = Inr b"
    by (simp add: ser_token_def ser_account_id_def ser_token_metadata_def enc_then_def
        ser_option_def ser_string_def minter_account_def)
  from reachable_token_roundtrip [OF r t w s] s show ?thesis by blast
qed

theorem execute_store_simulates_witness:
  "store_inv (fst (execute_store \<lparr>predecessor_account_id = ''alice'', attached_deposit = 0\<rparr>
                     (Call_new ''alice'' ''Demo'' ''DEMO'') Map.empty)) \<and>
   execute \<lparr>predecessor_account_id = ''alice'', attached_deposit = 0\<rparr>
     (Call_new ''alice'' ''Demo'' ''DEMO'') (abs_store Map.empty) =
   (abs_store (fst (execute_store \<lparr>predecessor_account_id = ''alice'', attached_deposit = 0\<rparr>
                     (Call_new ''alice'' ''Demo'' ''DEMO'') Map.empty)),
    snd (execute_store \<lparr>predecessor_account_id = ''alice'', attached_deposit = 0\<rparr>
           (Call_new ''alice'' ''Demo'' ''DEMO'') Map.empty))"
proof -
  let ?ctx = "\<lparr>predecessor_account_id = ''alice'', attached_deposit = 0\<rparr> :: vm_context"
  let ?cl = "Call_new ''alice'' ''Demo'' ''DEMO''"
  let ?e = "execute_store ?ctx ?cl Map.empty"
  have i: "store_inv Map.empty" by (simp add: store_inv_def)
  have w: "wf_call ?cl"
    by (simp add: valid_account_id_def rust_string_def utf8_string_def bytes_of_def account_alnum_def)
  have r: "store_room Map.empty" by (simp add: store_room_def store_count_def state_read_store_def)
  have "store_inv (fst ?e) \<and> execute ?ctx ?cl (abs_store Map.empty) = (abs_store (fst ?e), fst (snd ?e), snd (snd ?e))"
    using execute_store_simulates [OF i w r, of ?ctx "fst ?e" "fst (snd ?e)" "snd (snd ?e)"] by simp
  then show ?thesis by simp
qed

theorem run_store_refines_witness:
  "store_inv (run_store [(\<lparr>predecessor_account_id = ''alice'', attached_deposit = 0\<rparr>, Call_new ''alice'' ''Demo'' ''DEMO''),
                         (\<lparr>predecessor_account_id = ''gelezako.testnet'', attached_deposit = 0\<rparr>,
                          Call_mint_nft ''t1'' \<lparr>title = Some ''A'', description = None, media = None\<rparr>)] Map.empty) \<and>
   abs_store (run_store [(\<lparr>predecessor_account_id = ''alice'', attached_deposit = 0\<rparr>, Call_new ''alice'' ''Demo'' ''DEMO''),
                         (\<lparr>predecessor_account_id = ''gelezako.testnet'', attached_deposit = 0\<rparr>,
                          Call_mint_nft ''t1'' \<lparr>title = Some ''A'', description = None, media = None\<rparr>)] Map.empty) =
   Some ((new ''alice'' ''Demo'' ''DEMO'')\<lparr>tokens_by_id := [''t1'' \<mapsto> \<lparr>token_owner_id = ''gelezako.testnet'',
            token_metadata = \<lparr>title = Some ''A'', description = None, media = None\<rparr>\<rparr>]\<rparr>)"
proof -
  let ?cs = "[(\<lparr>predecessor_account_id = ''alice'', attached_deposit = 0\<rparr>, Call_new ''alice'' ''Demo'' ''DEMO''),
              (\<lparr>predecessor_account_id = ''gelezako.testnet'', attached_deposit = 0\<rparr>,
               Call_mint_nft ''t1'' \<lparr>title = Some ''A'', description = None, media = None\<rparr>)]"
  have i: "store_inv Map.empty" by (simp add: store_inv_def)
  have w: "\<forall>(ctx, cl)\<in>set ?cs. wf_call cl"
    by (simp add: valid_account_id_def rust_string_def utf8_string_def bytes_of_def account_alnum_def)
  have c: "store_count Map.empty + length ?cs \<le> 2 ^ 64 - 1"
    by (simp add: store_count_def state_read_store_def)
  have "run ?cs (abs_store Map.empty) = Some ((new ''alice'' ''Demo'' ''DEMO'')\<lparr>tokens_by_id := [''t1'' \<mapsto> \<lparr>token_owner_id = ''gelezako.testnet'',
            token_metadata = \<lparr>title = Some ''A'', description = None, media = None\<rparr>\<rparr>]\<rparr>)"
    by (simp add: abs_store_def state_read_store_def registry_simps minter_account_def new_def)
  with run_store_refines [OF i w c] show ?thesis by simp
qed

theorem mint_store_frame_witness:
  "fst (execute_store \<lparr>predecessor_account_id = ''gelezako.testnet'', attached_deposit = 0\<rparr>
          (Call_mint_nft ''t1'' \<lparr>title = Some ''A'', description = None, media = None\<rparr>)
          (fst (execute_store \<lparr>predecessor_account_id = ''alice'', attached_deposit = 0\<rparr>
                  (Call_new ''alice'' ''Demo'' ''DEMO'') Map.empty)))
     (storage_key_bytes Metadata) =
   fst (execute_store \<lparr>predecessor_account_id = ''alice'', attached_deposit = 0\<rparr>
          (Call_new ''alice'' ''Demo'' ''DEMO'') Map.empty) (storage_key_bytes Metadata)"
proof -
  let ?ctx = "\<lparr>predecessor_account_id = ''alice'', attached_deposit = 0\<rparr> :: vm_context"
  let ?e = "execute_store ?ctx (Call_new ''alice'' ''Demo'' ''DEMO'') Map.empty"
  have i: "store_inv Map.empty" by (simp add: store_inv_def)
  have w: "wf_call (Call_new ''alice'' ''Demo'' ''DEMO'')"
    by (simp add: valid_account_id_def rust_string_def utf8_string_def bytes_of_def account_alnum_def)
  have r: "store_room Map.empty" by (simp add: store_room_def store_count_def state_read_store_def)
  from execute_store_step [OF i w r, of ?ctx "fst ?e" "fst (snd ?e)" "snd (snd ?e)"]
  have i1: "store_inv (fst ?e)" and c1: "store_count (fst ?e) \<le> 1" by (simp_all add: store_count_def state_read_store_def)
  have r1: "store_room (fst ?e)" using c1 by (simp add: store_room_def)
  have w1: "wf_call (Call_mint_nft ''t1'' \<lparr>title = Some ''A'', description = None, media = None\<rparr>)"
    by (simp add: rust_string_def utf8_string_def bytes_of_def)
  have q: "storage_key_bytes Metadata \<noteq> state_key" "\<forall>r. storage_key_bytes Metadata \<noteq> storage_key_bytes TokensById @ r"
    by simp_all
  from mint_store_frame [OF i1 w1 r1 q] show ?thesis .
qed

theorem run_json_store_refines_witness:
  "abs_store (run_json_store
     [(\<lparr>predecessor_account_id = ''alice'', attached_deposit = 0\<rparr>, ''new'',
       JObject [(''owner_id'', JString ''alice''), (''name'', JString ''Demo''), (''symbol'', JString ''DEMO'')]),
      (\<lparr>predecessor_account_id = ''gelezako.testnet'', attached_deposit = 0\<rparr>, ''mint_nft'',
       JObject [(''token_id'', JString ''t1''), (''metadata'', JObject [(''title'', JString ''A'')])])] Map.empty) =
   Some ((new ''alice'' ''Demo'' ''DEMO'')\<lparr>tokens_by_id := [''t1'' \<mapsto> \<lparr>token_owner_id = ''gelezako.testnet'',
            token_metadata = \<lparr>title = Some ''A'', description = None, media = None\<rparr>\<rparr>]\<rparr>)"
proof -
  let ?rs = "[(\<lparr>predecessor_account_id = ''alice'', attached_deposit = 0\<rparr>, ''new'',
       JObject [(''owner_id'', JString ''alice''), (''name'', JString ''Demo''), (''symbol'', JString ''DEMO'')]),
      (\<lparr>predecessor_account_id = ''gelezako.testnet'', attached_deposit = 0\<rparr>, ''mint_nft'',
       JObject [(''token_id'', JString ''t1''), (''metadata'', JObject [(''title'', JString ''A'')])])]"
  have i: "store_inv Map.empty" by (simp add: store_inv_def)
  have w: "\<forall>(ctx, meth, j)\<in>set ?rs. json_strings_ok j"
    by (simp add: rust_string_def utf8_string_def bytes_of_def)
  have c: "store_count Map.empty + length ?rs \<le> 2 ^ 64 - 1"
    by (simp add: store_count_def state_read_store_def)
  have "run_json ?rs (abs_store Map.empty) = Some ((new ''alice'' ''Demo'' ''DEMO'')\<lparr>tokens_by_id := [''t1'' \<mapsto> \<lparr>token_owner_id = ''gelezako.testnet'',
            token_metadata = \<lparr>title = Some ''A'', description = None, media = None\<rparr>\<rparr>]\<rparr>)"
    by (simp add: abs_store_def state_read_store_def execute_json_def decode_call_def de_json_string_def
        de_json_account_id_def de_json_token_metadata_def de_json_opt_string_def opt_field_def
        valid_account_id_def account_alnum_def registry_simps minter_account_def new_def)
  with run_json_store_refines [OF i w c] show ?thesis by simp
qed

theorem state_write_roundtrip_witness:
  "\<exists>st'. state_write_store demo_contract Map.empty = Inr st' \<and> state_read_store st' = Inr demo_contract \<and>
     (\<forall>q. q \<noteq> state_key \<longrightarrow> st' q = None)"
proof -
  have a: "valid_account_id (cs_owner_id demo_contract)"
    by (simp add: demo_contract_def valid_account_id_def account_alnum_def)
  have b: "umap_layout (storage_key_bytes TokensById) (cs_tokens_by_id demo_contract)"
    by (simp add: demo_contract_def umap_layout_def umap_new_def vector_new_def)
  have c: "cs_metadata demo_contract = \<lparr>lo_storage_key = storage_key_bytes Metadata\<rparr>"
    by (simp add: demo_contract_def)
  from state_write_roundtrip [OF a b c, of Map.empty] show ?thesis by simp
qed

theorem nft_token_json_readback_witness:
  "\<exists>j. json_of_return (Ret_token (nft_token ''t1''
          ((new ''alice'' ''Demo'' ''DEMO'')\<lparr>tokens_by_id := [''t1'' \<mapsto> \<lparr>token_owner_id = minter_account,
             token_metadata = \<lparr>title = Some ''A'', description = None, media = None\<rparr>\<rparr>]\<rparr>))) = Some j \<and>
       de_json_token j = Inr \<lparr>token_owner_id = minter_account,
             token_metadata = \<lparr>title = Some ''A'', description = None, media = None\<rparr>\<rparr>"
proof -
  let ?md = "\<lparr>title = Some ''A'', description = None, media = None\<rparr>"
  let ?tok = "\<lparr>token_owner_id = minter_account, token_metadata = ?md\<rparr>"
  let ?c = "new ''alice'' ''Demo'' ''DEMO''"
  let ?c' = "?c\<lparr>tokens_by_id := [''t1'' \<mapsto> ?tok]\<rparr>"
  have e: "execute \<lparr>predecessor_account_id = ''gelezako.testnet'', attached_deposit = 0\<rparr>
             (Call_mint_nft ''t1'' ?md) (Some ?c) = (Some ?c', [mint_log ''t1'' minter_account], Success Ret_unit)"
    by (simp add: execute_mint_nft minter_account_def new_def)
  have r: "reachable (Some ?c')" by (rule reachable.receipt [OF reachable_new e])
  have t: "tokens_by_id ?c' ''t1'' = Some ?tok" by simp
  from nft_token_json_readback [OF r t] show ?thesis .
qed

end
